(* ===== verification/Prelude.thy ===== *)
theory Prelude
  imports Complex_Main "HOL-Library.Sublist"
begin

text \<open>
  Shared vocabulary of the development.

  \<^item> \<open>named_theorems\<close>: \<open>gateway_defs\<close> (the wrapper definitions a proof about a handler
    unfolds) and \<open>frame\<close> (facts that an operation leaves a part of the state alone).
  \<^item> The two result shapes every component uses: \<open>bind_res\<close> for a pure computation that may
    raise, \<open>bind_st\<close> for one that also passes a state along.  An exception is a value
    (\<open>Inl\<close>), so every \<open>raise\<close> and every early return of the Python is a branch.
  \<^item> Python's \<open>int()\<close> on a float (\<open>trunc_rat\<close>) and the generic list facts on filtering and
    counting that the rate limiter and the audit log share.
\<close>

named_theorems gateway_defs
named_theorems frame

section \<open>Results\<close>

definition bind_res :: "'e + 'a \<Rightarrow> ('a \<Rightarrow> 'e + 'b) \<Rightarrow> 'e + 'b" where
  "bind_res m f = (case m of Inl e \<Rightarrow> Inl e | Inr a \<Rightarrow> f a)"

lemma bind_res_simps [simp]:
  "bind_res (Inl e) f = Inl e"
  "bind_res (Inr a) f = f a"
  by (simp_all add: bind_res_def)

lemma bind_res_Inr_iff: "bind_res m f = Inr b \<longleftrightarrow> (\<exists>a. m = Inr a \<and> f a = Inr b)"
  by (cases m) auto

lemma bind_res_Inl_iff:
  "bind_res m f = Inl e \<longleftrightarrow> m = Inl e \<or> (\<exists>a. m = Inr a \<and> f a = Inl e)"
  by (cases m) auto

definition bind_st ::
  "('w \<Rightarrow> ('e + 'a) \<times> 'w) \<Rightarrow> ('a \<Rightarrow> 'w \<Rightarrow> ('e + 'b) \<times> 'w) \<Rightarrow> 'w \<Rightarrow> ('e + 'b) \<times> 'w" where
  "bind_st m f w = (case m w of (Inl e, w') \<Rightarrow> (Inl e, w') | (Inr a, w') \<Rightarrow> f a w')"

lemma bind_st_simps:
  "m w = (Inl e, w') \<Longrightarrow> bind_st m f w = (Inl e, w')"
  "m w = (Inr a, w') \<Longrightarrow> bind_st m f w = f a w'"
  by (simp_all add: bind_st_def)

lemma bind_st_Inr:
  "bind_st m f w = (Inr b, w'') \<longleftrightarrow> (\<exists>a w'. m w = (Inr a, w') \<and> f a w' = (Inr b, w''))"
  by (auto simp: bind_st_def split: prod.splits sum.splits)

text \<open>An invariant of the state that both halves keep is kept by their composition.\<close>

lemma bind_st_invariant:
  assumes "P (snd (m w))"
    and "\<And>a w'. m w = (Inr a, w') \<Longrightarrow> P w' \<Longrightarrow> P (snd (f a w'))"
  shows "P (snd (bind_st m f w))"
  using assms by (cases "m w") (auto simp: bind_st_def split: sum.splits)

section \<open>Numbers\<close>

text \<open>\<open>int(x)\<close> of a Python float truncates towards zero.\<close>

definition trunc_rat :: "rat \<Rightarrow> int" where
  "trunc_rat r = (if 0 \<le> r then \<lfloor>r\<rfloor> else \<lceil>r\<rceil>)"

lemma trunc_rat_nonneg_le: "0 \<le> r \<Longrightarrow> of_int (trunc_rat r) \<le> r"
  by (simp add: trunc_rat_def)

lemma trunc_rat_nonneg_gt: "0 \<le> r \<Longrightarrow> r < of_int (trunc_rat r) + 1"
  unfolding trunc_rat_def using floor_correct [of r] by simp

lemma trunc_rat_of_int [simp]: "trunc_rat (of_int i) = i"
  by (simp add: trunc_rat_def)

lemma trunc_rat_numeral [simp]:
  "trunc_rat (numeral n) = numeral n"
  "trunc_rat 0 = 0" "trunc_rat 1 = 1"
  by (simp_all add: trunc_rat_def)

section \<open>Lists\<close>

lemma sum_list_le_const_times:
  fixes f :: "'a \<Rightarrow> nat"
  shows "(\<And>x. x \<in> set xs \<Longrightarrow> f x \<le> c) \<Longrightarrow> sum_list (map f xs) \<le> c * length xs"
  by (induction xs) (auto simp: add_mono)

lemma length_filter_mono:
  "(\<And>x. x \<in> set xs \<Longrightarrow> P x \<Longrightarrow> Q x) \<Longrightarrow> length (filter P xs) \<le> length (filter Q xs)"
  by (induction xs) auto

lemma map_of_Some_in_keys: "map_of xs k = Some v \<Longrightarrow> k \<in> set (map fst xs)"
  by (induction xs) (auto split: if_splits)

lemma map_of_filter_neq:
  "map_of (filter (\<lambda>p. fst p \<noteq> k) xs) = (map_of xs)(k := None)"
  by (induction xs) (auto simp: fun_eq_iff)

lemma card_inj_image_le_length:
  "finite S \<Longrightarrow> inj_on f S \<Longrightarrow> f ` S \<subseteq> set xs \<Longrightarrow> card S \<le> length xs"
  by (metis card_image card_length card_mono finite_set le_trans)

end
