(* ===== verification/PyStr.thy ===== *)
theory PyStr
  imports Prelude "HOL-Library.List_Lexorder" "HOL-Library.Char_ord"
begin

text \<open>
  The parts of Python's \<open>str\<close> the program uses.  A string is a list of characters, each
  standing for the code point of its \<open>of_char\<close> value, so the code points 0 to 255 (what an
  HTTP header holds after Starlette's latin-1 decoding) are covered.  Bytes are the same type;
  \<open>utf8\<close> is \<open>str.encode()\<close> between the two.
\<close>

section \<open>Character classes\<close>

abbreviation code :: "char \<Rightarrow> nat" where "code c \<equiv> of_char c"

definition is_digit :: "char \<Rightarrow> bool" where
  "is_digit c \<longleftrightarrow> 48 \<le> code c \<and> code c \<le> 57"

definition digit_val :: "char \<Rightarrow> nat" where
  "digit_val c = code c - 48"

definition digit_char :: "nat \<Rightarrow> char" where
  "digit_char n = char_of (48 + n)"

definition is_ascii :: "string \<Rightarrow> bool" where
  "is_ascii s \<longleftrightarrow> (\<forall>c \<in> set s. code c < 128)"

text \<open>\<open>str.isspace\<close> on one character, what \<open>str.strip()\<close> removes.\<close>

definition py_isspace :: "char \<Rightarrow> bool" where
  "py_isspace c \<longleftrightarrow> code c \<in> {9, 10, 11, 12, 13, 28, 29, 30, 31, 32, 133, 160}"

text \<open>The blanks \<open>int()\<close> and \<open>float()\<close> skip: not the ASCII separators 28 to 31.\<close>

definition num_isspace :: "char \<Rightarrow> bool" where
  "num_isspace c \<longleftrightarrow> code c \<in> {9, 10, 11, 12, 13, 32, 133, 160}"

definition strip_by :: "(char \<Rightarrow> bool) \<Rightarrow> string \<Rightarrow> string" where
  "strip_by p s = rev (dropWhile p (rev (dropWhile p s)))"

definition py_strip :: "string \<Rightarrow> string" where
  "py_strip = strip_by py_isspace"

lemma digit_char_props:
  assumes "n < 10"
  shows "is_digit (digit_char n)" "digit_val (digit_char n) = n"
  using assms by (simp_all add: is_digit_def digit_val_def digit_char_def)

lemma length_strip_by: "length (strip_by p s) \<le> length s"
proof -
  have "length (dropWhile p (rev (dropWhile p s))) \<le> length (rev (dropWhile p s))"
    by (rule length_dropWhile_le)
  also have "\<dots> \<le> length s" by (simp add: length_dropWhile_le)
  finally show ?thesis by (simp add: strip_by_def)
qed

section \<open>Decimal integers\<close>

fun string_of_nat :: "nat \<Rightarrow> string" where
  "string_of_nat n =
     (if n < 10 then [digit_char n] else string_of_nat (n div 10) @ [digit_char (n mod 10)])"

declare string_of_nat.simps [simp del]

definition string_of_int :: "int \<Rightarrow> string" where
  "string_of_int i = (if i < 0 then CHR ''-'' # string_of_nat (nat (- i)) else string_of_nat (nat i))"

text \<open>
  The digit scanner of \<open>int()\<close>: a single underscore is allowed between two digits.  The flag
  says whether the previous character was a digit.
\<close>

fun scan_digits :: "bool \<Rightarrow> nat \<Rightarrow> string \<Rightarrow> nat option" where
  "scan_digits p acc [] = (if p then Some acc else None)"
| "scan_digits p acc (c # cs) =
     (if is_digit c then scan_digits True (10 * acc + digit_val c) cs
      else if c = CHR ''_'' \<and> p then scan_digits False acc cs
      else None)"

text \<open>\<open>sys.get_int_max_str_digits()\<close>: longer literals raise \<open>ValueError\<close>, like malformed ones.\<close>

definition INT_MAX_STR_DIGITS :: nat where
  "INT_MAX_STR_DIGITS = 4300"

definition py_int :: "string \<Rightarrow> int option" where
  "py_int s =
     (let t = strip_by num_isspace s;
          body = (case t of c # cs \<Rightarrow> if c = CHR ''+'' \<or> c = CHR ''-'' then cs else t | [] \<Rightarrow> [])
      in if INT_MAX_STR_DIGITS < length (filter is_digit body) then None
         else map_option (\<lambda>n. if take 1 t = ''-'' then - int n else int n) (scan_digits False 0 body))"

lemma string_of_nat_digits: "c \<in> set (string_of_nat n) \<Longrightarrow> is_digit c"
proof (induction n rule: string_of_nat.induct)
  case (1 n)
  then show ?case
    by (subst (asm) (2) string_of_nat.simps) (auto split: if_splits simp: digit_char_props)
qed

lemma string_of_nat_ne [simp]: "string_of_nat n \<noteq> []"
  by (subst string_of_nat.simps) simp

lemma scan_digits_append_digit:
  "scan_digits p acc s = Some m \<Longrightarrow> s \<noteq> [] \<or> p \<Longrightarrow> is_digit c \<Longrightarrow>
   scan_digits p acc (s @ [c]) = Some (10 * m + digit_val c)"
proof (induction p acc s rule: scan_digits.induct)
  case (2 p acc d cs)
  then show ?case by (cases cs) (auto split: if_splits)
qed (auto split: if_splits)

lemma scan_digits_string_of_nat: "scan_digits False 0 (string_of_nat n) = Some n"
proof (induction n rule: string_of_nat.induct)
  case (1 n)
  show ?case
  proof (cases "n < 10")
    case True
    then show ?thesis
      by (subst string_of_nat.simps) (simp add: digit_char_props)
  next
    case False
    have "scan_digits False 0 (string_of_nat (n div 10) @ [digit_char (n mod 10)])
            = Some (10 * (n div 10) + digit_val (digit_char (n mod 10)))"
      by (rule scan_digits_append_digit) (use "1.IH" False in \<open>auto simp: digit_char_props\<close>)
    with False show ?thesis
      by (subst string_of_nat.simps) (simp add: digit_char_props)
  qed
qed

section \<open>Splitting and joining\<close>

fun split_on :: "char \<Rightarrow> string \<Rightarrow> string list" where
  "split_on c [] = [[]]"
| "split_on c (x # xs) =
     (if x = c then [] # split_on c xs
      else (case split_on c xs of [] \<Rightarrow> [[x]] | y # ys \<Rightarrow> (x # y) # ys))"

fun join :: "string \<Rightarrow> string list \<Rightarrow> string" where
  "join sep [] = []"
| "join sep [x] = x"
| "join sep (x # y # zs) = x @ sep @ join sep (y # zs)"

lemma split_on_ne [simp]: "split_on c s \<noteq> []"
  by (induction s) (auto split: list.splits)

lemma join_Cons: "xs \<noteq> [] \<Longrightarrow> join sep (x # xs) = x @ sep @ join sep xs"
  by (cases xs) auto

lemma join_split_on: "join [c] (split_on c s) = s"
proof (induction s)
  case (Cons x s)
  obtain y ys where ys: "split_on c s = y # ys"
    by (cases "split_on c s") auto
  with Cons have "join [c] (y # ys) = s" by simp
  then have "join [c] ((x # y) # ys) = x # s"
    by (cases ys) auto
  with Cons ys show ?case by (simp add: join_Cons)
qed simp

lemma set_join: "set (join sep xs) \<subseteq> set sep \<union> \<Union> (set ` set xs)"
  by (induction sep xs rule: join.induct) auto

lemma split_on_not_in: "y \<in> set (split_on c s) \<Longrightarrow> c \<notin> set y"
  by (induction s arbitrary: y) (auto split: if_splits list.splits)

text \<open>\<open>str.splitlines()\<close>: the line boundaries, with \<open>\r\n\<close> as one, and no empty last line.\<close>

definition is_linebreak :: "char \<Rightarrow> bool" where
  "is_linebreak c \<longleftrightarrow> code c \<in> {10, 11, 12, 13, 28, 29, 30, 133}"

fun splitlines_from :: "string \<Rightarrow> string \<Rightarrow> string list" where
  "splitlines_from acc [] = (if acc = [] then [] else [rev acc])"
| "splitlines_from acc (c # cs) =
     (if is_linebreak c
      then rev acc # (case cs of
                        d # ds \<Rightarrow> if code c = 13 \<and> code d = 10 then splitlines_from [] ds
                                 else splitlines_from [] cs
                      | [] \<Rightarrow> [])
      else splitlines_from (c # acc) cs)"

definition splitlines :: "string \<Rightarrow> string list" where
  "splitlines s = splitlines_from [] s"

section \<open>Prefixes and UTF-8\<close>

definition startswith :: "string \<Rightarrow> string \<Rightarrow> bool" where
  "startswith s p \<longleftrightarrow> prefix p s"

lemma startswith_simps [simp]:
  "startswith s []"
  "\<not> startswith [] (c # p)"
  "startswith (d # s) (c # p) \<longleftrightarrow> d = c \<and> startswith s p"
  by (auto simp: startswith_def)

definition utf8_char :: "char \<Rightarrow> string" where
  "utf8_char c =
     (if code c < 128 then [c]
      else [char_of (192 + code c div 64), char_of (128 + code c mod 64)])"

definition utf8 :: "string \<Rightarrow> string" where
  "utf8 s = concat (map utf8_char s)"

lemma utf8_ascii: "is_ascii s \<Longrightarrow> utf8 s = s"
  by (induction s) (auto simp: utf8_def utf8_char_def is_ascii_def)

end
