(* ===== verification/PyValues.thy ===== *)
theory PyValues
  imports PyStr
begin

text \<open>
  Python values as the gateway sees them: what \<open>json.loads\<close> builds from a request body and
  what the handlers put into a response.  A dictionary is an association list in insertion order
  with distinct keys (\<open>wf_json\<close>).  Finite floats carry their exact value; \<open>inf\<close> and
  \<open>nan\<close>, which \<open>json.loads\<close> accepts, are values of their own.

  The text of a finite float (\<open>float.__repr__\<close>, the shortest decimal that reads back as the
  same double) is the argument \<open>fr\<close> of the printing functions.

  An operation that raises returns \<open>Inl\<close> of an \<open>exn\<close>: one of the program's two exception
  classes with its fields, or a built-in one with its message.
\<close>

section \<open>Values and exceptions\<close>

datatype pyfloat = Fin rat | PosInf | NegInf | NaN

datatype json =
    JNull
  | JBool bool
  | JInt int
  | JFloat pyfloat
  | JStr string
  | JList "json list"
  | JObj "(string \<times> json) list"

type_synonym dict = "(string \<times> json) list"

datatype pyclass =
    AttributeError | TypeError | KeyError | IndexError | ValueError | OverflowError
  | DatabaseError | OtherError

datatype exn =
    ExecutorError string string      \<comment> \<open>\<open>error_type\<close>, message\<close>
  | MissingParamError string string  \<comment> \<open>\<open>field_name\<close>, message\<close>
  | PyError pyclass string           \<comment> \<open>a built-in or library exception, with \<open>str(exc)\<close>\<close>

type_synonym 'a result = "exn + 'a"

fun exn_str :: "exn \<Rightarrow> string" where
  "exn_str (ExecutorError t m) = m"
| "exn_str (MissingParamError f m) = m"
| "exn_str (PyError c m) = m"

fun wf_json :: "json \<Rightarrow> bool" where
  "wf_json (JList xs) = (\<forall>x \<in> set xs. wf_json x)"
| "wf_json (JObj kvs) = (distinct (map fst kvs) \<and> (\<forall>kv \<in> set kvs. wf_json (snd kv)))"
| "wf_json _ = True"

section \<open>Truth, attributes, dictionaries\<close>

fun truthy :: "json \<Rightarrow> bool" where
  "truthy JNull = False"
| "truthy (JBool b) = b"
| "truthy (JInt i) = (i \<noteq> 0)"
| "truthy (JFloat (Fin r)) = (r \<noteq> 0)"
| "truthy (JFloat _) = True"
| "truthy (JStr s) = (s \<noteq> [])"
| "truthy (JList xs) = (xs \<noteq> [])"
| "truthy (JObj kvs) = (kvs \<noteq> [])"

text \<open>The value of \<open>a or b\<close>.\<close>

definition py_or :: "json \<Rightarrow> json \<Rightarrow> json" where
  "py_or a b = (if truthy a then a else b)"

fun type_name :: "json \<Rightarrow> string" where
  "type_name JNull = ''NoneType''"
| "type_name (JBool _) = ''bool''"
| "type_name (JInt _) = ''int''"
| "type_name (JFloat _) = ''float''"
| "type_name (JStr _) = ''str''"
| "type_name (JList _) = ''list''"
| "type_name (JObj _) = ''dict''"

definition no_attr :: "json \<Rightarrow> string \<Rightarrow> exn" where
  "no_attr v a = PyError AttributeError
     (CHR 0x27 # type_name v @ [CHR 0x27] @ '' object has no attribute '' @ CHR 0x27 # a @ [CHR 0x27])"

fun is_dict :: "json \<Rightarrow> bool" where
  "is_dict (JObj _) = True"
| "is_dict _ = False"

fun is_str :: "json \<Rightarrow> bool" where
  "is_str (JStr _) = True"
| "is_str _ = False"

text \<open>\<open>d.get(k, default)\<close> and \<open>d.get(k)\<close> on a dictionary.\<close>

definition dict_get_or :: "dict \<Rightarrow> string \<Rightarrow> json \<Rightarrow> json" where
  "dict_get_or d k v = (case map_of d k of None \<Rightarrow> v | Some x \<Rightarrow> x)"

definition dict_get :: "dict \<Rightarrow> string \<Rightarrow> json" where
  "dict_get d k = dict_get_or d k JNull"

text \<open>A value or \<open>None\<close>, as JSON.\<close>

definition opt_json :: "('a \<Rightarrow> json) \<Rightarrow> 'a option \<Rightarrow> json" where
  "opt_json f x = (case x of None \<Rightarrow> JNull | Some a \<Rightarrow> f a)"

text \<open>The same method call on a value that need not be a dictionary.\<close>

definition json_get_or :: "json \<Rightarrow> string \<Rightarrow> json \<Rightarrow> json result" where
  "json_get_or v k dflt = (case v of JObj d \<Rightarrow> Inr (dict_get_or d k dflt) | _ \<Rightarrow> Inl (no_attr v ''get''))"

definition json_get :: "json \<Rightarrow> string \<Rightarrow> json result" where
  "json_get v k = json_get_or v k JNull"

text \<open>\<open>d[k]\<close>: a missing key raises \<open>KeyError\<close>.\<close>

definition json_item :: "json \<Rightarrow> string \<Rightarrow> json result" where
  "json_item v k =
     (case v of
        JObj d \<Rightarrow> (case map_of d k of None \<Rightarrow> Inl (PyError KeyError (CHR 0x27 # k @ [CHR 0x27]))
                                  | Some x \<Rightarrow> Inr x)
      | JList _ \<Rightarrow> Inl (PyError TypeError ''list indices must be integers or slices, not str'')
      | JStr _ \<Rightarrow> Inl (PyError TypeError (''string indices must be integers, not '' @ [CHR 0x27] @ ''str'' @ [CHR 0x27]))
      | _ \<Rightarrow> Inl (PyError TypeError (CHR 0x27 # type_name v @ [CHR 0x27] @ '' object is not subscriptable'')))"

text \<open>\<open>d[k] = v\<close>: an existing key keeps its place, a new one goes last.\<close>

fun dict_set :: "'k \<Rightarrow> 'v \<Rightarrow> ('k \<times> 'v) list \<Rightarrow> ('k \<times> 'v) list" where
  "dict_set k v [] = [(k, v)]"
| "dict_set k v ((k', v') # d) = (if k' = k then (k, v) # d else (k', v') # dict_set k v d)"

lemma map_of_dict_set [simp]: "map_of (dict_set k v d) = (map_of d)(k \<mapsto> v)"
  by (induction k v d rule: dict_set.induct) (auto simp: fun_eq_iff)

lemma set_keys_dict_set: "set (map fst (dict_set k v d)) = insert k (set (map fst d))"
  by (induction k v d rule: dict_set.induct) auto

lemma distinct_dict_set: "distinct (map fst d) \<Longrightarrow> distinct (map fst (dict_set k v d))"
proof (induction k v d rule: dict_set.induct)
  case (2 k v k' v' d)
  then show ?case using set_keys_dict_set [of k v d] by auto
qed simp

lemma dict_get_set [simp]: "dict_get (dict_set k v d) k' = (if k' = k then v else dict_get d k')"
  by (simp add: dict_get_def dict_get_or_def)

lemma dict_get_Cons [simp]:
  "dict_get ((k, v) # d) k' = (if k' = k then v else dict_get d k')"
  "dict_get [] k' = JNull"
  by (simp_all add: dict_get_def dict_get_or_def)

lemma json_get_JObj [simp]: "json_get (JObj d) k = Inr (dict_get d k)"
  by (simp add: json_get_def json_get_or_def dict_get_def)

lemma json_get_or_JObj [simp]: "json_get_or (JObj d) k v = Inr (dict_get_or d k v)"
  by (simp add: json_get_or_def)

section \<open>Printing: \<open>repr\<close>, \<open>str\<close> and f-strings\<close>

definition hex_digit :: "nat \<Rightarrow> char" where
  "hex_digit n = (if n < 10 then char_of (48 + n) else char_of (87 + n))"

definition hex_pad :: "nat \<Rightarrow> nat \<Rightarrow> string" where
  "hex_pad w n = map (\<lambda>i. hex_digit ((n div 16 ^ (w - 1 - i)) mod 16)) [0..<w]"

definition repr_char :: "char \<Rightarrow> char \<Rightarrow> string" where
  "repr_char q c =
     (let n = code c in
      if c = q \<or> n = 92 then [CHR 0x5C, c]
      else if n = 9 then [CHR 0x5C, CHR ''t''] else if n = 10 then [CHR 0x5C, CHR ''n'']
      else if n = 13 then [CHR 0x5C, CHR ''r'']
      else if n < 32 \<or> (127 \<le> n \<and> n < 161) \<or> n = 173 then [CHR 0x5C, CHR ''x''] @ hex_pad 2 n
      else [c])"

definition str_repr :: "string \<Rightarrow> string" where
  "str_repr s =
     (let q = (if CHR 0x27 \<in> set s \<and> CHR 0x22 \<notin> set s then CHR 0x22 else CHR 0x27)
      in q # concat (map (repr_char q) s) @ [q])"

fun float_str :: "(rat \<Rightarrow> string) \<Rightarrow> string \<times> string \<times> string \<Rightarrow> pyfloat \<Rightarrow> string" where
  "float_str fr names (Fin r) = fr r"
| "float_str fr (i, ni, n) PosInf = i"
| "float_str fr (i, ni, n) NegInf = ni"
| "float_str fr (i, ni, n) NaN = n"

fun py_repr :: "(rat \<Rightarrow> string) \<Rightarrow> json \<Rightarrow> string" where
  "py_repr fr JNull = ''None''"
| "py_repr fr (JBool b) = (if b then ''True'' else ''False'')"
| "py_repr fr (JInt i) = string_of_int i"
| "py_repr fr (JFloat x) = float_str fr (''inf'', ''-inf'', ''nan'') x"
| "py_repr fr (JStr s) = str_repr s"
| "py_repr fr (JList xs) = ''['' @ join '', '' (map (py_repr fr) xs) @ '']''"
| "py_repr fr (JObj kvs) =
     ''{'' @ join '', '' (map (\<lambda>kv. str_repr (fst kv) @ '': '' @ py_repr fr (snd kv)) kvs) @ ''}''"

text \<open>What an f-string inserts for \<open>{v}\<close>.\<close>

definition py_str :: "(rat \<Rightarrow> string) \<Rightarrow> json \<Rightarrow> string" where
  "py_str fr v = (case v of JStr s \<Rightarrow> s | _ \<Rightarrow> py_repr fr v)"

lemma py_str_JStr [simp]: "py_str fr (JStr s) = s"
  by (simp add: py_str_def)

text \<open>A quoted insertion, as in \<open>f"unknown tool '{name}'"\<close>.\<close>

definition quoted :: "string \<Rightarrow> string" where
  "quoted s = CHR 0x27 # s @ [CHR 0x27]"

section \<open>\<open>json.dumps\<close>\<close>

text \<open>\<open>ensure_ascii\<close> escaping: everything outside the printable ASCII range.\<close>

definition json_char :: "char \<Rightarrow> string" where
  "json_char c =
     (let n = code c in
      if n = 34 \<or> n = 92 then [CHR 0x5C, c]
      else if n = 8 then [CHR 0x5C, CHR ''b''] else if n = 9 then [CHR 0x5C, CHR ''t'']
      else if n = 10 then [CHR 0x5C, CHR ''n''] else if n = 12 then [CHR 0x5C, CHR ''f'']
      else if n = 13 then [CHR 0x5C, CHR ''r'']
      else if 32 \<le> n \<and> n < 127 then [c]
      else [CHR 0x5C, CHR ''u''] @ hex_pad 4 n)"

definition json_string :: "string \<Rightarrow> string" where
  "json_string s = CHR 0x22 # concat (map json_char s) @ [CHR 0x22]"

text \<open>\<open>json.dumps(v, sort_keys=srt)\<close> with the default separators.\<close>

fun json_dumps :: "(rat \<Rightarrow> string) \<Rightarrow> bool \<Rightarrow> json \<Rightarrow> string" where
  "json_dumps fr srt JNull = ''null''"
| "json_dumps fr srt (JBool b) = (if b then ''true'' else ''false'')"
| "json_dumps fr srt (JInt i) = string_of_int i"
| "json_dumps fr srt (JFloat x) = float_str fr (''Infinity'', ''-Infinity'', ''NaN'') x"
| "json_dumps fr srt (JStr s) = json_string s"
| "json_dumps fr srt (JList xs) = ''['' @ join '', '' (map (json_dumps fr srt) xs) @ '']''"
| "json_dumps fr srt (JObj kvs) =
     (let items = map (\<lambda>kv. (fst kv, json_dumps fr srt (snd kv))) kvs;
          items' = (if srt then sort_key fst items else items)
      in ''{'' @ join '', '' (map (\<lambda>kv. json_string (fst kv) @ '': '' @ snd kv) items') @ ''}'')"

text \<open>The output of \<open>json.dumps\<close> is printable ASCII, so it never holds a line break.\<close>

definition printable :: "string \<Rightarrow> bool" where
  "printable s \<longleftrightarrow> (\<forall>c \<in> set s. 32 \<le> code c \<and> code c < 127)"

lemma printable_append [simp]: "printable (s @ t) \<longleftrightarrow> printable s \<and> printable t"
  by (auto simp: printable_def)

lemma printable_Cons [simp]: "printable (c # s) \<longleftrightarrow> (32 \<le> code c \<and> code c < 127) \<and> printable s"
  by (auto simp: printable_def)

lemma printable_Nil [simp]: "printable []"
  by (simp add: printable_def)

lemma printable_join:
  "printable sep \<Longrightarrow> \<forall>s \<in> set xs. printable s \<Longrightarrow> printable (join sep xs)"
  using set_join [of sep xs] unfolding printable_def by fastforce

lemma hex_digit_printable: "n < 16 \<Longrightarrow> 32 \<le> code (hex_digit n) \<and> code (hex_digit n) < 127"
  by (simp add: hex_digit_def)

lemma printable_hex_pad: "printable (hex_pad w n)"
  by (auto simp: printable_def hex_pad_def hex_digit_printable)

lemma printable_json_char: "printable (json_char c)"
  by (auto simp: json_char_def Let_def printable_hex_pad)

lemma printable_json_string: "printable (json_string s)"
proof -
  have "printable (concat (map json_char s))"
    by (induction s) (auto simp: printable_json_char)
  then show ?thesis by (simp add: json_string_def)
qed

lemma printable_string_of_int: "printable (string_of_int i)"
proof -
  have "printable (string_of_nat n)" for n
    unfolding printable_def by (fastforce dest: string_of_nat_digits simp: is_digit_def)
  then show ?thesis by (simp add: string_of_int_def)
qed

lemma printable_json_dumps:
  assumes "\<And>r. printable (fr r)"
  shows "printable (json_dumps fr srt v)"
  using assms
proof (induction fr srt v rule: json_dumps.induct)
  case (4 fr srt x)
  then show ?case by (cases x) simp_all
next
  case (6 fr srt xs)
  then show ?case by (auto intro!: printable_join)
next
  case (7 fr srt kvs)
  have "printable (json_dumps fr srt v)" if "(k, v) \<in> set kvs" for k v
    using 7 that by (metis snd_conv)
  then show ?case
    by (auto simp: Let_def printable_json_string intro!: printable_join)
qed (simp_all add: printable_string_of_int printable_json_string)

lemma printable_no_newline: "printable s \<Longrightarrow> CHR 0x0A \<notin> set s"
  by (auto simp: printable_def)

end
