(* ===== verification/Redis_Store.thy ===== *)
theory Redis_Store
  imports PyValues
begin

text \<open>
  The Redis operations the gateway calls, and two contracts for them.

  The server is not part of the repository, so a client is a record of operations on an abstract
  state.  Each takes the server's clock and the state, and returns a failure
  (\<open>redis.RedisError\<close>, with its text) or a result, and the new state.  The locales
  \<open>redis_zset\<close> (sorted sets, for the rate limiter) and \<open>redis_kv\<close> (strings with a
  time to live, for the approval store) state what the documentation of the commands promises:
  what is visible at a time, on success and on failure (a failed command may or may not have
  taken effect).  \<open>tests/fakes.py\<close> implements the same surface in memory; it is modelled
  below and shown to satisfy both contracts.
\<close>

section \<open>The client surface\<close>

datatype pipe_op =
    PipeZadd string string rat     \<comment> \<open>key, member, score\<close>
  | PipeExpire string int          \<comment> \<open>key, seconds\<close>

record 'r redis_client =
  zremrangebyscore :: "string \<Rightarrow> rat \<Rightarrow> rat \<Rightarrow> rat \<Rightarrow> 'r \<Rightarrow> (string + unit) \<times> 'r"
  zcard :: "string \<Rightarrow> rat \<Rightarrow> 'r \<Rightarrow> (string + nat) \<times> 'r"
  zrange_withscores :: "string \<Rightarrow> int \<Rightarrow> int \<Rightarrow> rat \<Rightarrow> 'r \<Rightarrow> (string + (string \<times> rat) list) \<times> 'r"
  pipe_execute :: "pipe_op list \<Rightarrow> rat \<Rightarrow> 'r \<Rightarrow> (string + unit) \<times> 'r"
  set_ex :: "string \<Rightarrow> string \<Rightarrow> int \<Rightarrow> rat \<Rightarrow> 'r \<Rightarrow> (string + unit) \<times> 'r"
  set_keepttl :: "string \<Rightarrow> string \<Rightarrow> rat \<Rightarrow> 'r \<Rightarrow> (string + unit) \<times> 'r"
  redis_get :: "string \<Rightarrow> rat \<Rightarrow> 'r \<Rightarrow> (string + string option) \<times> 'r"

section \<open>The contract of the sorted sets\<close>

text \<open>
  \<open>ents r t k\<close> is the set of (member, score) pairs of key \<open>k\<close> visible at time \<open>t\<close> if no
  command is run in between: it only shrinks as time passes, because a key may expire.
\<close>

definition same_from :: "('r \<Rightarrow> rat \<Rightarrow> string \<Rightarrow> 'e) \<Rightarrow> rat \<Rightarrow> 'r \<Rightarrow> 'r \<Rightarrow> bool" where
  "same_from view t r r' \<longleftrightarrow> (\<forall>t' \<ge> t. \<forall>k. view r' t' k = view r t' k)"

definition zrem_effect ::
  "('r \<Rightarrow> rat \<Rightarrow> string \<Rightarrow> (string \<times> rat) set) \<Rightarrow> string \<Rightarrow> rat \<Rightarrow> rat \<Rightarrow> rat \<Rightarrow> 'r \<Rightarrow> 'r \<Rightarrow> bool" where
  "zrem_effect ents k lo hi t r r' \<longleftrightarrow>
     (\<forall>t' \<ge> t. \<forall>k'. ents r' t' k' =
        (if k' = k then {e \<in> ents r t' k. \<not> (lo \<le> snd e \<and> snd e \<le> hi)} else ents r t' k'))"

definition zadd_expire_effect ::
  "('r \<Rightarrow> rat \<Rightarrow> string \<Rightarrow> (string \<times> rat) set) \<Rightarrow> string \<Rightarrow> string \<Rightarrow> rat \<Rightarrow> int \<Rightarrow> rat \<Rightarrow> 'r \<Rightarrow> 'r \<Rightarrow> bool" where
  "zadd_expire_effect ents k m s secs t r r' \<longleftrightarrow>
     (\<forall>t' \<ge> t. \<forall>k'. k' \<noteq> k \<longrightarrow> ents r' t' k' = ents r t' k') \<and>
     (\<forall>t' \<ge> t. t' < t + of_int secs \<longrightarrow> ents r' t' k = insert (m, s) {e \<in> ents r t k. fst e \<noteq> m}) \<and>
     (\<forall>t' \<ge> t + of_int secs. ents r' t' k \<subseteq> insert (m, s) {e \<in> ents r t k. fst e \<noteq> m})"

locale redis_zset =
  fixes C :: "'r redis_client"
    and ents :: "'r \<Rightarrow> rat \<Rightarrow> string \<Rightarrow> (string \<times> rat) set"
    and invar :: "'r \<Rightarrow> bool"
  assumes ents_finite: "invar r \<Longrightarrow> finite (ents r t k)"
    and ents_shrink: "invar r \<Longrightarrow> t \<le> t' \<Longrightarrow> ents r t' k \<subseteq> ents r t k"
    and zrem: "invar r \<Longrightarrow> zremrangebyscore C k lo hi t r = (x, r') \<Longrightarrow>
      invar r' \<and> (zrem_effect ents k lo hi t r r' \<or> (x \<noteq> Inr () \<and> same_from ents t r r'))"
    and zcard: "invar r \<Longrightarrow> zcard C k t r = (xn, r') \<Longrightarrow>
      invar r' \<and> same_from ents t r r' \<and> (\<forall>n. xn = Inr n \<longrightarrow> n = card (ents r t k))"
    and zrange_first: "invar r \<Longrightarrow> zrange_withscores C k 0 0 t r = (xe, r') \<Longrightarrow>
      invar r' \<and> same_from ents t r r' \<and>
      (\<forall>es. xe = Inr es \<longrightarrow>
         (ents r t k = {} \<and> es = []) \<or>
         (\<exists>e. es = [e] \<and> e \<in> ents r t k \<and> (\<forall>e' \<in> ents r t k. snd e \<le> snd e')))"
    and zadd_expire: "invar r \<Longrightarrow> 0 < secs \<Longrightarrow>
      pipe_execute C [PipeZadd k m s, PipeExpire k secs] t r = (x, r') \<Longrightarrow>
      invar r' \<and> (zadd_expire_effect ents k m s secs t r r' \<or> (x \<noteq> Inr () \<and> same_from ents t r r'))"

section \<open>The contract of the string keys\<close>

text \<open>
  \<open>val r t k\<close> is the value of key \<open>k\<close> visible at time \<open>t\<close>.  At the very instant a time to
  live ends the contract leaves open whether the key is still there, and it leaves open how long
  a value written with \<open>keepttl\<close> to a key that has just expired stays (Redis keeps it without
  a time to live, the in-memory client drops it).
\<close>

locale redis_kv =
  fixes C :: "'r redis_client"
    and val :: "'r \<Rightarrow> rat \<Rightarrow> string \<Rightarrow> string option"
    and invar :: "'r \<Rightarrow> bool"
  assumes val_shrink: "invar r \<Longrightarrow> t \<le> t' \<Longrightarrow> val r t' k = Some v \<Longrightarrow> val r t k = Some v"
    and get: "invar r \<Longrightarrow> redis_get C k t r = (xo, r') \<Longrightarrow>
      invar r' \<and> same_from val t r r' \<and> (\<forall>o'. xo = Inr o' \<longrightarrow> o' = val r t k)"
    and set_ex: "invar r \<Longrightarrow> 0 < secs \<Longrightarrow> set_ex C k v secs t r = (x, r') \<Longrightarrow>
      invar r' \<and>
      (((\<forall>t' \<ge> t. \<forall>k'. k' \<noteq> k \<longrightarrow> val r' t' k' = val r t' k') \<and>
        (\<forall>t' \<ge> t. t' < t + of_int secs \<longrightarrow> val r' t' k = Some v) \<and>
        (\<forall>t' > t + of_int secs. val r' t' k = None)) \<or>
       (x \<noteq> Inr () \<and> same_from val t r r'))"
    and set_keepttl: "invar r \<Longrightarrow> set_keepttl C k v t r = (x, r') \<Longrightarrow>
      invar r' \<and>
      (((\<forall>t' \<ge> t. \<forall>k'. k' \<noteq> k \<longrightarrow> val r' t' k' = val r t' k') \<and>
        (\<forall>t' \<ge> t. val r' t' k \<in> {None, Some v}) \<and>
        (val r t k \<noteq> None \<longrightarrow>
           (\<forall>t' \<ge> t. val r' t' k = (if val r t' k = None then None else Some v)))) \<or>
       (x \<noteq> Inr () \<and> same_from val t r r'))"

section \<open>The in-memory client of the test suite\<close>

record fake_redis =
  zsets :: "string \<rightharpoonup> (string \<times> rat) list"
  kv :: "string \<rightharpoonup> string \<times> rat option"

definition empty_fake :: fake_redis where
  "empty_fake = \<lparr>zsets = Map.empty, kv = Map.empty\<rparr>"

definition zset_of :: "fake_redis \<Rightarrow> string \<Rightarrow> (string \<times> rat) list" where
  "zset_of r k = (case zsets r k of None \<Rightarrow> [] | Some z \<Rightarrow> z)"

definition fake_zremrangebyscore ::
  "string \<Rightarrow> rat \<Rightarrow> rat \<Rightarrow> rat \<Rightarrow> fake_redis \<Rightarrow> (string + unit) \<times> fake_redis" where
  "fake_zremrangebyscore k lo hi now r =
     (Inr (), case zsets r k of
                None \<Rightarrow> r
              | Some z \<Rightarrow> r\<lparr>zsets := (zsets r)(k \<mapsto> filter (\<lambda>e. \<not> (lo \<le> snd e \<and> snd e \<le> hi)) z)\<rparr>)"

definition fake_zcard :: "string \<Rightarrow> rat \<Rightarrow> fake_redis \<Rightarrow> (string + nat) \<times> fake_redis" where
  "fake_zcard k now r = (Inr (length (zset_of r k)), r)"

text \<open>\<open>xs[i:j]\<close> for any integers.\<close>

definition slice_index :: "nat \<Rightarrow> int \<Rightarrow> nat" where
  "slice_index n i = (if i < 0 then nat (max 0 (int n + i)) else min n (nat i))"

definition py_slice :: "'a list \<Rightarrow> int \<Rightarrow> int \<Rightarrow> 'a list" where
  "py_slice xs i j = drop (slice_index (length xs) i) (take (slice_index (length xs) j) xs)"

definition fake_zrange ::
  "string \<Rightarrow> int \<Rightarrow> int \<Rightarrow> rat \<Rightarrow> fake_redis \<Rightarrow> (string + (string \<times> rat) list) \<times> fake_redis" where
  "fake_zrange k start end now r =
     (let ordered = sort_key snd (zset_of r k) in
      (Inr (if end \<noteq> -1 then py_slice ordered start (end + 1)
            else py_slice ordered start (int (length ordered))), r))"

definition fake_zadd :: "string \<Rightarrow> string \<Rightarrow> rat \<Rightarrow> fake_redis \<Rightarrow> fake_redis" where
  "fake_zadd k m s r = r\<lparr>zsets := (zsets r)(k \<mapsto> dict_set m s (zset_of r k))\<rparr>"

definition fake_expire :: "string \<Rightarrow> int \<Rightarrow> fake_redis \<Rightarrow> fake_redis" where
  "fake_expire k secs r = r"

fun fake_pipe_op :: "pipe_op \<Rightarrow> fake_redis \<Rightarrow> fake_redis" where
  "fake_pipe_op (PipeZadd k m s) r = fake_zadd k m s r"
| "fake_pipe_op (PipeExpire k secs) r = fake_expire k secs r"

definition fake_pipe_execute :: "pipe_op list \<Rightarrow> rat \<Rightarrow> fake_redis \<Rightarrow> (string + unit) \<times> fake_redis" where
  "fake_pipe_execute ops now r = (Inr (), fold fake_pipe_op ops r)"

text \<open>\<open>set(key, value, ex=None, keepttl=False)\<close> with its three cases.\<close>

definition fake_set ::
  "string \<Rightarrow> string \<Rightarrow> int option \<Rightarrow> bool \<Rightarrow> rat \<Rightarrow> fake_redis \<Rightarrow> (string + unit) \<times> fake_redis" where
  "fake_set k v ex keepttl now r =
     (let expire_at =
        (if keepttl \<and> kv r k \<noteq> None then snd (the (kv r k))
         else (case ex of Some secs \<Rightarrow> Some (now + of_int secs) | None \<Rightarrow> None))
      in (Inr (), r\<lparr>kv := (kv r)(k \<mapsto> (v, expire_at))\<rparr>))"

text \<open>\<open>expire_at is not None and time.time() > expire_at\<close>\<close>

definition expired :: "rat option \<Rightarrow> rat \<Rightarrow> bool" where
  "expired expire_at now = (case expire_at of None \<Rightarrow> False | Some d \<Rightarrow> d < now)"

definition fake_get :: "string \<Rightarrow> rat \<Rightarrow> fake_redis \<Rightarrow> (string + string option) \<times> fake_redis" where
  "fake_get k now r =
     (case kv r k of
        None \<Rightarrow> (Inr None, r)
      | Some (v, expire_at) \<Rightarrow>
          (if expired expire_at now then (Inr None, r\<lparr>kv := (kv r)(k := None)\<rparr>)
           else (Inr (Some v), r)))"

definition FakeRedis :: "fake_redis redis_client" where
  "FakeRedis =
     \<lparr>zremrangebyscore = fake_zremrangebyscore, zcard = fake_zcard,
      zrange_withscores = fake_zrange, pipe_execute = fake_pipe_execute,
      set_ex = (\<lambda>k v secs. fake_set k v (Some secs) False),
      set_keepttl = (\<lambda>k v. fake_set k v None True),
      redis_get = fake_get\<rparr>"

lemma FakeRedis_simps [simp]:
  "zremrangebyscore FakeRedis = fake_zremrangebyscore"
  "zcard FakeRedis = fake_zcard"
  "zrange_withscores FakeRedis = fake_zrange"
  "pipe_execute FakeRedis = fake_pipe_execute"
  "set_ex FakeRedis k v secs = fake_set k v (Some secs) False"
  "set_keepttl FakeRedis k v = fake_set k v None True"
  "redis_get FakeRedis = fake_get"
  by (simp_all add: FakeRedis_def)

text \<open>\<open>FailingRedis\<close>: its first command raises.\<close>

definition FailingRedis :: "fake_redis redis_client" where
  "FailingRedis = FakeRedis\<lparr>zremrangebyscore := (\<lambda>k lo hi now r. (Inl ''connection refused'', r))\<rparr>"

section \<open>The in-memory client meets the contracts\<close>

text \<open>
  It never expires a sorted set, and it drops a string key at the first read after its deadline,
  so what is visible does not depend on the clock in the first case and compares it with the
  deadline in the second.
\<close>

definition fake_ents :: "fake_redis \<Rightarrow> rat \<Rightarrow> string \<Rightarrow> (string \<times> rat) set" where
  "fake_ents r t k = set (zset_of r k)"

definition fake_invar :: "fake_redis \<Rightarrow> bool" where
  "fake_invar r \<longleftrightarrow> (\<forall>k. distinct (map fst (zset_of r k)))"

definition fake_val :: "fake_redis \<Rightarrow> rat \<Rightarrow> string \<Rightarrow> string option" where
  "fake_val r t k =
     (case kv r k of None \<Rightarrow> None
      | Some (v, d) \<Rightarrow> (if expired d t then None else Some v))"

lemma zset_of_update [simp]:
  "zset_of (r\<lparr>zsets := (zsets r)(k \<mapsto> z)\<rparr>) k' = (if k' = k then z else zset_of r k')"
  "zset_of (r\<lparr>kv := m\<rparr>) k' = zset_of r k'"
  by (simp_all add: zset_of_def)

lemma fake_invar_empty: "fake_invar empty_fake"
  by (simp add: fake_invar_def empty_fake_def zset_of_def)

lemma set_dict_set:
  "distinct (map fst d) \<Longrightarrow> set (dict_set k v d) = insert (k, v) {e \<in> set d. fst e \<noteq> k}"
  by (induction k v d rule: dict_set.induct) (auto simp: image_iff)

lemma zset_of_fake_zrem:
  assumes "fake_zremrangebyscore k lo hi t r = (x, r')"
  shows "zset_of r' k' = (if k' = k then filter (\<lambda>e. \<not> (lo \<le> snd e \<and> snd e \<le> hi)) (zset_of r k)
                          else zset_of r k')"
  using assms by (auto simp: fake_zremrangebyscore_def zset_of_def split: option.splits)

lemma fake_invar_zrem:
  "fake_invar r \<Longrightarrow> fake_zremrangebyscore k lo hi t r = (x, r') \<Longrightarrow> fake_invar r'"
  by (auto simp: fake_invar_def zset_of_fake_zrem distinct_map_filter)

lemma card_fake_ents: "fake_invar r \<Longrightarrow> card (fake_ents r t k) = length (zset_of r k)"
  unfolding fake_invar_def fake_ents_def
  by (metis distinct_card distinct_map)

lemma py_slice_first: "py_slice xs 0 1 = take 1 xs"
  by (cases xs) (simp_all add: py_slice_def slice_index_def min_def)

lemma fake_zrange_first:
  "fst (fake_zrange k 0 0 t r) = Inr (take 1 (sort_key snd (zset_of r k)))"
  by (simp add: fake_zrange_def Let_def py_slice_first)

lemma take_1_sort_key:
  "(xs = [] \<and> take 1 (sort_key f xs) = []) \<or>
   (\<exists>e. take 1 (sort_key f xs) = [e] \<and> e \<in> set xs \<and> (\<forall>e' \<in> set xs. f e \<le> f e'))"
proof (cases "sort_key f xs")
  case Nil
  then show ?thesis by (metis set_empty set_sort take_Nil)
next
  case (Cons e es)
  have "sorted (map f (e # es))" by (metis Cons sorted_sort_key)
  moreover have "set xs = insert e (set es)" by (metis Cons list.simps(15) set_sort)
  ultimately show ?thesis using Cons by auto
qed

interpretation fake_zset: redis_zset FakeRedis fake_ents fake_invar
proof unfold_locales
  fix r :: fake_redis and k lo hi t x r'
  assume "fake_invar r" "zremrangebyscore FakeRedis k lo hi t r = (x, r')"
  then show "fake_invar r' \<and>
    (zrem_effect fake_ents k lo hi t r r' \<or> (x \<noteq> Inr () \<and> same_from fake_ents t r r'))"
    by (auto simp: zrem_effect_def fake_ents_def zset_of_fake_zrem intro: fake_invar_zrem)
next
  fix r :: fake_redis and k m s secs t x r'
  assume r: "fake_invar r"
    and "pipe_execute FakeRedis [PipeZadd k m s, PipeExpire k secs] t r = (x, r')"
  then have r': "r' = fake_zadd k m s r"
    by (simp add: fake_pipe_execute_def fake_expire_def)
  from r have "set (dict_set m s (zset_of r k)) = insert (m, s) {e \<in> set (zset_of r k). fst e \<noteq> m}"
    by (simp add: fake_invar_def set_dict_set)
  then show "fake_invar r' \<and>
    (zadd_expire_effect fake_ents k m s secs t r r' \<or> (x \<noteq> Inr () \<and> same_from fake_ents t r r'))"
    using r by (auto simp: r' zadd_expire_effect_def fake_ents_def fake_zadd_def fake_invar_def
        distinct_dict_set)
next
  fix r :: fake_redis and k t xe r'
  assume "fake_invar r" "zrange_withscores FakeRedis k 0 0 t r = (xe, r')"
  then have "r' = r" "xe = Inr (take 1 (sort_key snd (zset_of r k)))" "fake_invar r"
    using fake_zrange_first [of k t r] by (auto simp: fake_zrange_def Let_def)
  then show "fake_invar r' \<and> same_from fake_ents t r r' \<and>
      (\<forall>es. xe = Inr es \<longrightarrow>
         (fake_ents r t k = {} \<and> es = []) \<or>
         (\<exists>e. es = [e] \<and> e \<in> fake_ents r t k \<and> (\<forall>e' \<in> fake_ents r t k. snd e \<le> snd e')))"
    using take_1_sort_key [of "zset_of r k" snd] by (simp add: same_from_def fake_ents_def)
qed (auto simp: fake_ents_def fake_zcard_def card_fake_ents [unfolded fake_ents_def] same_from_def)

lemma fake_val_iff:
  "fake_val r t k = Some v \<longleftrightarrow>
     (\<exists>d. kv r k = Some (v, d) \<and> (\<forall>x. d = Some x \<longrightarrow> t \<le> x))"
  by (auto simp: fake_val_def expired_def not_less split: option.splits prod.splits if_splits)

interpretation fake_kv: redis_kv FakeRedis fake_val "\<lambda>_. True"
proof unfold_locales
  fix r t t' k v
  assume "t \<le> t'" "fake_val r t' k = Some v"
  then show "fake_val r t k = Some v"
    unfolding fake_val_iff by (blast intro: order_trans)
qed (auto simp: fake_val_def expired_def same_from_def fake_get_def fake_set_def Let_def
      split: option.splits if_splits prod.splits)

end
