(* ===== verification/Rate_Limit.thy ===== *)
theory Rate_Limit
  imports Redis_Store
begin

text \<open>
  \<open>SlidingWindowRateLimiter.check\<close> of \<open>app/middleware/rate_limit.py\<close> over the sorted-set
  contract of \<open>Redis_Store\<close>, and the guarantee it gives: of the requests it records, no
  window of \<open>window_seconds\<close> ever holds more than the limit, and (as long as Redis does not
  fail) a request is refused only when the window is full.  The gateway's clock reading stands
  for the server's clock as well.
\<close>

section \<open>The limiter\<close>

definition RATE_LIMIT_WINDOW_SECONDS :: int where
  "RATE_LIMIT_WINDOW_SECONDS = 60"

record RateLimitResult =
  rl_allowed :: bool
  rl_limit :: int
  rl_remaining :: int
  rl_reset :: int
  rl_retry_after :: "int option"

definition limit_key :: "string \<Rightarrow> string" where
  "limit_key agent = ''ratelimit:'' @ agent"

definition limit_member :: "(rat \<Rightarrow> string) \<Rightarrow> rat \<Rightarrow> string \<Rightarrow> string" where
  "limit_member fr now uuid = fr now @ '':'' @ uuid"

definition fail_open :: "int \<Rightarrow> int \<Rightarrow> rat \<Rightarrow> RateLimitResult" where
  "fail_open window limit now =
     \<lparr>rl_allowed = True, rl_limit = limit, rl_remaining = limit,
      rl_reset = trunc_rat (now + of_int window), rl_retry_after = None\<rparr>"

definition check ::
  "'r redis_client \<Rightarrow> int \<Rightarrow> (rat \<Rightarrow> string) \<Rightarrow> string \<Rightarrow> int \<Rightarrow> rat \<Rightarrow> string \<Rightarrow> 'r
     \<Rightarrow> RateLimitResult \<times> 'r" where
  "check C window fr agent limit now uuid r =
     (let key = limit_key agent; window_start = now - of_int window in
      case zremrangebyscore C key 0 window_start now r of
        (Inl _, r1) \<Rightarrow> (fail_open window limit now, r1)
      | (Inr _, r1) \<Rightarrow>
          (case zcard C key now r1 of
             (Inl _, r2) \<Rightarrow> (fail_open window limit now, r2)
           | (Inr count, r2) \<Rightarrow>
               if limit \<le> int count
               then (case zrange_withscores C key 0 0 now r2 of
                       (Inl _, r3) \<Rightarrow> (fail_open window limit now, r3)
                     | (Inr oldest, r3) \<Rightarrow>
                         (let reset_at = (case oldest of e # _ \<Rightarrow> snd e + of_int window
                                                       | [] \<Rightarrow> now + of_int window)
                          in (\<lparr>rl_allowed = False, rl_limit = limit, rl_remaining = 0,
                               rl_reset = trunc_rat reset_at,
                               rl_retry_after = Some (max 1 (trunc_rat (reset_at - now)))\<rparr>, r3)))
               else (case pipe_execute C
                            [PipeZadd key (limit_member fr now uuid) now, PipeExpire key window] now r2 of
                       (Inl _, r3) \<Rightarrow> (fail_open window limit now, r3)
                     | (Inr _, r3) \<Rightarrow>
                         (\<lparr>rl_allowed = True, rl_limit = limit,
                           rl_remaining = max 0 (limit - int count - 1),
                           rl_reset = trunc_rat (now + of_int window), rl_retry_after = None\<rparr>, r3))))"

text \<open>A run of requests, of any agents, checked one after the other.\<close>

type_synonym limit_event = "string \<times> int \<times> rat \<times> string"   \<comment> \<open>agent, limit, time, uuid\<close>

abbreviation ev_agent :: "limit_event \<Rightarrow> string" where "ev_agent e \<equiv> fst e"
abbreviation ev_limit :: "limit_event \<Rightarrow> int" where "ev_limit e \<equiv> fst (snd e)"
abbreviation ev_now :: "limit_event \<Rightarrow> rat" where "ev_now e \<equiv> fst (snd (snd e))"
abbreviation ev_uuid :: "limit_event \<Rightarrow> string" where "ev_uuid e \<equiv> snd (snd (snd e))"

fun run_checks ::
  "'r redis_client \<Rightarrow> int \<Rightarrow> (rat \<Rightarrow> string) \<Rightarrow> limit_event list \<Rightarrow> 'r
     \<Rightarrow> (limit_event \<times> RateLimitResult) list \<times> 'r" where
  "run_checks C window fr [] r = ([], r)"
| "run_checks C window fr ((g, l, t, u) # es) r =
     (let (res, r1) = check C window fr g l t u r; (rest, r2) = run_checks C window fr es r1
      in (((g, l, t, u), res) # rest, r2))"

text \<open>
  The two ways a request gets through: recorded in the window, or because Redis failed, which
  shows as a full remaining quota.
\<close>

definition recorded :: "RateLimitResult \<Rightarrow> bool" where
  "recorded res \<longleftrightarrow> rl_allowed res \<and> rl_remaining res \<noteq> rl_limit res"

definition failed_open :: "RateLimitResult \<Rightarrow> bool" where
  "failed_open res \<longleftrightarrow> rl_allowed res \<and> rl_remaining res = rl_limit res"

text \<open>The recorded requests of one agent in the half-open window that ends at \<open>t\<close>.\<close>

definition in_window :: "int \<Rightarrow> rat \<Rightarrow> rat \<Rightarrow> bool" where
  "in_window w t s \<longleftrightarrow> t - of_int w < s \<and> s \<le> t"

definition recorded_in ::
  "(limit_event \<times> RateLimitResult) list \<Rightarrow> string \<Rightarrow> int \<Rightarrow> rat \<Rightarrow> (limit_event \<times> RateLimitResult) list" where
  "recorded_in hs agent w t =
     filter (\<lambda>(e, res). ev_agent e = agent \<and> recorded res \<and> in_window w t (ev_now e)) hs"

section \<open>One check\<close>

lemma limit_key_inj [simp]: "limit_key g = limit_key h \<longleftrightarrow> g = h"
  by (simp add: limit_key_def)

lemma limit_member_inj:
  "length u = length v \<Longrightarrow> u \<noteq> v \<Longrightarrow> limit_member fr t u \<noteq> limit_member fr s v"
  by (simp add: limit_member_def)

lemma fail_open_simps [simp]:
  "rl_allowed (fail_open w l t)" "rl_remaining (fail_open w l t) = l" "rl_limit (fail_open w l t) = l"
  "rl_retry_after (fail_open w l t) = None"
  "\<not> recorded (fail_open w l t)" "failed_open (fail_open w l t)"
  by (simp_all add: fail_open_def recorded_def failed_open_def)

lemma rl_allowed_cases: "rl_allowed res \<longleftrightarrow> recorded res \<or> failed_open res"
  by (auto simp: recorded_def failed_open_def)

text \<open>
  The history of a key, as (member, time) pairs of the recorded requests.  \<open>covers\<close>: whatever
  of it is still inside the window is visible in Redis from time \<open>t\<close> on.  \<open>tight\<close>: nothing
  else is.
\<close>

definition covers ::
  "('r \<Rightarrow> rat \<Rightarrow> string \<Rightarrow> (string \<times> rat) set) \<Rightarrow> int \<Rightarrow> string \<Rightarrow> (string \<times> rat) list \<Rightarrow> rat \<Rightarrow> 'r \<Rightarrow> bool" where
  "covers ents w k hist t r \<longleftrightarrow>
     distinct (map fst hist) \<and> (\<forall>e \<in> set hist. snd e \<le> t) \<and>
     (\<forall>t' \<ge> t. \<forall>e \<in> set hist. t' - of_int w < snd e \<longrightarrow> e \<in> ents r t' k)"

definition tight ::
  "('r \<Rightarrow> rat \<Rightarrow> string \<Rightarrow> (string \<times> rat) set) \<Rightarrow> string \<Rightarrow> (string \<times> rat) list \<Rightarrow> rat \<Rightarrow> 'r \<Rightarrow> bool" where
  "tight ents k hist t r \<longleftrightarrow> (\<forall>t' \<ge> t. ents r t' k \<subseteq> set hist) \<and> (\<forall>e \<in> set hist. 0 \<le> snd e)"

definition live :: "int \<Rightarrow> rat \<Rightarrow> (string \<times> rat) list \<Rightarrow> (string \<times> rat) list" where
  "live w now hist = filter (\<lambda>e. now - of_int w < snd e) hist"

lemma covers_later: "covers ents w k hist t r \<Longrightarrow> t \<le> t' \<Longrightarrow> covers ents w k hist t' r"
  by (fastforce simp: covers_def)

lemma tight_later: "tight ents k hist t r \<Longrightarrow> t \<le> t' \<Longrightarrow> tight ents k hist t' r"
  by (auto simp: tight_def)

lemma covers_same:
  "same_from ents t r r' \<Longrightarrow> covers ents w k hist t r' \<longleftrightarrow> covers ents w k hist t r"
  by (simp add: covers_def same_from_def)

lemma tight_same: "same_from ents t r r' \<Longrightarrow> tight ents k hist t r' \<longleftrightarrow> tight ents k hist t r"
  by (simp add: tight_def same_from_def)

lemma covers_zrem:
  assumes "covers ents w k hist t r" "zrem_effect ents k' lo (t - of_int w) t r r'"
  shows "covers ents w k hist t r'"
  unfolding covers_def
proof (intro conjI allI impI ballI)
  fix t' e assume t': "t \<le> t'" and e: "e \<in> set hist" "t' - of_int w < snd e"
  then have "e \<in> ents r t' k" using assms(1) by (auto simp: covers_def)
  moreover have "\<not> snd e \<le> t - of_int w" using t' e by linarith
  ultimately show "e \<in> ents r' t' k" using assms(2) t' by (auto simp: zrem_effect_def)
qed (use assms(1) in \<open>auto simp: covers_def\<close>)

lemma tight_zrem: "tight ents k hist t r \<Longrightarrow> zrem_effect ents k' lo hi t r r' \<Longrightarrow> tight ents k hist t r'"
  by (fastforce simp: tight_def zrem_effect_def split: if_splits)

lemma tight_zrem_live:
  assumes "tight ents k hist t r" "zrem_effect ents k 0 (t - of_int w) t r r'"
  shows "ents r' t k \<subseteq> set (live w t hist)"
  using assms by (fastforce simp: tight_def zrem_effect_def live_def)

lemma covers_zadd:
  assumes cov: "covers ents w k hist t r" and eff: "zadd_expire_effect ents k m t w t r r'"
    and m: "m \<notin> fst ` set hist"
  shows "covers ents w k ((m, t) # hist) t r'"
  unfolding covers_def
proof (intro conjI allI impI ballI)
  show "distinct (map fst ((m, t) # hist))" using cov m by (simp add: covers_def)
next
  fix e assume "e \<in> set ((m, t) # hist)"
  then show "snd e \<le> t" using cov by (auto simp: covers_def)
next
  fix t' e assume t': "t \<le> t'" and e: "e \<in> set ((m, t) # hist)" "t' - of_int w < snd e"
  have le: "snd e \<le> t" using cov e(1) by (auto simp: covers_def)
  then have lt: "t' < t + of_int w" using e(2) by linarith
  have "t - of_int w < snd e" using e(2) t' by linarith
  then have "e = (m, t) \<or> (e \<in> ents r t k \<and> fst e \<noteq> m)"
    using cov e(1) m by (auto simp: covers_def image_iff)
  with eff t' lt show "e \<in> ents r' t' k" by (auto simp: zadd_expire_effect_def)
qed

lemma covers_zadd_other:
  "covers ents w k hist t r \<Longrightarrow> zadd_expire_effect ents k' m s w t r r' \<Longrightarrow> k' \<noteq> k \<Longrightarrow>
   covers ents w k hist t r'"
  by (simp add: covers_def zadd_expire_effect_def)

lemma covers_Cons_drop: "covers ents w k (e # hist) t r \<Longrightarrow> covers ents w k hist t r"
  by (simp add: covers_def)

lemma tight_zadd:
  assumes "tight ents k hist t r" "zadd_expire_effect ents k m t w t r r'" "0 \<le> t"
  shows "tight ents k ((m, t) # hist) t r'"
proof -
  have "ents r' t' k \<subseteq> set ((m, t) # hist)" if t': "t \<le> t'" for t'
  proof -
    have "ents r' t' k \<subseteq> insert (m, t) (ents r t k)"
    proof (cases "t' < t + of_int w")
      case True
      with assms(2) t' show ?thesis by (auto simp: zadd_expire_effect_def)
    next
      case False
      then have "ents r' t' k \<subseteq> insert (m, t) {e \<in> ents r t k. fst e \<noteq> m}"
        using assms(2) by (simp add: zadd_expire_effect_def not_less)
      then show ?thesis by blast
    qed
    with assms(1) show ?thesis unfolding tight_def by auto
  qed
  with assms show ?thesis by (auto simp: tight_def)
qed

lemma tight_zadd_other:
  "tight ents k hist t r \<Longrightarrow> zadd_expire_effect ents k' m s w t r r' \<Longrightarrow> k' \<noteq> k \<Longrightarrow>
   tight ents k hist t r'"
  by (simp add: tight_def zadd_expire_effect_def)

lemma covers_count:
  assumes "covers ents w k hist t r" "finite (ents r t k)"
  shows "length (live w t hist) \<le> card (ents r t k)"
proof -
  have "distinct (live w t hist)"
    using assms(1) by (auto simp: covers_def live_def distinct_map)
  moreover have "set (live w t hist) \<subseteq> ents r t k"
    using assms(1) by (auto simp: covers_def live_def)
  ultimately show ?thesis using assms(2) by (metis card_mono distinct_card)
qed

text \<open>The histories of all agents through one check.\<close>

definition add_recorded ::
  "(rat \<Rightarrow> string) \<Rightarrow> string \<Rightarrow> rat \<Rightarrow> string \<Rightarrow> RateLimitResult \<Rightarrow>
   (string \<Rightarrow> (string \<times> rat) list) \<Rightarrow> string \<Rightarrow> (string \<times> rat) list" where
  "add_recorded fr g t u res H =
     (if recorded res then H(g := (limit_member fr t u, t) # H g) else H)"

text \<open>What one check does, as one of four outcomes; the case analysis is made here once.\<close>

text \<open>
  The entries of an agent that count at time \<open>t\<close>, and the instant at which the oldest of them leaves
  the window.
\<close>

definition counted ::
  "('r \<Rightarrow> rat \<Rightarrow> string \<Rightarrow> (string \<times> rat) set) \<Rightarrow> int \<Rightarrow> rat \<Rightarrow> string \<Rightarrow> 'r \<Rightarrow> (string \<times> rat) set" where
  "counted ents w t g r = {e \<in> ents r t (limit_key g). t - of_int w < snd e}"

definition reset_time :: "(string \<times> rat) set \<Rightarrow> int \<Rightarrow> rat \<Rightarrow> rat \<Rightarrow> bool" where
  "reset_time es w t s \<longleftrightarrow>
     es = {} \<and> s = t + of_int w \<or> (\<exists>e \<in> es. s = snd e + of_int w \<and> (\<forall>e' \<in> es. snd e \<le> snd e'))"

context redis_zset
begin

lemma check_cases:
  assumes "invar r" "0 < w" "check C w fr g l t u r = (res, r')"
  obtains
    (failed) "failed_open res" "\<not> recorded res" "invar r'"
      "\<exists>r1. (zrem_effect ents (limit_key g) 0 (t - of_int w) t r r1 \<or> same_from ents t r r1) \<and>
         (zadd_expire_effect ents (limit_key g) (limit_member fr t u) t w t r1 r' \<or> same_from ents t r1 r')"
  | (full) "\<not> rl_allowed res" "invar r'"
      "\<exists>r1. zrem_effect ents (limit_key g) 0 (t - of_int w) t r r1 \<and> same_from ents t r1 r' \<and>
         l \<le> int (card (ents r1 t (limit_key g))) \<and> finite (ents r1 t (limit_key g))"
  | (admitted) "recorded res" "\<not> failed_open res" "invar r'"
      "\<exists>r1 r2. zrem_effect ents (limit_key g) 0 (t - of_int w) t r r1 \<and> same_from ents t r1 r2 \<and>
         int (card (ents r1 t (limit_key g))) < l \<and> finite (ents r1 t (limit_key g)) \<and>
         zadd_expire_effect ents (limit_key g) (limit_member fr t u) t w t r2 r'"
proof -
  let ?k = "limit_key g"
  obtain x1 r1 where 1: "zremrangebyscore C ?k 0 (t - of_int w) t r = (x1, r1)" by fastforce
  obtain x2 r2 where 2: "zcard C ?k t r1 = (x2, r2)" by fastforce
  obtain x3 r3 where 3: "zrange_withscores C ?k 0 0 t r2 = (x3, r3)" by fastforce
  obtain x4 r4 where 4: "pipe_execute C [PipeZadd ?k (limit_member fr t u) t, PipeExpire ?k w] t r2 = (x4, r4)"
    by fastforce
  note eqs = check_def Let_def 1 2 3 4
  note z1 = zrem [OF assms(1) 1] and z2 = zcard [OF _ 2] and z3 = zrange_first [OF _ 3]
    and z4 = zadd_expire [OF _ assms(2) 4]
  have refl: "same_from ents t s s" for s by (simp add: same_from_def)
  have trans: "same_from ents t a b \<Longrightarrow> same_from ents t b c \<Longrightarrow> same_from ents t a c" for a b c
    by (simp add: same_from_def)
  show thesis
  proof (cases x1)
    case (Inl e)
    then have "res = fail_open w l t" "r' = r1" using assms(3) by (simp_all add: eqs)
    then show thesis using failed z1 refl by auto
  next
    case x1: (Inr v)
    then have e1: "zrem_effect ents ?k 0 (t - of_int w) t r r1" and i1: "invar r1"
      using z1 by auto
    have s2: "same_from ents t r1 r2" and i2: "invar r2" using z2 i1 by auto
    show thesis
    proof (cases x2)
      case (Inl e)
      then have "res = fail_open w l t" "r' = r2" using assms(3) x1 by (simp_all add: eqs)
      then show thesis using failed e1 s2 i2 by auto
    next
      case x2: (Inr n)
      have n: "n = card (ents r1 t ?k)" using z2 i1 x2 by auto
      show thesis
      proof (cases "l \<le> int n")
        case True
        have s3: "same_from ents t r1 r3" and i3: "invar r3" using z3 i2 s2 trans by auto
        have r': "r' = r3" using assms(3) x1 x2 True by (cases x3) (auto simp: eqs)
        show thesis
        proof (cases x3)
          case (Inl e)
          then have "res = fail_open w l t" using assms(3) x1 x2 True by (simp add: eqs)
          then show thesis using failed e1 s3 i3 r' by auto
        next
          case (Inr es)
          then have "\<not> rl_allowed res" using assms(3) x1 x2 True by (auto simp: eqs)
          then show thesis
            using full e1 s3 i3 r' True n ents_finite [OF i1] by blast
        qed
      next
        case False
        show thesis
        proof (cases x4)
          case (Inl e)
          then have "res = fail_open w l t" "r' = r4" using assms(3) x1 x2 False by (simp_all add: eqs)
          moreover have "zadd_expire_effect ents ?k (limit_member fr t u) t w t r1 r4 \<or> same_from ents t r1 r4"
            using z4 i2 s2 by (auto simp: zadd_expire_effect_def same_from_def)
          ultimately show thesis using failed e1 z4 i2 by auto
        next
          case (Inr y)
          then have "rl_allowed res" "rl_remaining res = max 0 (l - int n - 1)" "rl_limit res = l" "r' = r4"
            using assms(3) x1 x2 False by (auto simp: eqs)
          moreover from this have "recorded res" "\<not> failed_open res"
            using False by (auto simp: recorded_def failed_open_def)
          ultimately show thesis
            using admitted e1 s2 n False i2 z4 Inr ents_finite [OF i1] by (auto simp: not_le)
        qed
      qed
    qed
  qed
qed


lemma check_covers:
  assumes "invar r" "0 < w" "check C w fr g l t u r = (res, r')"
    and cov: "\<And>h. covers ents w (limit_key h) (H h) t r"
    and fresh: "limit_member fr t u \<notin> fst ` set (H g)"
  shows "invar r'" "covers ents w (limit_key h) (add_recorded fr g t u res H h) t r'"
    "recorded res \<Longrightarrow> int (length (live w t (H g))) < l"
proof -
  let ?m = "limit_member fr t u"
  have zremmed: "covers ents w (limit_key h) (H h) t r1"
    if "zrem_effect ents (limit_key g) 0 (t - of_int w) t r r1 \<or> same_from ents t r r1" for h r1
    using that covers_zrem [OF cov [of h]] covers_same [of ents t r r1] cov [of h] by auto
  from assms(1-3)
  have "invar r' \<and> covers ents w (limit_key h) (add_recorded fr g t u res H h) t r' \<and>
    (recorded res \<longrightarrow> int (length (live w t (H g))) < l)"
  proof (cases rule: check_cases)
    case failed
    then obtain r1 where "zrem_effect ents (limit_key g) 0 (t - of_int w) t r r1 \<or> same_from ents t r r1"
      and eff: "zadd_expire_effect ents (limit_key g) ?m t w t r1 r' \<or> same_from ents t r1 r'"
      by blast
    from zremmed [OF this(1)] have r1: "covers ents w (limit_key h) (H h) t r1" for h .
    have "covers ents w (limit_key h) (H h) t r'"
    proof (cases "same_from ents t r1 r'")
      case True
      then show ?thesis using r1 [of h] covers_same [OF True] by simp
    next
      case False
      with eff have "zadd_expire_effect ents (limit_key g) ?m t w t r1 r'" by blast
      then show ?thesis
        using covers_zadd [OF r1 [of g] _ fresh] covers_zadd_other [OF r1 [of h]]
        by (cases "h = g") (auto dest: covers_Cons_drop)
    qed
    with failed show ?thesis by (simp add: add_recorded_def)
  next
    case full
    then obtain r1 where "zrem_effect ents (limit_key g) 0 (t - of_int w) t r r1" "same_from ents t r1 r'"
      by blast
    then have "covers ents w (limit_key h) (H h) t r'"
      using zremmed [of r1 h] covers_same [of ents t r1 r'] by auto
    with full show ?thesis by (simp add: add_recorded_def recorded_def)
  next
    case admitted
    then obtain r1 r2 where z: "zrem_effect ents (limit_key g) 0 (t - of_int w) t r r1"
      and s: "same_from ents t r1 r2" and n: "int (card (ents r1 t (limit_key g))) < l"
      and f: "finite (ents r1 t (limit_key g))"
      and e: "zadd_expire_effect ents (limit_key g) ?m t w t r2 r'" by blast
    have r1: "covers ents w (limit_key h) (H h) t r1" for h
      using zremmed [of r1 h] z by simp
    then have r2: "covers ents w (limit_key h) (H h) t r2" for h
      using r1 [of h] covers_same [OF s] by simp
    have "covers ents w (limit_key h) (add_recorded fr g t u res H h) t r'"
      using covers_zadd [OF r2 [of g] e fresh] covers_zadd_other [OF r2 [of h] e] admitted(1)
      by (auto simp: add_recorded_def)
    with admitted n covers_count [OF r1 [of g] f] show ?thesis by auto
  qed
  then show "invar r'" "covers ents w (limit_key h) (add_recorded fr g t u res H h) t r'"
    "recorded res \<Longrightarrow> int (length (live w t (H g))) < l" by auto
qed


lemma check_tight:
  assumes "invar r" "0 < w" "0 \<le> t" "check C w fr g l t u r = (res, r')" "\<not> failed_open res"
    and tight: "\<And>h. tight ents (limit_key h) (H h) t r"
  shows "tight ents (limit_key h) (add_recorded fr g t u res H h) t r'"
    "\<not> rl_allowed res \<Longrightarrow> l \<le> int (length (live w t (H g)))"
proof -
  let ?m = "limit_member fr t u"
  have zremmed: "tight ents (limit_key h) (H h) t r1"
    if "zrem_effect ents (limit_key g) 0 (t - of_int w) t r r1" for h r1
    by (rule tight_zrem [OF tight that])
  from assms(1,2,4)
  have "tight ents (limit_key h) (add_recorded fr g t u res H h) t r' \<and>
    (\<not> rl_allowed res \<longrightarrow> l \<le> int (length (live w t (H g))))"
  proof (cases rule: check_cases)
    case failed
    with assms(5) show ?thesis by simp
  next
    case full
    then obtain r1 where z: "zrem_effect ents (limit_key g) 0 (t - of_int w) t r r1"
      and s: "same_from ents t r1 r'" and n: "l \<le> int (card (ents r1 t (limit_key g)))" by blast
    have "card (ents r1 t (limit_key g)) \<le> card (set (live w t (H g)))"
      by (rule card_mono [OF finite_set tight_zrem_live [OF tight z]])
    also have "\<dots> \<le> length (live w t (H g))" by (rule card_length)
    finally have "l \<le> int (length (live w t (H g)))" using n by simp
    moreover have "tight ents (limit_key h) (H h) t r'"
      using zremmed [OF z, of h] tight_same [OF s] by simp
    ultimately show ?thesis using full by (simp add: add_recorded_def recorded_def)
  next
    case admitted
    then obtain r1 r2 where z: "zrem_effect ents (limit_key g) 0 (t - of_int w) t r r1"
      and s: "same_from ents t r1 r2"
      and e: "zadd_expire_effect ents (limit_key g) ?m t w t r2 r'" by blast
    have r2: "tight ents (limit_key h) (H h) t r2" for h
      using zremmed [OF z, of h] tight_same [OF s] by simp
    have "tight ents (limit_key h) (add_recorded fr g t u res H h) t r'"
      using tight_zadd [OF r2 [of g] e assms(3)] tight_zadd_other [OF r2 [of h] e] admitted(1)
      by (auto simp: add_recorded_def)
    with admitted show ?thesis by (simp add: recorded_def)
  qed
  then show "tight ents (limit_key h) (add_recorded fr g t u res H h) t r'"
    "\<not> rl_allowed res \<Longrightarrow> l \<le> int (length (live w t (H g)))" by auto
qed


section \<open>Any run of checks\<close>

lemma window_live:
  assumes "covers ents w k hist t r" "t \<le> T"
  shows "length (filter (\<lambda>e. in_window w T (snd e)) hist) \<le> length (live w t hist)"
  unfolding live_def by (rule length_filter_mono) (use assms(2) in \<open>auto simp: in_window_def\<close>)

lemma run_checks_bound:
  assumes "invar r" "0 < w" "run_checks C w fr evs r = (hs, r')"
    and "sorted (map ev_now evs)" "\<And>e. e \<in> set evs \<Longrightarrow> t0 \<le> ev_now e"
    and "\<And>h. covers ents w (limit_key h) (H h) t0 r"
    and "distinct (map (\<lambda>e. limit_member fr (ev_now e) (ev_uuid e)) evs)"
    and "\<And>e h. e \<in> set evs \<Longrightarrow> limit_member fr (ev_now e) (ev_uuid e) \<notin> fst ` set (H h)"
    and "\<And>e. e \<in> set evs \<Longrightarrow> ev_agent e = g \<Longrightarrow> ev_limit e \<le> L"
    and "length (filter (\<lambda>e. in_window w T (snd e)) (H g)) \<le> nat L"
  shows "length (filter (\<lambda>e. in_window w T (snd e)) (H g)) + length (recorded_in hs g w T) \<le> nat L"
  using assms
proof (induction evs arbitrary: r hs r' t0 H)
  case Nil
  then show ?case by (simp add: recorded_in_def)
next
  case (Cons ev evs)
  obtain g' l t u where ev: "ev = (g', l, t, u)" by (metis prod_cases4)
  obtain res r1 where c: "check C w fr g' l t u r = (res, r1)" by fastforce
  obtain hs2 where rest: "run_checks C w fr evs r1 = (hs2, r')" and hs: "hs = (ev, res) # hs2"
    using Cons.prems(3) c by (auto simp: ev split: prod.splits)
  have t: "t0 \<le> t" using Cons.prems(5) [of ev] by (simp add: ev)
  have cov: "covers ents w (limit_key h) (H h) t r" for h
    using covers_later [OF Cons.prems(6) t] .
  have fresh: "limit_member fr t u \<notin> fst ` set (H h)" for h
    using Cons.prems(8) [of ev h] by (simp add: ev)
  let ?H = "add_recorded fr g' t u res H"
  note step = check_covers [OF Cons.prems(1,2) c cov fresh]
  have lim: "recorded res \<Longrightarrow> g' = g \<Longrightarrow> t \<le> T \<Longrightarrow>
      Suc (length (filter (\<lambda>e. in_window w T (snd e)) (H g))) \<le> nat L"
    using step(3) window_live [OF cov [of g], of T] Cons.prems(9) [of ev] by (auto simp: ev)
  have base: "length (filter (\<lambda>e. in_window w T (snd e)) (?H g)) \<le> nat L"
    using Cons.prems(10) lim by (auto simp: add_recorded_def in_window_def)
  have "length (filter (\<lambda>e. in_window w T (snd e)) (?H g)) + length (recorded_in hs2 g w T) \<le> nat L"
  proof (rule Cons.IH [OF step(1) Cons.prems(2) rest])
    show "sorted (map ev_now evs)" using Cons.prems(4) by simp
    show "\<And>e. e \<in> set evs \<Longrightarrow> t \<le> ev_now e" using Cons.prems(4) by (auto simp: ev)
    show "\<And>h. covers ents w (limit_key h) (?H h) t r1" by (rule step(2))
    show "distinct (map (\<lambda>e. limit_member fr (ev_now e) (ev_uuid e)) evs)" using Cons.prems(7) by simp
    show "limit_member fr (ev_now e) (ev_uuid e) \<notin> fst ` set (?H h)" if "e \<in> set evs" for e h
      using that Cons.prems(7) Cons.prems(8) [of e h]
      by (fastforce simp: add_recorded_def ev image_iff split: if_splits)
    show "\<And>e. e \<in> set evs \<Longrightarrow> ev_agent e = g \<Longrightarrow> ev_limit e \<le> L" using Cons.prems(9) by simp
  qed (rule base)
  then show ?case
    by (auto simp: hs ev recorded_in_def add_recorded_def split: if_splits)
qed

lemma run_checks_exact:
  assumes "invar r" "0 < w" "run_checks C w fr evs r = (hs, r')"
    and "sorted (map ev_now evs)" "\<And>e. e \<in> set evs \<Longrightarrow> t0 \<le> ev_now e" "0 \<le> t0"
    and "\<And>h. covers ents w (limit_key h) (H h) t0 r"
    and "\<And>h. tight ents (limit_key h) (H h) t0 r"
    and "distinct (map (\<lambda>e. limit_member fr (ev_now e) (ev_uuid e)) evs)"
    and "\<And>e h. e \<in> set evs \<Longrightarrow> limit_member fr (ev_now e) (ev_uuid e) \<notin> fst ` set (H h)"
    and "\<And>e res. (e, res) \<in> set hs \<Longrightarrow> \<not> failed_open res"
    and "hs = pre @ (e, res) # post"
  shows "rl_allowed res \<longleftrightarrow>
    int (length (filter (\<lambda>x. in_window w (ev_now e) (snd x)) (H (ev_agent e))) +
         length (recorded_in pre (ev_agent e) w (ev_now e))) < ev_limit e"
  using assms
proof (induction evs arbitrary: r hs r' t0 H pre)
  case Nil
  then show ?case by simp
next
  case (Cons ev evs)
  obtain g l t u where ev: "ev = (g, l, t, u)" by (metis prod_cases4)
  obtain res1 r1 where c: "check C w fr g l t u r = (res1, r1)" by fastforce
  obtain hs2 where rest: "run_checks C w fr evs r1 = (hs2, r')" and hs: "hs = (ev, res1) # hs2"
    using Cons.prems(3) c by (auto simp: ev split: prod.splits)
  have t: "t0 \<le> t" "0 \<le> t" using Cons.prems(5) [of ev] Cons.prems(6) by (simp_all add: ev)
  have cov: "covers ents w (limit_key h) (H h) t r" for h
    using covers_later [OF Cons.prems(7) t(1)] .
  have tig: "tight ents (limit_key h) (H h) t r" for h
    using tight_later [OF Cons.prems(8) t(1)] .
  have fresh: "limit_member fr t u \<notin> fst ` set (H h)" for h
    using Cons.prems(10) [of ev h] by (simp add: ev)
  have nf: "\<not> failed_open res1" using Cons.prems(11) [of ev res1] by (simp add: hs)
  let ?H = "add_recorded fr g t u res1 H"
  note step = check_covers [OF Cons.prems(1,2) c cov fresh]
  note tstep = check_tight [OF Cons.prems(1,2) t(2) c nf tig]
  show ?case
  proof (cases pre)
    case Nil
    then have e: "e = ev" "res = res1" using Cons.prems(12) by (simp_all add: hs)
    have le: "\<forall>x \<in> set (H g). snd x \<le> t" using cov [of g] by (simp add: covers_def)
    have "filter (\<lambda>x. in_window w t (snd x)) (H g) = live w t (H g)"
      unfolding live_def in_window_def using le by (intro filter_cong) auto
    moreover have "rl_allowed res1 \<longleftrightarrow> int (length (live w t (H g))) < l"
      using step(3) tstep(2) nf rl_allowed_cases [of res1] by (metis not_less)
    ultimately show ?thesis by (simp add: e ev Nil recorded_in_def)
  next
    case (Cons p pre')
    then have p: "p = (ev, res1)" and post: "hs2 = pre' @ (e, res) # post"
      using Cons.prems(12) by (simp_all add: hs)
    have "rl_allowed res \<longleftrightarrow>
      int (length (filter (\<lambda>x. in_window w (ev_now e) (snd x)) (?H (ev_agent e))) +
           length (recorded_in pre' (ev_agent e) w (ev_now e))) < ev_limit e"
    proof (rule Cons.IH [OF step(1) Cons.prems(2) rest _ _ t(2) _ _ _ _ _ post])
      show "sorted (map ev_now evs)" using Cons.prems(4) by simp
      show "\<And>e. e \<in> set evs \<Longrightarrow> t \<le> ev_now e" using Cons.prems(4) by (auto simp: ev)
      show "\<And>h. covers ents w (limit_key h) (?H h) t r1" by (rule step(2))
      show "\<And>h. tight ents (limit_key h) (?H h) t r1" by (rule tstep(1))
      show "distinct (map (\<lambda>e. limit_member fr (ev_now e) (ev_uuid e)) evs)" using Cons.prems(9) by simp
      show "limit_member fr (ev_now e) (ev_uuid e) \<notin> fst ` set (?H h)" if "e \<in> set evs" for e h
        using that Cons.prems(9) Cons.prems(10) [of e h]
        by (fastforce simp: add_recorded_def ev image_iff split: if_splits)
      show "\<not> failed_open res'" if "(e', res') \<in> set hs2" for e' res'
        using that Cons.prems(11) [of e' res'] by (simp add: hs)
    qed
    then show ?thesis by (auto simp: Cons p ev recorded_in_def add_recorded_def)
  qed
qed

text \<open>What a refusal tells the caller.\<close>

lemma refusal_wait:
  assumes "invar r" "0 < w"
    and scores: "\<forall>e \<in> ents r t (limit_key g). 0 \<le> snd e \<and> snd e \<le> t"
    and c: "check C w fr g l t u r = (res, r')" and refused: "\<not> rl_allowed res"
  shows "rl_remaining res = 0 \<and> (\<exists>n s. rl_retry_after res = Some n \<and> 1 \<le> n \<and> n \<le> w \<and>
    n = max 1 (trunc_rat (s - t)) \<and> rl_reset res = trunc_rat s \<and> reset_time (counted ents w t g r) w t s)"
proof -
  let ?k = "limit_key g"
  obtain x1 r1 where 1: "zremrangebyscore C ?k 0 (t - of_int w) t r = (x1, r1)" by fastforce
  obtain x2 r2 where 2: "zcard C ?k t r1 = (x2, r2)" by fastforce
  obtain x3 r3 where 3: "zrange_withscores C ?k 0 0 t r2 = (x3, r3)" by fastforce
  note eqs = check_def Let_def 1 2 3
  from c refused obtain n es where x: "x1 = Inr ()" "x2 = Inr n" "x3 = Inr es"
    by (auto simp: eqs split: sum.splits if_splits prod.splits)
  define reset_at where "reset_at = (case es of e # _ \<Rightarrow> snd e + of_int w | [] \<Rightarrow> t + of_int w)"
  have res: "rl_remaining res = 0" "rl_retry_after res = Some (max 1 (trunc_rat (reset_at - t)))"
    "rl_reset res = trunc_rat reset_at"
    using c refused x by (auto simp: eqs reset_at_def split: sum.splits if_splits prod.splits)
  have z: "zrem_effect ents ?k 0 (t - of_int w) t r r1" "invar r1" using zrem [OF assms(1) 1] x by auto
  then have s: "same_from ents t r1 r2" "invar r2" using zcard [OF _ 2] by auto
  have in1: "t - of_int w < snd e \<and> snd e \<le> t" if "e \<in> ents r2 t ?k" for e
    using that s z scores by (fastforce simp: same_from_def zrem_effect_def)
  have "ents r2 t ?k = counted ents w t g r"
    using s z scores by (fastforce simp: same_from_def zrem_effect_def counted_def)
  then have at: "reset_time (counted ents w t g r) w t reset_at"
    using zrange_first [OF s(2) 3] x unfolding reset_time_def reset_at_def by fastforce
  have "0 \<le> reset_at - t \<and> reset_at - t \<le> of_int w"
    using zrange_first [OF s(2) 3] x in1 assms(2)
    by (auto simp: reset_at_def) (fastforce simp: algebra_simps)+
  then have "trunc_rat (reset_at - t) \<le> w"
    by (simp add: trunc_rat_def floor_le_iff)
  with res at assms(2) show ?thesis by (intro conjI exI [of _ reset_at] exI) simp_all
qed

end

section \<open>The guarantee\<close>

lemma distinct_members:
  assumes "distinct (map ev_uuid evs)" "\<forall>e \<in> set evs. length (ev_uuid e) = n"
  shows "distinct (map (\<lambda>e. limit_member fr (ev_now e) (ev_uuid e)) evs)"
  using assms
proof (induction evs)
  case (Cons e evs)
  have "limit_member fr (ev_now e) (ev_uuid e) \<noteq> limit_member fr (ev_now e') (ev_uuid e')"
    if "e' \<in> set evs" for e'
    using that Cons.prems by (intro limit_member_inj) auto
  with Cons show ?case by auto
qed simp

lemma sorted_ge_hd: "sorted (map f (e # es)) \<Longrightarrow> x \<in> set (e # es) \<Longrightarrow> f e \<le> f x"
  by auto

context redis_zset
begin

lemma bound_from_start:
  assumes "invar r" "0 < w" "run_checks C w fr evs r = (hs, r')" "sorted (map ev_now evs)"
    and "distinct (map ev_uuid evs)" "\<forall>e \<in> set evs. length (ev_uuid e) = n"
    and "\<forall>e \<in> set evs. ev_agent e = g \<longrightarrow> ev_limit e \<le> L"
  shows "length (recorded_in hs g w T) \<le> nat L"
proof (cases evs)
  case Nil
  with assms(3) show ?thesis by (simp add: recorded_in_def)
next
  case (Cons e es)
  have "length (filter (\<lambda>e. in_window w T (snd e)) ([] :: (string \<times> rat) list)) + length (recorded_in hs g w T) \<le> nat L"
    by (rule run_checks_bound [OF assms(1-4), where ?t0.0 = "ev_now e" and H = "\<lambda>_. []"])
      (use assms sorted_ge_hd [of ev_now e es] distinct_members [OF assms(5,6)] in
        \<open>auto simp: covers_def Cons\<close>)
  then show ?thesis by simp
qed

lemma exact_from_start:
  assumes "invar r" "0 < w" "run_checks C w fr evs r = (hs, r')" "sorted (map ev_now evs)"
    and "distinct (map ev_uuid evs)" "\<forall>e \<in> set evs. length (ev_uuid e) = n \<and> 0 \<le> ev_now e"
    and "\<forall>t h. ents r t (limit_key h) = {}"
    and "\<forall>(e, res) \<in> set hs. \<not> failed_open res"
    and "hs = pre @ (e, res) # post"
  shows "rl_allowed res \<longleftrightarrow>
    int (length (recorded_in pre (ev_agent e) w (ev_now e))) < ev_limit e"
proof -
  have "rl_allowed res \<longleftrightarrow>
    int (length (filter (\<lambda>x. in_window w (ev_now e) (snd x)) ([] :: (string \<times> rat) list)) +
      length (recorded_in pre (ev_agent e) w (ev_now e))) < ev_limit e"
    by (rule run_checks_exact [OF assms(1-4), where ?t0.0 = 0 and H = "\<lambda>_. []"])
      (use assms distinct_members [OF assms(5), of n fr] in \<open>auto simp: covers_def tight_def\<close>)
  then show ?thesis by simp
qed

end

text \<open>
  C9: the sliding-window guarantee.  Through any sorted-set client that keeps its documented
  contract, failures included, whatever requests of whatever agents arrive one after the other at
  non-decreasing times, the requests of one agent that the limiter records in any window of
  \<open>window_seconds\<close> never exceed the agent's limit.
\<close>

theorem sliding_window_bound:
  assumes "redis_zset C ents invar" "invar r" "0 < w"
    and "run_checks C w fr evs r = (hs, r')" "sorted (map ev_now evs)"
    and "distinct (map ev_uuid evs)" "\<forall>e \<in> set evs. length (ev_uuid e) = 32"
    and "\<forall>e \<in> set evs. ev_agent e = g \<longrightarrow> ev_limit e \<le> L"
  shows "length (recorded_in hs g w T) \<le> nat L"
  using redis_zset.bound_from_start [OF assms] .

definition demo_uuid :: "char \<Rightarrow> string" where
  "demo_uuid c = replicate 32 c"

definition demo_events :: "limit_event list" where
  "demo_events =
     [(''agent01'', 2, 100, demo_uuid CHR ''0''), (''agent01'', 2, 101, demo_uuid CHR ''1''),
      (''agent02'', 2, 102, demo_uuid CHR ''2''), (''agent01'', 2, 130, demo_uuid CHR ''3''),
      (''agent01'', 2, 160, demo_uuid CHR ''4'')]"

lemma demo_events_ok:
  "sorted (map ev_now demo_events)" "distinct (map ev_uuid demo_events)"
  "\<forall>e \<in> set demo_events. length (ev_uuid e) = 32"
  "\<forall>e \<in> set demo_events. ev_agent e = ''agent01'' \<longrightarrow> ev_limit e \<le> 2"
  "\<forall>e \<in> set demo_events. length (ev_uuid e) = 32 \<and> 0 \<le> ev_now e"
  by (simp_all add: demo_events_def demo_uuid_def)

theorem sliding_window_bound_witness:
  "length (recorded_in (fst (run_checks FakeRedis 60 (\<lambda>_. ''t'') demo_events empty_fake))
     ''agent01'' 60 130) \<le> nat 2"
proof -
  obtain hs r' where run: "run_checks FakeRedis 60 (\<lambda>_. ''t'') demo_events empty_fake = (hs, r')"
    by fastforce
  from sliding_window_bound [OF fake_zset.redis_zset_axioms fake_invar_empty _ run
      demo_events_ok(1-4)] run
  show ?thesis by simp
qed

text \<open>
  C26: no spurious refusal, for requests checked one after the other.  As long as Redis answers
  and starts with no entries, a request is let through exactly when fewer than the agent's limit
  of its requests were recorded in the window that ends now: entries leave the window on time, and
  refused requests use up no quota.  (\<open>Limiter_Overlap\<close> shows that overlapping checks can let more
  through.)
\<close>

theorem sliding_window_exact:
  assumes "redis_zset C ents invar" "invar r" "0 < w"
    and "run_checks C w fr evs r = (hs, r')" "sorted (map ev_now evs)"
    and "distinct (map ev_uuid evs)"
    and "\<forall>e \<in> set evs. length (ev_uuid e) = 32 \<and> 0 \<le> ev_now e"
    and "\<forall>t h. ents r t (limit_key h) = {}"
    and "\<forall>(e, res) \<in> set hs. \<not> failed_open res"
    and "hs = pre @ (e, res) # post"
  shows "rl_allowed res \<longleftrightarrow>
    int (length (recorded_in pre (ev_agent e) w (ev_now e))) < ev_limit e"
  using redis_zset.exact_from_start [OF assms] .

lemma FakeRedis_never_fails: "\<not> failed_open (fst (check FakeRedis w fr g l t u r))"
  by (auto simp: check_def Let_def fake_zremrangebyscore_def fake_zcard_def fake_zrange_def
      fake_pipe_execute_def failed_open_def)

lemma FakeRedis_run_never_fails:
  "\<forall>(e, res) \<in> set (fst (run_checks FakeRedis w fr evs r)). \<not> failed_open res"
proof (induction evs arbitrary: r)
  case (Cons e evs)
  obtain g l t u where e: "e = (g, l, t, u)" by (metis prod_cases4)
  obtain res r1 where c: "check FakeRedis w fr g l t u r = (res, r1)" by fastforce
  then have "\<not> failed_open res" using FakeRedis_never_fails [of w fr g l t u r] by simp
  with c Cons [of r1] show ?case by (simp add: e split: prod.split)
qed simp

lemma length_run_checks: "length (fst (run_checks C w fr evs r)) = length evs"
proof (induction evs arbitrary: r)
  case (Cons e evs)
  obtain g l t u where "e = (g, l, t, u)" by (metis prod_cases4)
  moreover obtain res r1 where "check C w fr g l t u r = (res, r1)" by fastforce
  moreover obtain hs r2 where "run_checks C w fr evs r1 = (hs, r2)" by fastforce
  ultimately show ?case using Cons [of r1] by simp
qed simp

theorem sliding_window_exact_witness:
  "\<exists>hs. hs = fst (run_checks FakeRedis 60 (\<lambda>_. ''t'') demo_events empty_fake) \<and>
     (rl_allowed (snd (hs ! 3)) \<longleftrightarrow>
        int (length (recorded_in (take 3 hs) (ev_agent (fst (hs ! 3))) 60 (ev_now (fst (hs ! 3)))))
          < ev_limit (fst (hs ! 3)))"
proof -
  obtain hs r' where run: "run_checks FakeRedis 60 (\<lambda>_. ''t'') demo_events empty_fake = (hs, r')"
    by fastforce
  have "length hs = 5"
    using length_run_checks [of FakeRedis 60 "\<lambda>_. ''t''" demo_events empty_fake] run
    by (simp add: demo_events_def)
  then have split: "hs = take 3 hs @ (fst (hs ! 3), snd (hs ! 3)) # drop 4 hs"
    using id_take_nth_drop [of 3 hs] by simp
  have nf: "\<forall>(e, res) \<in> set hs. \<not> failed_open res"
    using FakeRedis_run_never_fails [of 60 "\<lambda>_. ''t''" demo_events empty_fake] run by simp
  have "rl_allowed (snd (hs ! 3)) \<longleftrightarrow>
    int (length (recorded_in (take 3 hs) (ev_agent (fst (hs ! 3))) 60 (ev_now (fst (hs ! 3)))))
      < ev_limit (fst (hs ! 3))"
    by (rule sliding_window_exact [OF fake_zset.redis_zset_axioms fake_invar_empty _ run
          demo_events_ok(1,2,5) _ nf split])
      (simp_all add: fake_ents_def zset_of_def empty_fake_def)
  with run show ?thesis by (intro exI [of _ hs]) simp
qed

text \<open>
  C32: what a refused caller is told.  If the key holds scores between the epoch and now (the
  limiter writes no others), a refusal reports no remaining quota, the second in which the oldest
  counted entry leaves the window as the reset time (the end of a full window if none is counted),
  and a wait until then, in whole seconds, of at least one and at most the window.
\<close>

theorem retry_after_bounds:
  assumes "redis_zset C ents invar" "invar r" "0 < w"
    and "\<forall>e \<in> ents r t (limit_key g). 0 \<le> snd e \<and> snd e \<le> t"
    and "check C w fr g l t u r = (res, r')" "\<not> rl_allowed res"
  shows "rl_remaining res = 0 \<and> (\<exists>n s. rl_retry_after res = Some n \<and> 1 \<le> n \<and> n \<le> w \<and>
    n = max 1 (trunc_rat (s - t)) \<and> rl_reset res = trunc_rat s \<and> reset_time (counted ents w t g r) w t s)"
  using redis_zset.refusal_wait [OF assms] .

theorem retry_after_bounds_witness:
  "\<exists>res r'. check FakeRedis 60 (\<lambda>_. ''t'') ''a'' 1 100 ''u'' (fake_zadd (limit_key ''a'') ''m'' 70 empty_fake) = (res, r') \<and>
     rl_reset res = 130 \<and> rl_retry_after res = Some 30"
proof -
  let ?r = "fake_zadd (limit_key ''a'') ''m'' 70 empty_fake"
  obtain res r' where c: "check FakeRedis 60 (\<lambda>_. ''t'') ''a'' 1 100 ''u'' ?r = (res, r')"
    by fastforce
  have z: "zset_of ?r (limit_key ''a'') = [(''m'', 70)]" by (simp add: fake_zadd_def zset_of_def empty_fake_def)
  have "\<not> rl_allowed (fst (check FakeRedis 60 (\<lambda>_. ''t'') ''a'' 1 100 ''u'' ?r))" by code_simp
  then have refused: "\<not> rl_allowed res" using c by simp
  have inv: "fake_invar ?r" by (simp add: fake_invar_def fake_zadd_def zset_of_def empty_fake_def)
  have "counted fake_ents 60 100 ''a'' ?r = {(''m'', 70)}" by (auto simp: counted_def fake_ents_def z)
  with retry_after_bounds [OF fake_zset.redis_zset_axioms inv _ _ c refused] c
  show ?thesis by (auto simp: fake_ents_def z reset_time_def trunc_rat_def)
qed

text \<open>
  The advised wait can be too short.  \<open>Retry-After\<close> is the remaining time cut down to
  whole seconds, so a caller that waits exactly as long as it was told is refused again: with a
  limit of one, after a request at 0.5 s a second one at 59 s is told to wait 1 s, and the retry at
  60 s (still 0.5 s inside the window) is refused.
\<close>

theorem retry_after_too_early:
  "\<exists>r1 r2. fst (check FakeRedis 60 (\<lambda>_. ''t'') ''a'' 1 (1 / 2) ''u1'' empty_fake)
             = \<lparr>rl_allowed = True, rl_limit = 1, rl_remaining = 0, rl_reset = 60, rl_retry_after = None\<rparr>
         \<and> r1 = snd (check FakeRedis 60 (\<lambda>_. ''t'') ''a'' 1 (1 / 2) ''u1'' empty_fake)
         \<and> rl_retry_after (fst (check FakeRedis 60 (\<lambda>_. ''t'') ''a'' 1 59 ''u2'' r1)) = Some 1
         \<and> r2 = snd (check FakeRedis 60 (\<lambda>_. ''t'') ''a'' 1 59 ''u2'' r1)
         \<and> \<not> rl_allowed (fst (check FakeRedis 60 (\<lambda>_. ''t'') ''a'' 1 (59 + 1) ''u3'' r2))"
proof -
  let ?c = "check FakeRedis 60 (\<lambda>_. ''t'') ''a'' 1"
  have "fst (?c (1 / 2) ''u1'' empty_fake)
      = \<lparr>rl_allowed = True, rl_limit = 1, rl_remaining = 0, rl_reset = 60, rl_retry_after = None\<rparr>"
    by code_simp
  moreover have "rl_retry_after (fst (?c 59 ''u2'' (snd (?c (1 / 2) ''u1'' empty_fake)))) = Some 1"
    by code_simp
  moreover have "\<not> rl_allowed (fst (?c (59 + 1) ''u3'' (snd (?c 59 ''u2'' (snd (?c (1 / 2) ''u1'' empty_fake))))))"
    by code_simp
  ultimately show ?thesis by blast
qed

end
