(* ===== verification/Auth.thy ===== *)
theory Auth
  imports PyValues
begin

text \<open>
  HTTP requests and responses as the middlewares and handlers see them, and
  \<open>app/middleware/auth.py\<close>: the key registry and the \<open>authenticate\<close> dispatch function.
  A handler (\<open>call_next\<close>) is a function of the request and the world it acts on, polymorphic in
  the world, so the middleware's lemmas hold for whatever stands behind it.
\<close>

section \<open>Agents, requests, responses\<close>

text \<open>\<open>id: str | int | None\<close>.\<close>

datatype agent_ident = IdStr string | IdInt int | IdNone

fun ident_str :: "agent_ident \<Rightarrow> string" where
  "ident_str (IdStr s) = s"
| "ident_str (IdInt i) = string_of_int i"
| "ident_str IdNone = ''None''"

record Agent_data =
  agent_id :: agent_ident
  agent_role :: string
  allowed_tools :: "string list"
  rate_limit_rpm :: int

definition DEFAULT_RATE_LIMIT_RPM :: int where
  "DEFAULT_RATE_LIMIT_RPM = 60"

text \<open>The body of a request: not JSON at all, or a decoded value; and its raw bytes.\<close>

record http_request =
  req_method :: string
  req_path :: string
  req_headers :: "(string \<times> string) list"   \<comment> \<open>names in lower case\<close>
  req_bytes :: string                        \<comment> \<open>the raw body\<close>
  req_agent :: "Agent_data option"           \<comment> \<open>\<open>request.state.agent\<close>\<close>

record http_response =
  resp_status :: int
  resp_body :: json
  resp_headers :: "(string \<times> string) list"

definition JSONResponse :: "json \<Rightarrow> int \<Rightarrow> http_response" where
  "JSONResponse b s = \<lparr>resp_status = s, resp_body = b, resp_headers = []\<rparr>"

lemma JSONResponse_simps [simp]:
  "resp_status (JSONResponse b s) = s"
  "resp_body (JSONResponse b s) = b"
  "resp_headers (JSONResponse b s) = []"
  by (simp_all add: JSONResponse_def)

type_synonym 'w handler = "http_request \<Rightarrow> 'w \<Rightarrow> http_response result \<times> 'w"

definition header :: "http_request \<Rightarrow> string \<Rightarrow> string option" where
  "header r name = map_of (req_headers r) name"

text \<open>The JSON-RPC error object every component builds (\<open>data\<close> is left out when \<open>None\<close>).\<close>

definition rpc_error :: "json \<Rightarrow> int \<Rightarrow> string \<Rightarrow> json option \<Rightarrow> json" where
  "rpc_error rpc_id err_code message data =
     JObj [(''jsonrpc'', JStr ''2.0''), (''id'', rpc_id),
           (''error'', JObj ([(''code'', JInt err_code), (''message'', JStr message)]
              @ (case data of None \<Rightarrow> [] | Some d \<Rightarrow> [(''data'', d)])))]"

section \<open>The key registry\<close>

definition PUBLIC_PATHS :: "string list" where
  "PUBLIC_PATHS = [''/health/live'', ''/health/ready'']"

definition PUBLIC_PATH_PREFIXES :: "string list" where
  "PUBLIC_PATH_PREFIXES = [''/admin/approvals/'', ''/admin/audit'']"

definition API_KEYS :: "string \<rightharpoonup> Agent_data" where
  "API_KEYS = [''test_key'' \<mapsto>
     \<lparr>agent_id = IdStr ''agent01'', agent_role = ''sre1'',
      allowed_tools =
        [''get_pod_logs'', ''list_pods'', ''get_deployment_status'', ''restart_deployment'',
         ''scale_deployment'', ''read_prometheus_metrics'', ''exec_into_pod'',
         ''apply_k8s_manifest''],
      rate_limit_rpm = DEFAULT_RATE_LIMIT_RPM\<rparr>]"

section \<open>The middleware\<close>

definition is_public :: "string \<Rightarrow> bool" where
  "is_public path \<longleftrightarrow>
     path \<in> set PUBLIC_PATHS \<or> (\<exists>p \<in> set PUBLIC_PATH_PREFIXES. startswith path p)"

definition unauthorized :: http_response where
  "unauthorized = JSONResponse (rpc_error JNull (-32001) ''Missing or invalid API key'' None) 401"

definition authenticate :: "'w handler \<Rightarrow> 'w handler" where
  "authenticate call_next request w =
     (if is_public (req_path request) then call_next request w
      else (case Option.bind (header request ''x-api-key'') API_KEYS of
              None \<Rightarrow> (Inr unauthorized, w)
            | Some agent \<Rightarrow> call_next (request\<lparr>req_agent := Some agent\<rparr>) w))"

text \<open>
  What \<open>authenticate\<close> guarantees to what it wraps: off the public paths the inner handler runs
  only with an identity from the registry attached, and a request without one changes nothing.
\<close>

lemma authenticate_rejects:
  assumes "\<not> is_public (req_path req)"
    and "Option.bind (header req ''x-api-key'') API_KEYS = None"
  shows "authenticate h req w = (Inr unauthorized, w)"
  using assms by (simp add: authenticate_def)

lemma authenticate_attaches:
  assumes "\<not> is_public (req_path req)" and "header req ''x-api-key'' = Some k"
    and "API_KEYS k = Some a"
  shows "authenticate h req w = h (req\<lparr>req_agent := Some a\<rparr>) w"
  using assms by (simp add: authenticate_def)

text \<open>The inner handler can only be entered with an agent the registry knows, or on a public path.\<close>

definition known_agent :: "http_request \<Rightarrow> bool" where
  "known_agent r \<longleftrightarrow> (\<exists>k a. API_KEYS k = Some a \<and> req_agent r = Some a)"

lemma authenticate_cases:
  obtains (public) "is_public (req_path req)" "authenticate h req w = h req w"
  | (rejected) "\<not> is_public (req_path req)" "Option.bind (header req ''x-api-key'') API_KEYS = None"
      "authenticate h req w = (Inr unauthorized, w)"
  | (attached) k a where "\<not> is_public (req_path req)" "header req ''x-api-key'' = Some k"
      "API_KEYS k = Some a" "authenticate h req w = h (req\<lparr>req_agent := Some a\<rparr>) w"
proof (cases "is_public (req_path req)")
  case True
  then show ?thesis by (intro public) (simp_all add: authenticate_def)
next
  case False
  show ?thesis
  proof (cases "Option.bind (header req ''x-api-key'') API_KEYS")
    case None
    with False show ?thesis by (intro rejected) (simp_all add: authenticate_rejects)
  next
    case (Some a)
    then obtain k where "header req ''x-api-key'' = Some k" "API_KEYS k = Some a"
      by (auto simp: bind_eq_Some_conv)
    with False show ?thesis by (intro attached) (simp_all add: authenticate_attaches)
  qed
qed

lemma mcp_not_public: "\<not> is_public ''/mcp''" "\<not> is_public ''/mcp/sse''"
  by (simp_all add: is_public_def PUBLIC_PATHS_def PUBLIC_PATH_PREFIXES_def startswith_def)

end
