(* ===== verification/Interceptor.thy ===== *)
theory Interceptor
  imports Auth
begin

text \<open>
  \<open>app/interceptor.py\<close>: validation of the \<open>tools/call\<close> parameters, the
  \<open>ToolCallContext\<close> they become, the environment inferred from the namespace and the
  OPA input document.  The tool name is any truthy JSON value at this point; a namespace that is
  not a string makes \<open>startswith\<close> raise.
\<close>

definition ENVIRONMENT_PREFIXES :: "string list" where
  "ENVIRONMENT_PREFIXES = [''prod'', ''staging'', ''dev'']"

text \<open>The \<open>for env in _ENVIRONMENT_PREFIXES\<close> loop.\<close>

fun match_prefixes :: "string list \<Rightarrow> json \<Rightarrow> string result" where
  "match_prefixes [] namespace = Inr ''unknown''"
| "match_prefixes (env # envs) namespace =
     (case namespace of
        JStr s \<Rightarrow> (if startswith s env then Inr env else match_prefixes envs namespace)
      | _ \<Rightarrow> Inl (no_attr namespace ''startswith''))"

definition infer_environment :: "dict \<Rightarrow> string result" where
  "infer_environment arguments =
     match_prefixes ENVIRONMENT_PREFIXES (py_or (dict_get arguments ''namespace'') (JStr ''''))"

record ToolCallContext =
  ctx_tool_name :: json
  ctx_arguments :: dict
  ctx_agent_id :: string
  ctx_role :: string
  ctx_requested_at :: rat

definition context_environment :: "ToolCallContext \<Rightarrow> string result" where
  "context_environment ctx = infer_environment (ctx_arguments ctx)"

definition to_opa_input :: "ToolCallContext \<Rightarrow> json result" where
  "to_opa_input ctx =
     bind_res (context_environment ctx) (\<lambda>env.
       Inr (JObj [(''agent'', JObj [(''id'', JStr (ctx_agent_id ctx)), (''role'', JStr (ctx_role ctx))]),
                  (''tool'', JObj [(''name'', ctx_tool_name ctx), (''args'', JObj (ctx_arguments ctx))]),
                  (''resource'', JObj [(''namespace'', dict_get (ctx_arguments ctx) ''namespace'')]),
                  (''environment'', JStr env)]))"

definition intercept_tool_call :: "json \<Rightarrow> Agent_data \<Rightarrow> rat \<Rightarrow> ToolCallContext result" where
  "intercept_tool_call params agent now =
     bind_res (json_get params ''name'') (\<lambda>tool_name.
       if \<not> truthy tool_name
       then Inl (MissingParamError ''name'' (''missing required field '' @ quoted ''name''))
       else
         bind_res (json_get_or params ''arguments'' (JObj [])) (\<lambda>arguments0.
           let arguments = (if arguments0 = JNull then JObj [] else arguments0) in
           (case arguments of
              JObj args \<Rightarrow>
                Inr \<lparr>ctx_tool_name = tool_name, ctx_arguments = args,
                     ctx_agent_id = ident_str (agent_id agent), ctx_role = agent_role agent,
                     ctx_requested_at = now\<rparr>
            | _ \<Rightarrow> Inl (MissingParamError ''arguments''
                          (quoted ''arguments'' @ '' must be an object'')))))"

section \<open>The inferred environment\<close>

lemma infer_environment_cases:
  "infer_environment args = Inr e \<Longrightarrow> e \<in> {''prod'', ''staging'', ''dev'', ''unknown''}"
  by (auto simp: infer_environment_def ENVIRONMENT_PREFIXES_def split: json.splits if_splits)

lemma infer_environment_str:
  assumes "dict_get args ''namespace'' = JStr ns"
  shows "infer_environment args =
    Inr (if startswith ns ''prod'' then ''prod''
         else if startswith ns ''staging'' then ''staging''
         else if startswith ns ''dev'' then ''dev'' else ''unknown'')"
  using assms by (auto simp: infer_environment_def ENVIRONMENT_PREFIXES_def py_or_def)

lemma infer_environment_falsy:
  "\<not> truthy (dict_get args ''namespace'') \<Longrightarrow> infer_environment args = Inr ''unknown''"
  by (simp add: infer_environment_def ENVIRONMENT_PREFIXES_def py_or_def startswith_def)

lemma infer_environment_raises:
  assumes "truthy (dict_get args ''namespace'')" "\<not> is_str (dict_get args ''namespace'')"
  shows "infer_environment args = Inl (no_attr (dict_get args ''namespace'') ''startswith'')"
  using assms by (cases "dict_get args ''namespace''")
    (auto simp: infer_environment_def ENVIRONMENT_PREFIXES_def py_or_def)

text \<open>The only way to be tagged with a named environment is a namespace string with that prefix.\<close>

lemma infer_environment_named:
  assumes "infer_environment args = Inr e" "e \<noteq> ''unknown''"
  shows "\<exists>ns. dict_get args ''namespace'' = JStr ns \<and> startswith ns e"
  using assms
  by (auto simp: infer_environment_def ENVIRONMENT_PREFIXES_def py_or_def
      split: json.splits if_splits)

section \<open>The context\<close>

lemma intercept_tool_call_Inr:
  "intercept_tool_call params agent now = Inr ctx \<longleftrightarrow>
     (\<exists>p. params = JObj p \<and> truthy (dict_get p ''name'') \<and>
        (\<exists>args. (dict_get p ''arguments'' = JObj args \<or>
                 (dict_get p ''arguments'' = JNull \<and> args = [])) \<and>
           ctx = \<lparr>ctx_tool_name = dict_get p ''name'', ctx_arguments = args,
                  ctx_agent_id = ident_str (agent_id agent), ctx_role = agent_role agent,
                  ctx_requested_at = now\<rparr>))"
proof (cases params)
  case (JObj p)
  show ?thesis
  proof (cases "truthy (dict_get p ''name'')")
    case True
    with JObj show ?thesis
      by (cases "map_of p ''arguments''"; cases "the (map_of p ''arguments'')")
        (auto simp: intercept_tool_call_def dict_get_def dict_get_or_def)
  qed (simp add: JObj intercept_tool_call_def)
qed (simp_all add: intercept_tool_call_def json_get_def json_get_or_def)

text \<open>A rejected request names the field at fault; other exceptions come from a non-object.\<close>

lemma intercept_tool_call_Inl:
  assumes "intercept_tool_call (JObj p) agent now = Inl e"
  shows "(\<not> truthy (dict_get p ''name'') \<and>
            e = MissingParamError ''name'' (''missing required field '' @ quoted ''name'')) \<or>
         (truthy (dict_get p ''name'') \<and> dict_get p ''arguments'' \<noteq> JNull \<and>
            \<not> is_dict (dict_get p ''arguments'') \<and>
            e = MissingParamError ''arguments'' (quoted ''arguments'' @ '' must be an object''))"
  using assms
proof (cases "truthy (dict_get p ''name'')")
  case True
  with assms show ?thesis
    by (cases "map_of p ''arguments''"; cases "the (map_of p ''arguments'')")
      (auto simp: intercept_tool_call_def dict_get_def dict_get_or_def)
next
  case False
  with assms show ?thesis by (simp add: intercept_tool_call_def)
qed

text \<open>
  The document OPA judges names the same tool, arguments and namespace as the context the
  executor will run with.
\<close>

lemma to_opa_input_Inr:
  "to_opa_input ctx = Inr doc \<longleftrightarrow>
     (\<exists>env. context_environment ctx = Inr env \<and>
        doc = JObj [(''agent'', JObj [(''id'', JStr (ctx_agent_id ctx)), (''role'', JStr (ctx_role ctx))]),
                  (''tool'', JObj [(''name'', ctx_tool_name ctx), (''args'', JObj (ctx_arguments ctx))]),
                  (''resource'', JObj [(''namespace'', dict_get (ctx_arguments ctx) ''namespace'')]),
                  (''environment'', JStr env)])"
  by (auto simp: to_opa_input_def bind_res_Inr_iff)

end
