(* ===== verification/Opa.thy ===== *)
theory Opa
  imports Interceptor
begin

text \<open>
  \<open>app/authz/opa.py\<close> (the policy decision point) and the metric instruments of
  \<open>app/otel.py\<close>.  The OPA sidecar is a parameter: \<open>opa doc\<close> is what posting the input
  document \<open>doc\<close> gives, an HTTP failure, a body that is not JSON, or a decoded body.
  The locale \<open>policy_engine\<close> is what the gateway relies on a policy to be; the
  repository's own Rego policy is shown to be one in \<open>Rego_Policy\<close>.
\<close>

section \<open>Metric instruments\<close>

text \<open>One constructor per instrument; the values and labels of each recorded measurement.\<close>

datatype metric =
    tool_calls_total string string string       \<comment> \<open>tool, result status, role\<close>
  | policy_denials_total json string            \<comment> \<open>tool, role\<close>
  | approval_requests_total string
  | rate_limit_hits_total string                \<comment> \<open>agent\<close>
  | tool_call_duration_ms int string
  | approvals_pending int string                \<comment> \<open>up/down step, tool\<close>
  | approval_decision_duration_ms rat string
  | audit_chain_integrity_failures_total

section \<open>Evaluating the policy\<close>

datatype opa_reply =
    OpaHTTPError string      \<comment> \<open>\<open>httpx.HTTPError\<close>: unreachable, timeout, error status\<close>
  | OpaValueError string     \<comment> \<open>\<open>ValueError\<close>: the body is not JSON\<close>
  | OpaBody json

record PolicyDecision =
  dec_allow :: bool
  dec_require_approval :: bool
  dec_reason :: string

definition unavailable :: PolicyDecision where
  "unavailable = \<lparr>dec_allow = False, dec_require_approval = False, dec_reason = ''policy engine unavailable''\<rparr>"

definition decision_reason :: "(rat \<Rightarrow> string) \<Rightarrow> json \<Rightarrow> bool \<Rightarrow> bool \<Rightarrow> string" where
  "decision_reason fr tool_name alw appr =
     (if appr then quoted (py_str fr tool_name) @ '' is a destructive action in prod and requires approval''
      else if alw then ''allowed by OPA policy''
      else ''denied by OPA policy'')"

text \<open>The part after the \<open>try\<close>: reading \<open>allow\<close> and \<open>require_approval\<close> off the result.\<close>

definition read_result ::
  "(rat \<Rightarrow> string) \<Rightarrow> ToolCallContext \<Rightarrow> json \<Rightarrow> metric list \<Rightarrow> PolicyDecision result \<times> metric list" where
  "read_result fr ctx result ms =
     (case (json_get_or result ''allow'' (JBool False), json_get_or result ''require_approval'' (JBool False)) of
        (Inr a, Inr r) \<Rightarrow>
          (let alw = truthy a; appr = truthy r;
               ms' = (if appr \<or> alw then ms
                      else ms @ [policy_denials_total (ctx_tool_name ctx) (ctx_role ctx)])
           in (Inr \<lparr>dec_allow = alw, dec_require_approval = appr,
                    dec_reason = decision_reason fr (ctx_tool_name ctx) alw appr\<rparr>, ms'))
      | (Inl e, _) \<Rightarrow> (Inl e, ms)
      | (_, Inl e) \<Rightarrow> (Inl e, ms))"

definition evaluate_policy ::
  "(rat \<Rightarrow> string) \<Rightarrow> (json \<Rightarrow> opa_reply) \<Rightarrow> ToolCallContext \<Rightarrow> metric list
     \<Rightarrow> PolicyDecision result \<times> metric list" where
  "evaluate_policy fr opa ctx ms =
     (case to_opa_input ctx of
        Inl e \<Rightarrow> (Inl e, ms)
      | Inr doc \<Rightarrow>
          (case opa doc of
             OpaBody body \<Rightarrow>
               (case json_get_or body ''result'' (JObj []) of
                  Inl e \<Rightarrow> (Inl e, ms)
                | Inr result \<Rightarrow> read_result fr ctx result ms)
           | _ \<Rightarrow> (Inr unavailable, ms @ [policy_denials_total (ctx_tool_name ctx) (ctx_role ctx)])))"

text \<open>
  Fail closed: a call is let through (run, or held for a human) only on a decoded answer of the
  policy engine whose \<open>allow\<close> (or \<open>require_approval\<close>) is present and truthy.
\<close>

lemma evaluate_policy_lets_through:
  assumes "evaluate_policy fr opa ctx ms = (Inr d, ms')" and "dec_allow d \<or> dec_require_approval d"
  shows "\<exists>doc body res. to_opa_input ctx = Inr doc \<and> opa doc = OpaBody (JObj body) \<and>
           map_of body ''result'' = Some (JObj res) \<and>
           (dec_allow d \<longrightarrow> truthy (dict_get res ''allow'')) \<and>
           (dec_require_approval d \<longrightarrow> truthy (dict_get res ''require_approval'')) \<and> ms' = ms"
  using assms
  by (auto simp: evaluate_policy_def read_result_def unavailable_def Let_def json_get_or_def
      dict_get_def dict_get_or_def split: sum.splits opa_reply.splits json.splits option.splits if_splits)

lemma evaluate_policy_unreachable:
  assumes "to_opa_input ctx = Inr doc" "\<And>b. opa doc \<noteq> OpaBody b"
  shows "evaluate_policy fr opa ctx ms =
    (Inr unavailable, ms @ [policy_denials_total (ctx_tool_name ctx) (ctx_role ctx)])"
  using assms by (simp add: evaluate_policy_def split: opa_reply.split)

text \<open>Every decision that neither allows nor asks for approval is counted, exactly once.\<close>

lemma evaluate_policy_metrics:
  assumes "evaluate_policy fr opa ctx ms = (Inr d, ms')"
  shows "ms' = (if dec_allow d \<or> dec_require_approval d then ms
                else ms @ [policy_denials_total (ctx_tool_name ctx) (ctx_role ctx)])"
  using assms
  by (auto simp: evaluate_policy_def read_result_def unavailable_def Let_def
      split: sum.splits opa_reply.splits if_splits)

section \<open>What the gateway expects of a policy\<close>

locale policy_engine =
  fixes opa :: "json \<Rightarrow> opa_reply"
    and permits :: "json \<Rightarrow> bool"
    and gates :: "json \<Rightarrow> bool"
  assumes answers:
    "\<exists>body res. opa doc = OpaBody (JObj body) \<and> map_of body ''result'' = Some (JObj res) \<and>
       dict_get res ''allow'' = JBool (permits doc) \<and>
       dict_get res ''require_approval'' = JBool (gates doc)"
    and gates_permits: "gates doc \<Longrightarrow> permits doc"
begin

lemma decision:
  assumes "to_opa_input ctx = Inr doc"
  shows "\<exists>ms'. evaluate_policy fr opa ctx ms =
    (Inr \<lparr>dec_allow = permits doc, dec_require_approval = gates doc,
          dec_reason = decision_reason fr (ctx_tool_name ctx) (permits doc) (gates doc)\<rparr>, ms')"
proof -
  obtain body res where "opa doc = OpaBody (JObj body)" "map_of body ''result'' = Some (JObj res)"
    "dict_get res ''allow'' = JBool (permits doc)"
    "dict_get res ''require_approval'' = JBool (gates doc)"
    using answers by blast
  with assms show ?thesis
    by (auto simp: evaluate_policy_def read_result_def Let_def json_get_or_def dict_get_def
        dict_get_or_def split: option.splits)
qed

lemma allowed_is_permitted:
  assumes "evaluate_policy fr opa ctx ms = (Inr d, ms')" "dec_allow d \<or> dec_require_approval d"
  shows "\<exists>doc. to_opa_input ctx = Inr doc \<and> permits doc \<and> (dec_require_approval d \<longleftrightarrow> gates doc)"
proof -
  obtain doc where doc: "to_opa_input ctx = Inr doc"
    using evaluate_policy_lets_through [OF assms] by blast
  from decision [OF this, of fr ms] assms have "dec_allow d = permits doc" "dec_require_approval d = gates doc"
    by auto
  with assms(2) doc gates_permits [of doc] show ?thesis by auto
qed

lemma ungated_is_not_gated:
  assumes "evaluate_policy fr opa ctx ms = (Inr d, ms')" "dec_allow d" "\<not> dec_require_approval d"
  shows "\<exists>doc. to_opa_input ctx = Inr doc \<and> permits doc \<and> \<not> gates doc"
  using allowed_is_permitted [OF assms(1)] assms(2,3) by blast

end

end
