(* ===== verification/Rego_Policy.thy ===== *)
theory Rego_Policy
  imports Opa
begin

text \<open>
  The repository's policy: \<open>policies/authz.rego\<close> over \<open>policies/data.json\<close>, rule by rule.
  An undefined Rego reference (an unknown role) makes the rules that use it undefined, so the
  \<open>default\<close> applies; several rules of one name are a disjunction.
\<close>

section \<open>The static data\<close>

record role_config =
  rc_tools :: "string list"
  rc_environments :: "string list"
  rc_namespaces :: "string list"

definition data_roles :: "string \<rightharpoonup> role_config" where
  "data_roles =
     [''sre1'' \<mapsto>
        \<lparr>rc_tools = [''get_pod_logs'', ''list_pods'', ''get_deployment_status'', ''restart_deployment'',
           ''scale_deployment'', ''read_prometheus_metrics'', ''exec_into_pod'', ''apply_k8s_manifest''],
         rc_environments = [''dev'', ''staging'', ''prod''], rc_namespaces = [''*'']\<rparr>,
      ''readonly'' \<mapsto>
        \<lparr>rc_tools = [''get_pod_logs'', ''list_pods'', ''get_deployment_status'', ''query_terraform_plan'',
           ''get_jenkins_job_status'', ''read_prometheus_metrics'', ''read_ticket''],
         rc_environments = [''dev'', ''staging'', ''prod''], rc_namespaces = [''*'']\<rparr>,
      ''deploy-bot'' \<mapsto>
        \<lparr>rc_tools = [''restart_deployment'', ''scale_deployment'', ''trigger_jenkins_job'',
           ''get_jenkins_job_status'', ''query_terraform_plan''],
         rc_environments = [''dev'', ''staging''], rc_namespaces = [''*'']\<rparr>]"

definition destructive_tools :: "string list" where
  "destructive_tools = [''restart_deployment'', ''scale_deployment'', ''trigger_jenkins_job'']"

definition always_require_approval_tools :: "string list" where
  "always_require_approval_tools = [''exec_into_pod'', ''apply_k8s_manifest'']"

definition kube_system_blocked_tools :: "string list" where
  "kube_system_blocked_tools = [''restart_deployment'', ''exec_into_pod'', ''apply_k8s_manifest'']"

section \<open>The rules\<close>

record authz_input =
  in_role :: string
  in_tool :: json
  in_namespace :: json
  in_environment :: string

definition in_strings :: "json \<Rightarrow> string list \<Rightarrow> bool" where
  "in_strings v xs \<longleftrightarrow> (case v of JStr s \<Rightarrow> s \<in> set xs | _ \<Rightarrow> False)"

definition tool_allowed :: "authz_input \<Rightarrow> bool" where
  "tool_allowed i =
     (case data_roles (in_role i) of None \<Rightarrow> False | Some c \<Rightarrow> in_strings (in_tool i) (rc_tools c))"

definition environment_allowed :: "authz_input \<Rightarrow> bool" where
  "environment_allowed i \<longleftrightarrow>
     in_environment i = ''unknown'' \<or>
     (case data_roles (in_role i) of None \<Rightarrow> False | Some c \<Rightarrow> in_environment i \<in> set (rc_environments c))"

definition namespace_allowed :: "authz_input \<Rightarrow> bool" where
  "namespace_allowed i \<longleftrightarrow>
     in_namespace i = JNull \<or>
     (case data_roles (in_role i) of
        None \<Rightarrow> False
      | Some c \<Rightarrow> ''*'' \<in> set (rc_namespaces c) \<or> in_strings (in_namespace i) (rc_namespaces c))"

definition kube_system_blocked :: "authz_input \<Rightarrow> bool" where
  "kube_system_blocked i \<longleftrightarrow>
     in_strings (in_tool i) kube_system_blocked_tools \<and> in_namespace i = JStr ''kube-system''"

definition authz_allow :: "authz_input \<Rightarrow> bool" where
  "authz_allow i \<longleftrightarrow>
     tool_allowed i \<and> environment_allowed i \<and> namespace_allowed i \<and> \<not> kube_system_blocked i"

definition authz_require_approval :: "authz_input \<Rightarrow> bool" where
  "authz_require_approval i \<longleftrightarrow>
     (authz_allow i \<and> in_strings (in_tool i) destructive_tools \<and> in_environment i = ''prod'') \<or>
     (authz_allow i \<and> in_strings (in_tool i) always_require_approval_tools)"

section \<open>The policy as a service\<close>

text \<open>Reading the input document; a missing path is JSON null.\<close>

fun doc_path :: "json \<Rightarrow> string list \<Rightarrow> json" where
  "doc_path v [] = v"
| "doc_path (JObj d) (k # ks) = doc_path (dict_get d k) ks"
| "doc_path _ (k # ks) = JNull"

definition json_text :: "json \<Rightarrow> string" where
  "json_text v = (case v of JStr s \<Rightarrow> s | _ \<Rightarrow> [])"

definition authz_input_of :: "json \<Rightarrow> authz_input" where
  "authz_input_of doc =
     \<lparr>in_role = json_text (doc_path doc [''agent'', ''role'']),
      in_tool = doc_path doc [''tool'', ''name''],
      in_namespace = doc_path doc [''resource'', ''namespace''],
      in_environment = json_text (doc_path doc [''environment''])\<rparr>"

definition opa_authz :: "json \<Rightarrow> opa_reply" where
  "opa_authz doc =
     OpaBody (JObj [(''result'', JObj
       [(''allow'', JBool (authz_allow (authz_input_of doc))),
        (''require_approval'', JBool (authz_require_approval (authz_input_of doc)))])])"

interpretation rego: policy_engine opa_authz
  "\<lambda>doc. authz_allow (authz_input_of doc)" "\<lambda>doc. authz_require_approval (authz_input_of doc)"
  by unfold_locales (auto simp: opa_authz_def authz_require_approval_def)

text \<open>The document built from a context, as the policy reads it.\<close>

lemma authz_input_of_context:
  assumes "to_opa_input ctx = Inr doc"
  shows "\<exists>env. infer_environment (ctx_arguments ctx) = Inr env \<and>
    authz_input_of doc = \<lparr>in_role = ctx_role ctx, in_tool = ctx_tool_name ctx,
      in_namespace = dict_get (ctx_arguments ctx) ''namespace'', in_environment = env\<rparr>"
  using assms by (auto simp: to_opa_input_Inr authz_input_of_def json_text_def context_environment_def)

section \<open>What the policy guarantees\<close>

lemmas authz_defs = authz_allow_def authz_require_approval_def tool_allowed_def environment_allowed_def
  namespace_allowed_def kube_system_blocked_def in_strings_def

lemma authz_unknown_role: "data_roles (in_role i) = None \<Longrightarrow> \<not> authz_allow i"
  by (simp add: authz_defs)

lemma authz_kube_system:
  "in_tool i = JStr t \<Longrightarrow> t \<in> set kube_system_blocked_tools \<Longrightarrow>
   in_namespace i = JStr ''kube-system'' \<Longrightarrow> \<not> authz_allow i"
  by (simp add: authz_defs)

lemma authz_always_approval:
  "in_tool i = JStr t \<Longrightarrow> t \<in> set always_require_approval_tools \<Longrightarrow>
   authz_allow i \<Longrightarrow> authz_require_approval i"
  by (simp add: authz_require_approval_def in_strings_def)

lemma authz_destructive_prod:
  "in_tool i = JStr t \<Longrightarrow> t \<in> set destructive_tools \<Longrightarrow> in_environment i = ''prod'' \<Longrightarrow>
   authz_allow i \<Longrightarrow> authz_require_approval i"
  by (simp add: authz_require_approval_def in_strings_def)

lemma authz_allow_tool:
  "authz_allow i \<Longrightarrow> \<exists>c t. data_roles (in_role i) = Some c \<and> in_tool i = JStr t \<and> t \<in> set (rc_tools c)"
  by (auto simp: authz_defs split: option.splits json.splits)

end
