(* ===== verification/Json_Text.thy ===== *)
theory Json_Text
  imports PyValues
begin

text \<open>
  \<open>json.loads\<close>: the scanner of Python's \<open>json\<close> module as a recursive descent over the
  text, and the round trip with \<open>json.dumps\<close> that the approval store (which keeps its records
  as JSON text in Redis) rests on.  \<open>fp\<close> reads the text of a float.  The parser carries fuel;
  the length of the text is enough, because every call consumes a character.  An escape beyond
  code point 255 is outside the string model and is rejected.
\<close>

section \<open>Tokens\<close>

definition is_ws :: "char \<Rightarrow> bool" where
  "is_ws c \<longleftrightarrow> code c \<in> {9, 10, 13, 32}"

definition skip_ws :: "string \<Rightarrow> string" where
  "skip_ws = dropWhile is_ws"

definition hex_val :: "char \<Rightarrow> nat option" where
  "hex_val c =
     (let n = code c in
      if 48 \<le> n \<and> n \<le> 57 then Some (n - 48)
      else if 97 \<le> n \<and> n \<le> 102 then Some (n - 87)
      else if 65 \<le> n \<and> n \<le> 70 then Some (n - 55) else None)"

fun hex4 :: "char \<Rightarrow> char \<Rightarrow> char \<Rightarrow> char \<Rightarrow> nat option" where
  "hex4 a b c d =
     (case (hex_val a, hex_val b, hex_val c, hex_val d) of
        (Some w, Some x, Some y, Some z) \<Rightarrow> Some (((w * 16 + x) * 16 + y) * 16 + z)
      | _ \<Rightarrow> None)"

definition simple_escape :: "char \<Rightarrow> char option" where
  "simple_escape c =
     (let n = code c in
      if n \<in> {34, 92, 47} then Some c
      else if n = 98 then Some (char_of (8 :: nat)) else if n = 102 then Some (char_of (12 :: nat))
      else if n = 110 then Some (char_of (10 :: nat)) else if n = 114 then Some (char_of (13 :: nat))
      else if n = 116 then Some (char_of (9 :: nat)) else None)"

text \<open>The body of a string literal, after its opening quote.\<close>

fun parse_str :: "string \<Rightarrow> (string \<times> string) option" where
  "parse_str [] = None"
| "parse_str (c # cs) =
     (if code c = 34 then Some ([], cs)
      else if code c = 92 then
        (case cs of
           [] \<Rightarrow> None
         | e # es \<Rightarrow>
             if code e = 117 then
               (case es of
                  w # x # y # z # rest \<Rightarrow>
                    (case hex4 w x y z of
                       Some n \<Rightarrow> if n < 256 then map_option (apfst (Cons (char_of n))) (parse_str rest) else None
                     | None \<Rightarrow> None)
                | _ \<Rightarrow> None)
             else (case simple_escape e of
                     Some d \<Rightarrow> map_option (apfst (Cons d)) (parse_str es)
                   | None \<Rightarrow> None))
      else if code c < 32 then None
      else map_option (apfst (Cons c)) (parse_str cs))"

text \<open>The number pattern: integer part, optional fraction, optional exponent.\<close>

definition scan_unsigned :: "string \<Rightarrow> string \<Rightarrow> (string \<times> string) option" where
  "scan_unsigned sg t =
     (case t of
        [] \<Rightarrow> None
      | c # cs \<Rightarrow>
          if c = CHR ''0'' then Some (sg @ [c], cs)
          else if is_digit c then Some (sg @ takeWhile is_digit t, dropWhile is_digit t)
          else None)"

definition scan_int :: "string \<Rightarrow> (string \<times> string) option" where
  "scan_int s =
     (case s of
        c # cs \<Rightarrow> if c = CHR ''-'' then scan_unsigned [c] cs else scan_unsigned [] s
      | [] \<Rightarrow> None)"

definition scan_frac :: "string \<Rightarrow> string \<times> string" where
  "scan_frac s =
     (case s of
        c # d # cs \<Rightarrow>
          (if c = CHR ''.'' \<and> is_digit d
           then (c # takeWhile is_digit (d # cs), dropWhile is_digit (d # cs)) else ([], s))
      | _ \<Rightarrow> ([], s))"

definition scan_exp :: "string \<Rightarrow> string \<times> string" where
  "scan_exp s =
     (case s of
        c # cs \<Rightarrow>
          (if c = CHR ''e'' \<or> c = CHR ''E'' then
             (let (sg, ds) = (case cs of x # xs \<Rightarrow> if x = CHR ''+'' \<or> x = CHR ''-'' then ([x], xs) else ([], cs)
                                       | [] \<Rightarrow> ([], []))
              in if takeWhile is_digit ds \<noteq> []
                 then (c # sg @ takeWhile is_digit ds, dropWhile is_digit ds) else ([], s))
           else ([], s))
      | [] \<Rightarrow> ([], []))"

text \<open>Is it a float, its text, and what follows.\<close>

definition scan_number :: "string \<Rightarrow> (bool \<times> string \<times> string) option" where
  "scan_number s =
     (case scan_int s of
        None \<Rightarrow> None
      | Some (i, r1) \<Rightarrow>
          (let (f, r2) = scan_frac r1; (e, r3) = scan_exp r2
           in Some (f \<noteq> [] \<or> e \<noteq> [], i @ f @ e, r3)))"

definition int_of_token :: "string \<Rightarrow> int" where
  "int_of_token s = (case py_int s of Some i \<Rightarrow> i | None \<Rightarrow> 0)"

definition parse_number :: "(string \<Rightarrow> rat) \<Rightarrow> string \<Rightarrow> (json \<times> string) option" where
  "parse_number fp s =
     (case scan_number s of
        None \<Rightarrow> None
      | Some (True, tok, r) \<Rightarrow> Some (JFloat (Fin (fp tok)), r)
      | Some (False, tok, r) \<Rightarrow> map_option (\<lambda>i. (JInt i, r)) (py_int tok))"

text \<open>A literal word at the start of the text.\<close>

definition word :: "string \<Rightarrow> json \<Rightarrow> string \<Rightarrow> (json \<times> string) option" where
  "word w v s = (if startswith s w then Some (v, drop (length w) s) else None)"

definition parse_atom :: "(string \<Rightarrow> rat) \<Rightarrow> string \<Rightarrow> (json \<times> string) option" where
  "parse_atom fp s =
     (case word ''null'' JNull s of Some r \<Rightarrow> Some r | None \<Rightarrow>
     (case word ''true'' (JBool True) s of Some r \<Rightarrow> Some r | None \<Rightarrow>
     (case word ''false'' (JBool False) s of Some r \<Rightarrow> Some r | None \<Rightarrow>
     (case parse_number fp s of Some r \<Rightarrow> Some r | None \<Rightarrow>
     (case word ''NaN'' (JFloat NaN) s of Some r \<Rightarrow> Some r | None \<Rightarrow>
     (case word ''Infinity'' (JFloat PosInf) s of Some r \<Rightarrow> Some r | None \<Rightarrow>
      word ''-Infinity'' (JFloat NegInf) s))))))"

section \<open>Values\<close>

text \<open>
  \<open>parse_elems\<close> reads elements up to the closing bracket, \<open>parse_members\<close> members up to the
  closing brace (a repeated key overwrites, as in a dict).
\<close>

fun parse_value :: "(string \<Rightarrow> rat) \<Rightarrow> nat \<Rightarrow> string \<Rightarrow> (json \<times> string) option"
  and parse_elems :: "(string \<Rightarrow> rat) \<Rightarrow> nat \<Rightarrow> string \<Rightarrow> (json list \<times> string) option"
  and parse_members :: "(string \<Rightarrow> rat) \<Rightarrow> nat \<Rightarrow> string \<Rightarrow> (dict \<times> string) option" where
  "parse_value fp 0 s = None"
| "parse_value fp (Suc n) s =
     (case s of
        [] \<Rightarrow> None
      | c # cs \<Rightarrow>
          if code c = 34 then map_option (apfst JStr) (parse_str cs)
          else if code c = 91 then
            (case skip_ws cs of
               [] \<Rightarrow> None
             | d # ds \<Rightarrow> if code d = 93 then Some (JList [], ds)
                         else map_option (apfst JList) (parse_elems fp n (d # ds)))
          else if code c = 123 then
            (case skip_ws cs of
               [] \<Rightarrow> None
             | d # ds \<Rightarrow> if code d = 125 then Some (JObj [], ds)
                         else map_option (apfst (\<lambda>kvs. JObj (fold (\<lambda>(k, v). dict_set k v) kvs [])))
                                (parse_members fp n (d # ds)))
          else parse_atom fp s)"
| "parse_elems fp 0 s = None"
| "parse_elems fp (Suc n) s =
     (case parse_value fp n s of
        None \<Rightarrow> None
      | Some (v, r) \<Rightarrow>
          (case skip_ws r of
             [] \<Rightarrow> None
           | c # cs \<Rightarrow> if code c = 93 then Some ([v], cs)
                       else if code c = 44 then map_option (apfst (Cons v)) (parse_elems fp n (skip_ws cs))
                       else None))"
| "parse_members fp 0 s = None"
| "parse_members fp (Suc n) s =
     (case s of
        [] \<Rightarrow> None
      | c # cs \<Rightarrow>
          if code c \<noteq> 34 then None
          else (case parse_str cs of
                  None \<Rightarrow> None
                | Some (k, r) \<Rightarrow>
                    (case skip_ws r of
                       [] \<Rightarrow> None
                     | d # ds \<Rightarrow>
                         if code d \<noteq> 58 then None
                         else (case parse_value fp n (skip_ws ds) of
                                 None \<Rightarrow> None
                               | Some (v, r') \<Rightarrow>
                                   (case skip_ws r' of
                                      [] \<Rightarrow> None
                                    | e # es \<Rightarrow>
                                        if code e = 125 then Some ([(k, v)], es)
                                        else if code e = 44
                                        then map_option (apfst (Cons (k, v))) (parse_members fp n (skip_ws es))
                                        else None)))))"

definition json_loads :: "(string \<Rightarrow> rat) \<Rightarrow> string \<Rightarrow> json option" where
  "json_loads fp s =
     (case parse_value fp (Suc (length s)) (skip_ws s) of
        Some (v, r) \<Rightarrow> if skip_ws r = [] then Some v else None
      | None \<Rightarrow> None)"

section \<open>The round trip\<close>

text \<open>What may follow a value without being read as part of a number.\<close>

definition boundary :: "string \<Rightarrow> bool" where
  "boundary s \<longleftrightarrow> (case s of [] \<Rightarrow> True | c # _ \<Rightarrow> \<not> is_digit c \<and> c \<notin> {CHR ''.'', CHR ''e'', CHR ''E''})"

definition is_float_text :: "string \<Rightarrow> bool" where
  "is_float_text s \<longleftrightarrow> scan_number s = Some (True, s, [])"

text \<open>
  The values whose text reads back: distinct keys, integers within the digit limit of \<open>int()\<close>,
  floats whose text is a float literal that \<open>fp\<close> reads as the same number.
\<close>

fun dumpable :: "(rat \<Rightarrow> string) \<Rightarrow> (string \<Rightarrow> rat) \<Rightarrow> json \<Rightarrow> bool" where
  "dumpable fr fp (JInt i) = (length (string_of_int i) \<le> INT_MAX_STR_DIGITS)"
| "dumpable fr fp (JFloat (Fin r)) = (is_float_text (fr r) \<and> fp (fr r) = r)"
| "dumpable fr fp (JList xs) = (\<forall>x \<in> set xs. dumpable fr fp x)"
| "dumpable fr fp (JObj kvs) = (distinct (map fst kvs) \<and> (\<forall>kv \<in> set kvs. dumpable fr fp (snd kv)))"
| "dumpable fr fp _ = True"

subsection \<open>Strings\<close>

lemma hex_val_digit: "m < 16 \<Longrightarrow> hex_val (hex_digit m) = Some m"
  by (auto simp: hex_val_def hex_digit_def)

lemma hex_pad_4:
  "hex_pad 4 n = [hex_digit (n div 4096 mod 16), hex_digit (n div 256 mod 16),
                  hex_digit (n div 16 mod 16), hex_digit (n mod 16)]"
  by (simp add: hex_pad_def upt_rec)

lemma hex4_pad:
  assumes "n < 256"
  shows "hex4 (hex_digit (n div 4096 mod 16)) (hex_digit (n div 256 mod 16))
      (hex_digit (n div 16 mod 16)) (hex_digit (n mod 16)) = Some n"
proof -
  have "n div 4096 = 0" "n div 256 = 0" "n div 16 mod 16 = n div 16" using assms by simp_all
  moreover have "n div 16 < 16" using assms by simp
  ultimately show ?thesis by (simp add: hex_val_digit)
qed

lemma code_less [simp]: "code c < 256"
  by (rule nat_of_char_less_256)

lemma parse_str_char: "parse_str (json_char c @ s) = map_option (apfst (Cons c)) (parse_str s)"
proof -
  have esc: "char_of (code c) = c" by simp
  consider "code c \<in> {34, 92, 8, 9, 10, 12, 13}" | "32 \<le> code c \<and> code c < 127 \<and> code c \<notin> {34, 92}"
    | "\<not> (32 \<le> code c \<and> code c < 127)" "code c \<notin> {8, 9, 10, 12, 13}" by force
  then show ?thesis
  proof cases
    case 1
    moreover have "c = char_of n" if "code c = n" for n using that esc by metis
    ultimately show ?thesis
      by (elim insertE emptyE) (auto simp: json_char_def Let_def simple_escape_def)
  next
    case 2
    then show ?thesis by (auto simp: json_char_def Let_def)
  next
    case 3
    obtain h1 h2 h3 h4 where h: "hex_pad 4 (code c) = [h1, h2, h3, h4]" "hex4 h1 h2 h3 h4 = Some (code c)"
      using hex_pad_4 hex4_pad [OF code_less] by blast
    have "json_char c = [CHR 0x5C, CHR ''u'', h1, h2, h3, h4]"
      using 3 h(1) by (auto simp: json_char_def Let_def)
    with h(2) show ?thesis by (simp del: hex4.simps)
  qed
qed

lemma parse_str_string: "parse_str (concat (map json_char s) @ CHR 0x22 # rest) = Some (s, rest)"
  by (induction s) (simp_all add: parse_str_char)

subsection \<open>Numbers\<close>

lemma boundary_simps [simp]:
  "boundary []" "boundary (c # s) \<longleftrightarrow> \<not> is_digit c \<and> c \<notin> {CHR ''.'', CHR ''e'', CHR ''E''}"
  by (simp_all add: boundary_def)

lemma boundary_ne_digit: "boundary s \<Longrightarrow> s = [] \<or> \<not> is_digit (hd s)"
  by (cases s) auto

lemma takeWhile_boundary:
  "(\<And>c. c \<in> set ds \<Longrightarrow> is_digit c) \<Longrightarrow> s = [] \<or> \<not> is_digit (hd s) \<Longrightarrow>
   takeWhile is_digit (ds @ s) = ds \<and> dropWhile is_digit (ds @ s) = s"
  by (cases s) auto

lemma string_of_nat_hd: "string_of_nat n = [CHR ''0''] \<or> hd (string_of_nat n) \<noteq> CHR ''0''"
proof (induction n rule: string_of_nat.induct)
  case (1 n)
  show ?case
  proof (cases "n < 10")
    case True
    then have "n \<in> {0, 1, 2, 3, 4, 5, 6, 7, 8, 9}" by auto
    then show ?thesis by (auto simp: string_of_nat.simps [of n] digit_char_def)
  next
    case False
    have "string_of_nat (n div 10) \<noteq> [CHR ''0'']"
    proof
      assume "string_of_nat (n div 10) = [CHR ''0'']"
      then have "Some (n div 10) = scan_digits False 0 [CHR ''0'']"
        by (metis scan_digits_string_of_nat)
      with False show False by (simp add: is_digit_def digit_val_def)
    qed
    with 1 False show ?thesis by (subst (1 2) string_of_nat.simps) (simp add: hd_append)
  qed
qed

lemma scan_int_nat:
  assumes "boundary s"
  shows "scan_int (string_of_nat n @ s) = Some (string_of_nat n, s)"
    "scan_int (CHR ''-'' # string_of_nat n @ s) = Some (CHR ''-'' # string_of_nat n, s)"
proof -
  obtain c cs where c: "string_of_nat n = c # cs" by (cases "string_of_nat n") auto
  have digits: "is_digit d" if "d \<in> set (c # cs)" for d
    using string_of_nat_digits [of d n] that c by simp
  have dg: "is_digit c" by (rule digits) simp
  then have mn: "c \<noteq> CHR ''-''" by (auto simp: is_digit_def)
  have split: "takeWhile is_digit (cs @ s) = cs \<and> dropWhile is_digit (cs @ s) = s"
    using takeWhile_boundary [of cs s] digits boundary_ne_digit [OF assms] by auto
  have zero: "c = CHR ''0'' \<Longrightarrow> cs = []" using string_of_nat_hd [of n] c by auto
  have "scan_int (c # cs @ s) = Some (c # cs, s) \<and> scan_int (CHR ''-'' # c # cs @ s) = Some (CHR ''-'' # c # cs, s)"
  proof (cases "c = CHR ''0''")
    case True
    with zero show ?thesis by (simp add: scan_int_def scan_unsigned_def)
  next
    case False
    with dg mn split show ?thesis by (simp add: scan_int_def scan_unsigned_def)
  qed
  then show "scan_int (string_of_nat n @ s) = Some (string_of_nat n, s)"
    "scan_int (CHR ''-'' # string_of_nat n @ s) = Some (CHR ''-'' # string_of_nat n, s)"
    by (simp_all add: c)
qed

lemma scan_int_string_of_int:
  "boundary s \<Longrightarrow> scan_int (string_of_int i @ s) = Some (string_of_int i, s)"
  by (simp add: string_of_int_def scan_int_nat)

lemma scan_tail_boundary: "boundary s \<Longrightarrow> scan_frac s = ([], s)" "boundary s \<Longrightarrow> scan_exp s = ([], s)"
  by (auto simp: scan_frac_def scan_exp_def split: list.splits)

lemma strip_by_no_space: "(\<And>c. c \<in> set s \<Longrightarrow> \<not> p c) \<Longrightarrow> strip_by p s = s"
proof -
  assume s: "\<And>c. c \<in> set s \<Longrightarrow> \<not> p c"
  have "dropWhile p t = t" if "set t \<subseteq> set s" for t using that s by (cases t) auto
  then show ?thesis by (simp add: strip_by_def)
qed

lemma filter_digits: "(\<And>c. c \<in> set s \<Longrightarrow> is_digit c) \<Longrightarrow> filter is_digit s = s"
  by (induction s) auto

lemma digit_not_space: "is_digit c \<Longrightarrow> \<not> num_isspace c"
  by (auto simp: is_digit_def num_isspace_def)

lemma py_int_string_of_int:
  assumes "length (string_of_int i) \<le> INT_MAX_STR_DIGITS"
  shows "py_int (string_of_int i) = Some i"
proof -
  let ?n = "nat \<bar>i\<bar>"
  have dg: "\<And>c. c \<in> set (string_of_nat ?n) \<Longrightarrow> is_digit c" by (rule string_of_nat_digits)
  obtain c cs where c: "string_of_nat ?n = c # cs" by (cases "string_of_nat ?n") auto
  have "is_digit c" using dg c by simp
  then have ns: "c \<noteq> CHR ''+''" "c \<noteq> CHR ''-''" by (auto simp: is_digit_def)
  have "\<not> num_isspace x" if "x \<in> set (string_of_int i)" for x
    using that dg digit_not_space
    by (auto simp: string_of_int_def num_isspace_def split: if_splits)
  then have strip: "strip_by num_isspace (string_of_int i) = string_of_int i" by (rule strip_by_no_space)
  show ?thesis
    using assms scan_digits_string_of_nat [of ?n] filter_digits [OF dg] c ns
    unfolding py_int_def Let_def strip
    by (cases "i < 0") (auto simp: string_of_int_def)
qed

lemma parse_number_int:
  assumes "boundary s" "length (string_of_int i) \<le> INT_MAX_STR_DIGITS"
  shows "parse_number fp (string_of_int i @ s) = Some (JInt i, s)"
  using assms
  by (simp add: parse_number_def scan_number_def scan_int_string_of_int scan_tail_boundary
      py_int_string_of_int)

lemma dropWhile_append_boundary:
  assumes "boundary t"
  shows "takeWhile is_digit (xs @ t) = takeWhile is_digit xs"
    "dropWhile is_digit (xs @ t) = dropWhile is_digit xs @ t"
proof -
  have "takeWhile is_digit t = [] \<and> dropWhile is_digit t = t" using assms by (cases t) auto
  then show "takeWhile is_digit (xs @ t) = takeWhile is_digit xs"
    "dropWhile is_digit (xs @ t) = dropWhile is_digit xs @ t"
    by (induction xs) auto
qed

lemma scan_int_append:
  assumes "scan_int s = Some (i, r)" "boundary t"
  shows "scan_int (s @ t) = Some (i, r @ t)"
proof -
  have tail: "scan_unsigned sg u = Some (i, r) \<Longrightarrow> scan_unsigned sg (u @ t) = Some (i, r @ t)" for sg u
    by (cases u)
      (auto simp: scan_unsigned_def dropWhile_append_boundary [OF assms(2)] split: if_splits)
  show ?thesis
  proof (cases s)
    case (Cons c cs)
    with assms(1) tail [of "[c]" cs] tail [of "[]" s] show ?thesis
      by (auto simp: scan_int_def split: if_splits)
  qed (use assms(1) in \<open>simp add: scan_int_def\<close>)
qed

lemma scan_frac_append:
  assumes "scan_frac s = (f, r)" "boundary t"
  shows "scan_frac (s @ t) = (f, r @ t)"
proof (cases s)
  case Nil
  with assms show ?thesis using scan_tail_boundary(1) [OF assms(2)] by (simp add: scan_frac_def)
next
  case (Cons c cs)
  show ?thesis
  proof (cases cs)
    case Nil
    with assms Cons show ?thesis by (cases t) (auto simp: scan_frac_def)
  next
    case (Cons d ds)
    with assms(1) \<open>s = c # cs\<close> show ?thesis
      using dropWhile_append_boundary [OF assms(2), of ds]
      by (auto simp: scan_frac_def split: if_splits)
  qed
qed

lemma scan_exp_append:
  assumes "scan_exp s = (e, [])" "boundary t"
  shows "scan_exp (s @ t) = (e, t)"
proof (cases s)
  case Nil
  with assms show ?thesis using scan_tail_boundary(2) [OF assms(2)] by (simp add: scan_exp_def)
next
  case (Cons c cs)
  with assms(1) have c: "c = CHR ''e'' \<or> c = CHR ''E''" by (auto simp: scan_exp_def split: if_splits)
  from assms(1) c Cons have ne: "cs \<noteq> []" by (auto simp: scan_exp_def)
  then obtain x xs where cs: "cs = x # xs" by (cases cs) auto
  show ?thesis
    using assms(1) c Cons cs dropWhile_append_boundary [OF assms(2), of xs]
      dropWhile_append_boundary [OF assms(2), of cs]
    by (auto simp: scan_exp_def Let_def split: if_splits)
qed

lemma parse_number_float:
  assumes "is_float_text s" "boundary t"
  shows "parse_number fp (s @ t) = Some (JFloat (Fin (fp s)), t)"
proof -
  from assms(1) obtain i r1 f r2 e where
    "scan_int s = Some (i, r1)" "scan_frac r1 = (f, r2)" "scan_exp r2 = (e, [])"
    "f \<noteq> [] \<or> e \<noteq> []" "s = i @ f @ e"
    by (auto simp: is_float_text_def scan_number_def split: option.splits prod.splits)
  moreover from this have "scan_int (s @ t) = Some (i, r1 @ t)" "scan_frac (r1 @ t) = (f, r2 @ t)"
    "scan_exp (r2 @ t) = (e, t)"
    by (simp_all add: scan_int_append scan_frac_append scan_exp_append assms(2) del: append_assoc)
  ultimately have "scan_number (s @ t) = Some (True, s, t)"
    unfolding scan_number_def by (simp del: append_assoc)
  then show ?thesis by (simp add: parse_number_def)
qed

text \<open>A number starts with a digit or a minus sign, so no literal word matches it.\<close>

lemma scan_int_hd:
  "scan_int s = Some (i, r) \<Longrightarrow> \<exists>c cs. s = c # cs \<and> (is_digit c \<or> c = CHR ''-'')"
  by (cases s) (auto simp: scan_int_def scan_unsigned_def is_digit_def split: if_splits list.splits)

lemma parse_number_hd:
  assumes "parse_number fp s = Some (v, r)"
  obtains c cs where "s = c # cs" "is_digit c \<or> c = CHR ''-''"
proof -
  from assms obtain i r1 where "scan_int s = Some (i, r1)"
    by (auto simp: parse_number_def scan_number_def split: option.splits prod.splits)
  then show thesis using scan_int_hd that by blast
qed

lemma parse_value_number:
  assumes "parse_number fp s = Some (v, r)"
  shows "parse_value fp (Suc n) s = Some (v, r)"
proof -
  from assms obtain c cs where s: "s = c # cs" and c: "is_digit c \<or> c = CHR ''-''"
    by (rule parse_number_hd)
  then have "code c \<notin> {34, 91, 123}" "c \<notin> {CHR ''n'', CHR ''t'', CHR ''f''}"
    by (auto simp: is_digit_def)
  with assms s show ?thesis by (auto simp: parse_atom_def word_def)
qed

subsection \<open>Values\<close>

fun need :: "json \<Rightarrow> nat" where
  "need (JList xs) = Suc (sum_list (map (\<lambda>x. Suc (need x)) xs))"
| "need (JObj kvs) = Suc (sum_list (map (\<lambda>kv. Suc (need (snd kv))) kvs))"
| "need _ = 1"

lemma need_pos: "0 < need v"
  by (cases v) simp_all

lemma is_float_text_hd:
  "is_float_text s \<Longrightarrow> \<exists>c cs. s = c # cs \<and> (is_digit c \<or> c = CHR ''-'')"
  using scan_int_hd by (auto simp: is_float_text_def scan_number_def split: option.splits)

definition value_start :: "string \<Rightarrow> bool" where
  "value_start s \<longleftrightarrow> (case s of [] \<Rightarrow> False | c # _ \<Rightarrow> \<not> is_ws c \<and> code c \<noteq> 93 \<and> code c \<noteq> 125)"

lemma value_start_number: "is_digit c \<or> c = CHR ''-'' \<Longrightarrow> value_start (c # cs)"
  by (auto simp: value_start_def is_ws_def is_digit_def)

lemma skip_ws_value_start: "value_start s \<Longrightarrow> skip_ws (s @ t) = s @ t"
  by (cases s) (auto simp: value_start_def skip_ws_def)

lemma value_start_dumps:
  assumes "dumpable fr fp v"
  shows "value_start (json_dumps fr srt v)"
proof (cases v)
  case (JInt i)
  obtain c cs where "string_of_nat (nat \<bar>i\<bar>) = c # cs" by (cases "string_of_nat (nat \<bar>i\<bar>)") auto
  moreover from this have "is_digit c" by (metis list.set_intros(1) string_of_nat_digits)
  ultimately show ?thesis
    using value_start_number [of c cs] value_start_number [of "CHR ''-''" "c # cs"]
    by (cases "i < 0") (auto simp: JInt string_of_int_def)
next
  case (JFloat x)
  show ?thesis
  proof (cases x)
    case (Fin r)
    with assms JFloat have "is_float_text (fr r)" by simp
    then show ?thesis using is_float_text_hd value_start_number by (fastforce simp: JFloat Fin)
  qed (simp_all add: JFloat value_start_def is_ws_def)
qed (simp_all add: value_start_def is_ws_def json_string_def Let_def)

lemma skip_ws_sep: "value_start s \<Longrightarrow> skip_ws (CHR '' '' # s @ t) = s @ t"
  using skip_ws_value_start [of s t] by (simp add: skip_ws_def is_ws_def)

lemma skip_ws_Cons: "\<not> is_ws c \<Longrightarrow> skip_ws (c # s) = c # s"
  by (simp add: skip_ws_def)

lemma value_start_join:
  "value_start x \<Longrightarrow> value_start (join sep (x # xs))"
  by (cases xs; cases x) (auto simp: value_start_def)

lemma parse_elems_dumps:
  assumes "\<And>x n rest. x \<in> set xs \<Longrightarrow> need x \<le> n \<Longrightarrow> boundary rest \<Longrightarrow>
      parse_value fp n (d x @ rest) = Some (x, rest)"
    and "\<And>x. x \<in> set xs \<Longrightarrow> value_start (d x)"
    and "xs \<noteq> []" "sum_list (map (\<lambda>x. Suc (need x)) xs) \<le> n"
  shows "parse_elems fp n (join '', '' (map d xs) @ CHR '']'' # rest) = Some (xs, rest)"
  using assms
proof (induction xs arbitrary: n)
  case (Cons x xs)
  then obtain m where m: "n = Suc m" "need x \<le> m" by (cases n) auto
  show ?case
  proof (cases xs)
    case Nil
    then show ?thesis
      using Cons.prems(1) [of x m "CHR '']'' # rest"] m
      by (simp add: skip_ws_def is_ws_def is_digit_def)
  next
    case (Cons y ys)
    let ?t = "join '', '' (map d xs)"
    have vs: "value_start ?t" using Cons.prems(2) [of y] value_start_join by (simp add: Cons)
    have "parse_value fp m (d x @ '', '' @ ?t @ CHR '']'' # rest) = Some (x, '', '' @ ?t @ CHR '']'' # rest)"
      using Cons.prems(1) [of x m] m(2) by (simp add: is_digit_def)
    moreover have "parse_elems fp m (?t @ CHR '']'' # rest) = Some (xs, rest)"
      using Cons.IH [of m] Cons.prems m by (simp add: Cons)
    ultimately show ?thesis
      using skip_ws_sep [OF vs] by (simp add: m Cons join_Cons skip_ws_Cons is_ws_def)
  qed
qed simp

lemma parse_members_dumps:
  assumes "\<And>kv n rest. kv \<in> set kvs \<Longrightarrow> need (snd kv) \<le> n \<Longrightarrow> boundary rest \<Longrightarrow>
      parse_value fp n (d (snd kv) @ rest) = Some (snd kv, rest)"
    and "\<And>kv. kv \<in> set kvs \<Longrightarrow> value_start (d (snd kv))"
    and "kvs \<noteq> []" "sum_list (map (\<lambda>kv. Suc (need (snd kv))) kvs) \<le> n"
  shows "parse_members fp n (join '', '' (map (\<lambda>kv. json_string (fst kv) @ '': '' @ d (snd kv)) kvs)
            @ CHR ''}'' # rest) = Some (kvs, rest)"
  using assms
proof (induction kvs arbitrary: n)
  case (Cons kv kvs)
  then obtain m where m: "n = Suc m" "need (snd kv) \<le> m" by (cases n) auto
  obtain k v where kv: "kv = (k, v)" by fastforce
  let ?item = "\<lambda>kv. json_string (fst kv) @ '': '' @ d (snd kv)"
  have sep: "skip_ws (CHR '' '' # d v @ t) = d v @ t" for t
    using skip_ws_sep Cons.prems(2) [of kv] by (simp add: kv)
  show ?case
  proof (cases kvs)
    case Nil
    then show ?thesis
      using Cons.prems(1) [of kv m "CHR ''}'' # rest"] m
      by (simp add: kv sep skip_ws_Cons is_ws_def is_digit_def json_string_def parse_str_string)
  next
    case (Cons y ys)
    let ?t = "join '', '' (map ?item kvs)"
    have vs: "value_start ?t"
      unfolding Cons list.map by (rule value_start_join) (simp add: value_start_def json_string_def is_ws_def)
    have "parse_value fp m (d v @ '', '' @ ?t @ CHR ''}'' # rest) = Some (v, '', '' @ ?t @ CHR ''}'' # rest)"
      using Cons.prems(1) [of kv m] m(2) by (simp add: kv is_digit_def)
    moreover have "parse_members fp m (?t @ CHR ''}'' # rest) = Some (kvs, rest)"
      using Cons.IH [of m] Cons.prems m by (simp add: Cons)
    ultimately show ?thesis
      using skip_ws_sep [OF vs]
      by (simp add: m kv Cons sep join_Cons skip_ws_Cons is_ws_def json_string_def parse_str_string)
  qed
qed simp

lemma fold_dict_set_distinct:
  "distinct (map fst kvs) \<Longrightarrow> set (map fst acc) \<inter> set (map fst kvs) = {} \<Longrightarrow>
   fold (\<lambda>(k, v). dict_set k v) kvs acc = acc @ kvs"
proof (induction kvs arbitrary: acc)
  case (Cons kv kvs)
  obtain k v where kv: "kv = (k, v)" by fastforce
  have "dict_set k v acc = acc @ [(k, v)]"
    using Cons.prems(2) by (induction acc) (auto simp: kv)
  then show ?case using Cons.prems by (subst list.simps fold_simps)+ (auto simp: kv Cons.IH)
qed simp

lemma parse_dumps:
  "dumpable fr fp v \<Longrightarrow> need v \<le> n \<Longrightarrow> boundary rest \<Longrightarrow>
   parse_value fp n (json_dumps fr False v @ rest) = Some (v, rest)"
proof (induction v arbitrary: n rest)
  case (JInt i)
  then obtain m where "n = Suc m" by (cases n) auto
  with JInt show ?case by (simp add: parse_number_int parse_value_number del: parse_value.simps)
next
  case (JFloat x)
  then obtain m where n: "n = Suc m" by (cases n) auto
  show ?case
  proof (cases x)
    case (Fin r)
    with JFloat parse_number_float [of "fr r" rest fp] show ?thesis
      by (simp add: n Fin parse_value_number del: parse_value.simps)
  qed (auto simp: n parse_atom_def word_def parse_number_def scan_number_def scan_int_def
      scan_unsigned_def is_digit_def)
next
  case (JStr s)
  then obtain m where "n = Suc m" by (cases n) auto
  then show ?case by (simp add: json_string_def parse_str_string)
next
  case (JList xs)
  then obtain m where n: "n = Suc m" "sum_list (map (\<lambda>x. Suc (need x)) xs) \<le> m" by (cases n) auto
  show ?case
  proof (cases xs)
    case Nil
    then show ?thesis by (simp add: n skip_ws_def is_ws_def)
  next
    case (Cons y ys)
    let ?t = "join '', '' (map (json_dumps fr False) xs)"
    have "parse_elems fp m (?t @ CHR '']'' # rest) = Some (xs, rest)"
      by (rule parse_elems_dumps) (use JList n Cons in \<open>auto intro: value_start_dumps\<close>)
    moreover have "value_start ?t"
      unfolding Cons list.map using JList.prems
      by (intro value_start_join value_start_dumps [of fr fp]) (simp add: Cons)
    ultimately show ?thesis
      using skip_ws_value_start [of ?t "CHR '']'' # rest"]
      by (cases ?t) (auto simp: n value_start_def)
  qed
next
  case (JObj kvs)
  then obtain m where n: "n = Suc m" "sum_list (map (\<lambda>kv. Suc (need (snd kv))) kvs) \<le> m"
    by (cases n) auto
  let ?item = "\<lambda>kv. json_string (fst kv) @ '': '' @ json_dumps fr False (snd kv)"
  have obj: "json_dumps fr False (JObj kvs) = CHR ''{'' # join '', '' (map ?item kvs) @ ''}''"
    by (simp add: comp_def)
  show ?case
  proof (cases kvs)
    case Nil
    then show ?thesis by (simp add: n skip_ws_def is_ws_def)
  next
    case (Cons y ys)
    let ?t = "join '', '' (map ?item kvs)"
    have "parse_members fp m (?t @ CHR ''}'' # rest) = Some (kvs, rest)"
    proof (rule parse_members_dumps)
      fix kv n rest
      assume "kv \<in> set kvs" "need (snd kv) \<le> n" "boundary rest"
      then show "parse_value fp n (json_dumps fr False (snd kv) @ rest) = Some (snd kv, rest)"
        using JObj.IH [of kv "snd kv"] JObj.prems(1) by (simp add: snds.intros)
    next
      fix kv
      assume "kv \<in> set kvs"
      then show "value_start (json_dumps fr False (snd kv))"
        using JObj.prems(1) by (auto intro: value_start_dumps)
    qed (use n Cons in simp_all)
    moreover have "value_start ?t"
      unfolding Cons list.map by (rule value_start_join) (simp add: value_start_def json_string_def is_ws_def)
    moreover have "fold (\<lambda>(k, v). dict_set k v) kvs [] = kvs"
      using fold_dict_set_distinct [of kvs "[]"] JObj.prems(1) by simp
    ultimately show ?thesis
      using skip_ws_value_start [of ?t "CHR ''}'' # rest"]
      unfolding obj by (cases ?t) (auto simp: n value_start_def)
  qed
qed (case_tac n; simp add: parse_atom_def word_def)+

text \<open>The fuel \<open>json_loads\<close> starts with suffices: a text is at least as long as its value needs.\<close>

lemma sum_need_le:
  assumes "\<And>x. x \<in> set xs \<Longrightarrow> need (f x) \<le> length (g x)" "xs \<noteq> []" "length sep = 2"
  shows "sum_list (map (\<lambda>x. Suc (need (f x))) xs) \<le> Suc (length (join sep (map g xs)))"
  using assms
proof (induction xs)
  case (Cons x xs)
  then have "need (f x) \<le> length (g x)" by simp
  show ?case
  proof (cases "xs = []")
    case False
    then have "sum_list (map (\<lambda>x. Suc (need (f x))) xs) \<le> Suc (length (join sep (map g xs)))"
      using Cons by simp
    with False \<open>length sep = 2\<close> \<open>need (f x) \<le> length (g x)\<close> show ?thesis by (simp add: join_Cons)
  qed (use \<open>need (f x) \<le> length (g x)\<close> in simp)
qed simp

lemma need_le_length:
  "dumpable fr fp v \<Longrightarrow> need v \<le> length (json_dumps fr False v)"
proof (induction v)
  case (JList xs)
  then show ?case
    using sum_need_le [of xs "\<lambda>x. x" "json_dumps fr False" "'', ''"]
    by (cases "xs = []") (auto simp: comp_def)
next
  case (JObj kvs)
  have "need (snd kv) \<le> length (json_string (fst kv) @ '': '' @ json_dumps fr False (snd kv))"
    if "kv \<in> set kvs" for kv
  proof -
    have "need (snd kv) \<le> length (json_dumps fr False (snd kv))"
      using JObj that by (auto simp: snds.simps)
    then show ?thesis by simp
  qed
  then show ?case
    using sum_need_le [of kvs snd "\<lambda>kv. json_string (fst kv) @ '': '' @ json_dumps fr False (snd kv)" "'', ''"]
    by (cases "kvs = []") (auto simp: comp_def)
next
  case (JFloat x)
  then show ?case using is_float_text_hd [of "fr (case x of Fin r \<Rightarrow> r)"] by (cases x) (auto simp: Suc_le_eq)
next
  case (JInt i)
  then show ?case by (auto simp: string_of_int_def Suc_le_eq)
qed (auto simp: json_string_def)

text \<open>
  \<open>json.loads(json.dumps(v)) == v\<close> for every value with distinct keys, integers within
  the digit limit and floats whose text reads back: a record stored as JSON text is the record
  read back.
\<close>

lemma json_round_trip:
  assumes "dumpable fr fp v"
  shows "json_loads fp (json_dumps fr False v) = Some v"
proof -
  let ?s = "json_dumps fr False v"
  have "skip_ws ?s = ?s" using skip_ws_value_start [OF value_start_dumps [OF assms], of False "[]"] by simp
  moreover have "parse_value fp (Suc (length ?s)) (?s @ []) = Some (v, [])"
    by (rule parse_dumps [OF assms]) (use need_le_length [OF assms] in simp_all)
  ultimately show ?thesis by (simp add: json_loads_def skip_ws_def)
qed

text \<open>
  The text of a float with a whole value below $10^{16}$, and its reading: an instance of the
  parameters \<open>fr\<close> and \<open>fp\<close> on such values.
\<close>

definition whole_repr :: "rat \<Rightarrow> string" where
  "whole_repr r = string_of_int \<lfloor>r\<rfloor> @ ''.0''"

definition whole_read :: "string \<Rightarrow> rat" where
  "whole_read s = of_int (int_of_token (takeWhile (\<lambda>c. c \<noteq> CHR ''.'') s))"

end
