(* ===== verification/Approvals.thy ===== *)
theory Approvals
  imports Redis_Store Opa Json_Text
begin

text \<open>
  \<open>app/approvals.py\<close>: the pending-approval store.  A record lives as JSON text under
  \<open>approval:<id>\<close> with a time to live.  The operations take the Redis client, the state it acts
  on and the metrics recorded so far; a Redis failure is an exception that carries the state
  reached.  Within the contract \<open>redis_kv\<close> a run of operations one after the other never
  decides an approval twice, and decides only what was created, unchanged and unexpired.  Reading
  and writing are two steps of \<open>decide_approval\<close> with an \<open>await\<close> between them: the step
  relation at the end shows what two overlapping callbacks can do.
\<close>

section \<open>Records and their text\<close>

definition APPROVAL_TTL_SECONDS :: int where
  "APPROVAL_TTL_SECONDS = 15 * 60"

record Approval =
  ap_id :: string
  ap_agent_id :: string
  ap_role :: string
  ap_tool_name :: string
  ap_arguments :: dict
  ap_reason :: string
  ap_status :: string
  ap_requested_at :: rat
  ap_expires_at :: rat
  ap_decided_by :: "string option"
  ap_decided_at :: "rat option"

definition approval_key :: "string \<Rightarrow> string" where
  "approval_key i = ''approval:'' @ i"

text \<open>\<open>asdict(approval)\<close>.\<close>

definition approval_json :: "Approval \<Rightarrow> json" where
  "approval_json a =
     JObj [(''id'', JStr (ap_id a)), (''agent_id'', JStr (ap_agent_id a)), (''role'', JStr (ap_role a)),
           (''tool_name'', JStr (ap_tool_name a)), (''arguments'', JObj (ap_arguments a)),
           (''reason'', JStr (ap_reason a)), (''status'', JStr (ap_status a)),
           (''requested_at'', JFloat (Fin (ap_requested_at a))),
           (''expires_at'', JFloat (Fin (ap_expires_at a))),
           (''decided_by'', opt_json JStr (ap_decided_by a)),
           (''decided_at'', opt_json (\<lambda>t. JFloat (Fin t)) (ap_decided_at a))]"

text \<open>
  \<open>Approval(**d)\<close>: a missing or an unknown field raises.  A field of another type than its
  annotation, which the program never stores, has no value in the record and raises here too.
\<close>

definition approval_fields :: "string list" where
  "approval_fields =
     [''id'', ''agent_id'', ''role'', ''tool_name'', ''arguments'', ''reason'', ''status'',
      ''requested_at'', ''expires_at'', ''decided_by'', ''decided_at'']"

definition bad_approval :: exn where
  "bad_approval = PyError TypeError ''Approval.__init__() got bad arguments''"

definition field_str :: "dict \<Rightarrow> string \<Rightarrow> string result" where
  "field_str d k = (case map_of d k of Some (JStr s) \<Rightarrow> Inr s | _ \<Rightarrow> Inl bad_approval)"

definition field_dict :: "dict \<Rightarrow> string \<Rightarrow> dict result" where
  "field_dict d k = (case map_of d k of Some (JObj x) \<Rightarrow> Inr x | _ \<Rightarrow> Inl bad_approval)"

definition field_float :: "dict \<Rightarrow> string \<Rightarrow> rat result" where
  "field_float d k = (case map_of d k of Some (JFloat (Fin t)) \<Rightarrow> Inr t | _ \<Rightarrow> Inl bad_approval)"

definition field_opt :: "(dict \<Rightarrow> string \<Rightarrow> 'a result) \<Rightarrow> dict \<Rightarrow> string \<Rightarrow> 'a option result" where
  "field_opt f d k =
     (if dict_get d k = JNull then Inr None else bind_res (f d k) (\<lambda>x. Inr (Some x)))"

definition approval_of_json :: "json \<Rightarrow> Approval result" where
  "approval_of_json v =
     (case v of
        JObj d \<Rightarrow>
          if \<not> set (map fst d) \<subseteq> set approval_fields then Inl bad_approval
          else
            bind_res (field_str d ''id'') (\<lambda>i.
            bind_res (field_str d ''agent_id'') (\<lambda>ag.
            bind_res (field_str d ''role'') (\<lambda>ro.
            bind_res (field_str d ''tool_name'') (\<lambda>to.
            bind_res (field_dict d ''arguments'') (\<lambda>ar.
            bind_res (field_str d ''reason'') (\<lambda>re.
            bind_res (field_str d ''status'') (\<lambda>st.
            bind_res (field_float d ''requested_at'') (\<lambda>rq.
            bind_res (field_float d ''expires_at'') (\<lambda>ex.
            bind_res (field_opt field_str d ''decided_by'') (\<lambda>db.
            bind_res (field_opt field_float d ''decided_at'') (\<lambda>da.
              Inr \<lparr>ap_id = i, ap_agent_id = ag, ap_role = ro, ap_tool_name = to, ap_arguments = ar,
                   ap_reason = re, ap_status = st, ap_requested_at = rq, ap_expires_at = ex,
                   ap_decided_by = db, ap_decided_at = da\<rparr>)))))))))))
      | _ \<Rightarrow> Inl bad_approval)"

definition approval_text :: "(rat \<Rightarrow> string) \<Rightarrow> Approval \<Rightarrow> string" where
  "approval_text fr a = json_dumps fr False (approval_json a)"

definition read_approval :: "(string \<Rightarrow> rat) \<Rightarrow> string \<Rightarrow> Approval result" where
  "read_approval fp raw =
     (case json_loads fp raw of
        None \<Rightarrow> Inl (PyError ValueError ''invalid JSON'')
      | Some v \<Rightarrow> approval_of_json v)"

section \<open>Operations\<close>

definition redis_error :: "string \<Rightarrow> exn" where
  "redis_error m = PyError OtherError m"

definition new_approval ::
  "rat \<Rightarrow> string \<Rightarrow> string \<Rightarrow> string \<Rightarrow> string \<Rightarrow> dict \<Rightarrow> string \<Rightarrow> Approval" where
  "new_approval now uuid agent role tool args reason =
     \<lparr>ap_id = uuid, ap_agent_id = agent, ap_role = role, ap_tool_name = tool, ap_arguments = args,
      ap_reason = reason, ap_status = ''pending'', ap_requested_at = now,
      ap_expires_at = now + of_int APPROVAL_TTL_SECONDS, ap_decided_by = None, ap_decided_at = None\<rparr>"

definition create_pending_approval ::
  "'r redis_client \<Rightarrow> (rat \<Rightarrow> string) \<Rightarrow> rat \<Rightarrow> string \<Rightarrow> string \<Rightarrow> string \<Rightarrow> string \<Rightarrow> dict \<Rightarrow> string
     \<Rightarrow> 'r \<Rightarrow> metric list \<Rightarrow> Approval result \<times> 'r \<times> metric list" where
  "create_pending_approval C fr now uuid agent role tool args reason r ms =
     (let approval = new_approval now uuid agent role tool args reason in
      case set_ex C (approval_key (ap_id approval)) (approval_text fr approval) APPROVAL_TTL_SECONDS now r of
        (Inl m, r1) \<Rightarrow> (Inl (redis_error m), r1, ms)
      | (Inr _, r1) \<Rightarrow>
          (Inr approval, r1, ms @ [approval_requests_total tool, approvals_pending 1 tool]))"

definition get_approval ::
  "'r redis_client \<Rightarrow> (string \<Rightarrow> rat) \<Rightarrow> rat \<Rightarrow> string \<Rightarrow> 'r \<Rightarrow> Approval option result \<times> 'r" where
  "get_approval C fp now i r =
     (case redis_get C (approval_key i) now r of
        (Inl m, r1) \<Rightarrow> (Inl (redis_error m), r1)
      | (Inr None, r1) \<Rightarrow> (Inr None, r1)
      | (Inr (Some raw), r1) \<Rightarrow> (bind_res (read_approval fp raw) (\<lambda>a. Inr (Some a)), r1))"

datatype decide_outcome = Decided | NotFound | AlreadyDecided

text \<open>The part up to the last \<open>return approval, "not_found"\<close>: \<open>Inr a\<close> goes on.\<close>

definition decide_guard :: "rat \<Rightarrow> Approval option \<Rightarrow> (Approval option \<times> decide_outcome) + Approval" where
  "decide_guard now ao =
     (case ao of
        None \<Rightarrow> Inl (None, NotFound)
      | Some a \<Rightarrow>
          if ap_status a \<noteq> ''pending'' then Inl (Some a, AlreadyDecided)
          else if ap_expires_at a < now then Inl (Some a, NotFound)
          else Inr a)"

definition resolve :: "rat \<Rightarrow> string \<Rightarrow> string \<Rightarrow> Approval \<Rightarrow> Approval" where
  "resolve now decision decided_by a =
     a\<lparr>ap_status := if decision = ''approve'' then ''approved'' else ''denied'',
       ap_decided_by := Some decided_by, ap_decided_at := Some now\<rparr>"

text \<open>From \<open>approval.status = ...\<close> on; \<open>now\<close> is the second clock reading.\<close>

definition decide_write ::
  "'r redis_client \<Rightarrow> (rat \<Rightarrow> string) \<Rightarrow> rat \<Rightarrow> string \<Rightarrow> string \<Rightarrow> string \<Rightarrow> Approval \<Rightarrow> 'r \<Rightarrow> metric list
     \<Rightarrow> (Approval option \<times> decide_outcome) result \<times> 'r \<times> metric list" where
  "decide_write C fr now i decision decided_by a r ms =
     (let a' = resolve now decision decided_by a in
      case set_keepttl C (approval_key i) (approval_text fr a') now r of
        (Inl m, r1) \<Rightarrow> (Inl (redis_error m), r1, ms)
      | (Inr _, r1) \<Rightarrow>
          (Inr (Some a', Decided), r1,
           ms @ [approvals_pending (-1) (ap_tool_name a'),
                 approval_decision_duration_ms ((now - ap_requested_at a') * 1000) (ap_tool_name a')]))"

definition decide_approval ::
  "'r redis_client \<Rightarrow> (rat \<Rightarrow> string) \<Rightarrow> (string \<Rightarrow> rat) \<Rightarrow> rat \<Rightarrow> rat \<Rightarrow> string \<Rightarrow> string \<Rightarrow> string
     \<Rightarrow> 'r \<Rightarrow> metric list \<Rightarrow> (Approval option \<times> decide_outcome) result \<times> 'r \<times> metric list" where
  "decide_approval C fr fp now now' i decision decided_by r ms =
     (case get_approval C fp now i r of
        (Inl e, r1) \<Rightarrow> (Inl e, r1, ms)
      | (Inr ao, r1) \<Rightarrow>
          (case decide_guard now ao of
             Inl out \<Rightarrow> (Inr out, r1, ms)
           | Inr a \<Rightarrow> decide_write C fr now' i decision decided_by a r1 ms))"

section \<open>The record round trip\<close>

lemma approval_of_json_json [simp]: "approval_of_json (approval_json a) = Inr a"
  by (cases a)
    (auto simp: approval_of_json_def approval_json_def approval_fields_def field_str_def field_dict_def
      field_float_def field_opt_def opt_json_def split: option.splits)

definition storable :: "(rat \<Rightarrow> string) \<Rightarrow> (string \<Rightarrow> rat) \<Rightarrow> Approval \<Rightarrow> bool" where
  "storable fr fp a \<longleftrightarrow> dumpable fr fp (approval_json a)"

lemma storable_iff:
  "storable fr fp a \<longleftrightarrow>
     dumpable fr fp (JObj (ap_arguments a)) \<and> dumpable fr fp (JFloat (Fin (ap_requested_at a))) \<and>
     dumpable fr fp (JFloat (Fin (ap_expires_at a))) \<and>
     (\<forall>t. ap_decided_at a = Some t \<longrightarrow> dumpable fr fp (JFloat (Fin t)))"
  by (auto simp: storable_def approval_json_def opt_json_def split: option.splits)

lemma read_approval_text: "storable fr fp a \<Longrightarrow> read_approval fp (approval_text fr a) = Inr a"
  by (simp add: read_approval_def approval_text_def storable_def json_round_trip)

lemma approval_key_inj [simp]: "approval_key i = approval_key j \<longleftrightarrow> i = j"
  by (simp add: approval_key_def)

lemma resolve_simps [simp]:
  "ap_id (resolve t d b a) = ap_id a" "ap_agent_id (resolve t d b a) = ap_agent_id a"
  "ap_role (resolve t d b a) = ap_role a" "ap_tool_name (resolve t d b a) = ap_tool_name a"
  "ap_arguments (resolve t d b a) = ap_arguments a" "ap_reason (resolve t d b a) = ap_reason a"
  "ap_requested_at (resolve t d b a) = ap_requested_at a"
  "ap_expires_at (resolve t d b a) = ap_expires_at a"
  "ap_decided_at (resolve t d b a) = Some t" "ap_decided_by (resolve t d b a) = Some b"
  "ap_status (resolve t d b a) \<noteq> ''pending''"
  by (simp_all add: resolve_def)

lemma ap_status_resolve:
  "ap_status (resolve t d b a) = (if d = ''approve'' then ''approved'' else ''denied'')"
  by (simp add: resolve_def)

section \<open>Runs of operations\<close>

datatype store_op =
    CreateOp string string string string dict string   \<comment> \<open>uuid, agent, role, tool, arguments, reason\<close>
  | DecideOp string string string                      \<comment> \<open>id, decision, decided by\<close>
  | GetOp string

datatype store_res =
    Created "Approval result"
  | Resolved "(Approval option \<times> decide_outcome) result"
  | Got "Approval option result"

text \<open>An operation with its first and second clock reading.\<close>

type_synonym store_event = "rat \<times> rat \<times> store_op"

abbreviation se_start :: "store_event \<Rightarrow> rat" where "se_start e \<equiv> fst e"
abbreviation se_end :: "store_event \<Rightarrow> rat" where "se_end e \<equiv> fst (snd e)"
abbreviation se_op :: "store_event \<Rightarrow> store_op" where "se_op e \<equiv> snd (snd e)"

fun store_step ::
  "'r redis_client \<Rightarrow> (rat \<Rightarrow> string) \<Rightarrow> (string \<Rightarrow> rat) \<Rightarrow> store_event \<Rightarrow> 'r \<Rightarrow> metric list
     \<Rightarrow> store_res \<times> 'r \<times> metric list" where
  "store_step C fr fp (t, t', CreateOp i ag ro to ar re) r ms =
     apfst Created (create_pending_approval C fr t i ag ro to ar re r ms)"
| "store_step C fr fp (t, t', DecideOp i d b) r ms =
     apfst Resolved (decide_approval C fr fp t t' i d b r ms)"
| "store_step C fr fp (t, t', GetOp i) r ms =
     (let (x, r1) = get_approval C fp t i r in (Got x, r1, ms))"

fun run_store ::
  "'r redis_client \<Rightarrow> (rat \<Rightarrow> string) \<Rightarrow> (string \<Rightarrow> rat) \<Rightarrow> store_event list \<Rightarrow> 'r \<Rightarrow> metric list
     \<Rightarrow> (store_event \<times> store_res) list \<times> 'r \<times> metric list" where
  "run_store C fr fp [] r ms = ([], r, ms)"
| "run_store C fr fp (e # es) r ms =
     (let (res, r1, ms1) = store_step C fr fp e r ms;
          (rest, r2, ms2) = run_store C fr fp es r1 ms1
      in ((e, res) # rest, r2, ms2))"

text \<open>The operations follow one another in time, each create has an id of its own, and what they
  write reads back.\<close>

fun in_order :: "rat \<Rightarrow> store_event list \<Rightarrow> bool" where
  "in_order t0 [] = True"
| "in_order t0 ((t, t', _) # es) = (t0 \<le> t \<and> t \<le> t' \<and> in_order t' es)"

fun created_ids :: "store_event list \<Rightarrow> string list" where
  "created_ids [] = []"
| "created_ids ((_, _, CreateOp i _ _ _ _ _) # es) = i # created_ids es"
| "created_ids (_ # es) = created_ids es"

fun event_storable :: "(rat \<Rightarrow> string) \<Rightarrow> (string \<Rightarrow> rat) \<Rightarrow> store_event \<Rightarrow> bool" where
  "event_storable fr fp (t, t', CreateOp i ag ro to ar re) = storable fr fp (new_approval t i ag ro to ar re)"
| "event_storable fr fp (t, t', DecideOp i d b) = dumpable fr fp (JFloat (Fin t'))"
| "event_storable fr fp (t, t', GetOp i) = True"

text \<open>The request an approval record goes back to, and the decisions of an id in a history.\<close>

fun requests :: "store_event \<Rightarrow> Approval \<Rightarrow> bool" where
  "requests (t, t', CreateOp i ag ro to ar re) a \<longleftrightarrow>
     new_approval t i ag ro to ar re =
       a\<lparr>ap_status := ''pending'', ap_decided_by := None, ap_decided_at := None\<rparr>"
| "requests _ a \<longleftrightarrow> False"

fun decides :: "string \<Rightarrow> store_event \<times> store_res \<Rightarrow> bool" where
  "decides i ((_, _, DecideOp j _ _), Resolved (Inr (_, Decided))) \<longleftrightarrow> j = i"
| "decides i _ \<longleftrightarrow> False"

definition decisions :: "string \<Rightarrow> (store_event \<times> store_res) list \<Rightarrow> (store_event \<times> store_res) list" where
  "decisions i h = filter (decides i) h"

lemma requests_ap_id: "requests e a \<Longrightarrow> ap_id a \<in> set (created_ids [e])"
  by (cases "(e, a)" rule: requests.cases) (auto simp: new_approval_def dest: arg_cong [of _ _ ap_id])

lemma requests_expires:
  "requests e a \<Longrightarrow> ap_expires_at a = se_start e + of_int APPROVAL_TTL_SECONDS"
  by (cases "(e, a)" rule: requests.cases)
    (auto simp: new_approval_def dest: arg_cong [of _ _ ap_expires_at])

lemma requests_resolve [simp]: "requests e (resolve t d b a) \<longleftrightarrow> requests e a"
  by (cases "(e, a)" rule: requests.cases) (auto simp: resolve_def)

lemma set_created_ids_append: "created_ids (xs @ ys) = created_ids xs @ created_ids ys"
  by (induction xs rule: created_ids.induct) auto

lemma requests_new: "requests (t, t', CreateOp i ag ro to ar re) (new_approval t i ag ro to ar re)"
  by (simp add: new_approval_def)

subsection \<open>The invariant of the store\<close>

text \<open>
  \<open>entry_ok h i v\<close>: the text \<open>v\<close> is a record of \<open>i\<close> that some create of the history asked
  for, and once a decision of \<open>i\<close> was returned the record is no longer pending.
\<close>

definition entry_ok ::
  "(rat \<Rightarrow> string) \<Rightarrow> (string \<Rightarrow> rat) \<Rightarrow> (store_event \<times> store_res) list \<Rightarrow> string \<Rightarrow> string \<Rightarrow> bool" where
  "entry_ok fr fp h i v \<longleftrightarrow>
     (\<exists>a. v = approval_text fr a \<and> storable fr fp a \<and> ap_id a = i \<and> (\<exists>e \<in> fst ` set h. requests e a) \<and>
          (decisions i h \<noteq> [] \<longrightarrow> ap_status a \<noteq> ''pending''))"

text \<open>A returned decision resolves the record of a create of the history, before its deadline.\<close>

fun sound_decision :: "store_event list \<Rightarrow> store_event \<times> store_res \<Rightarrow> bool" where
  "sound_decision es ((t, _, DecideOp i d b), Resolved (Inr (ao, Decided))) \<longleftrightarrow>
     (case ao of
        None \<Rightarrow> False
      | Some a \<Rightarrow>
          ap_id a = i \<and> ap_status a = (if d = ''approve'' then ''approved'' else ''denied'') \<and>
          t \<le> ap_expires_at a \<and> (\<exists>e \<in> set es. requests e a))"
| "sound_decision es _ \<longleftrightarrow> True"

lemma sound_decision_mono:
  "sound_decision es x \<Longrightarrow> set es \<subseteq> set es' \<Longrightarrow> sound_decision es' x"
  by (cases "(es, x)" rule: sound_decision.cases) (auto split: option.splits)

definition history_ok :: "(store_event \<times> store_res) list \<Rightarrow> bool" where
  "history_ok h \<longleftrightarrow>
     (\<forall>i. decisions i h \<noteq> [] \<longrightarrow> i \<in> set (created_ids (map fst h))) \<and>
     (\<forall>i. length (decisions i h) \<le> 1) \<and> (\<forall>x \<in> set h. sound_decision (map fst h) x)"

lemma history_ok_sound: "history_ok h \<Longrightarrow> x \<in> set h \<Longrightarrow> sound_decision (map fst h) x"
  by (simp add: history_ok_def)

lemma decisions_snoc:
  "decisions i (h @ [x]) = decisions i h @ (if decides i x then [x] else [])"
  by (simp add: decisions_def)

lemma history_ok_snoc:
  assumes "history_ok h" "\<And>i. decides i x \<Longrightarrow> decisions i h = [] \<and> i \<in> set (created_ids (map fst h))"
    and "sound_decision (map fst h) x"
  shows "history_ok (h @ [x])"
proof -
  have "sound_decision (map fst (h @ [x])) y" if "y \<in> set (h @ [x])" for y
    using that assms(1,3) sound_decision_mono [of "map fst h" y "map fst (h @ [x])"]
    by (auto simp: history_ok_def)
  then show ?thesis
    using assms(1,2) by (auto simp: history_ok_def decisions_snoc set_created_ids_append)
qed

lemma history_ok_snoc_neutral:
  assumes "history_ok h" "\<And>i. \<not> decides i x" "sound_decision (map fst h) x"
  shows "history_ok (h @ [x])"
  using assms by (intro history_ok_snoc) auto

lemma entry_ok_snoc:
  assumes "entry_ok fr fp h i v" "\<not> decides i x"
  shows "entry_ok fr fp (h @ [x]) i v"
  using assms unfolding entry_ok_def by (auto simp: decisions_snoc)

definition entries_ok ::
  "('r \<Rightarrow> rat \<Rightarrow> string \<Rightarrow> string option) \<Rightarrow> (rat \<Rightarrow> string) \<Rightarrow> (string \<Rightarrow> rat)
     \<Rightarrow> (store_event \<times> store_res) list \<Rightarrow> rat \<Rightarrow> 'r \<Rightarrow> bool" where
  "entries_ok val fr fp h t r \<longleftrightarrow>
     (\<forall>i v. val r t (approval_key i) = Some v \<longrightarrow> entry_ok fr fp h i v)"

context redis_kv
begin

lemma entries_ok_later:
  "invar r \<Longrightarrow> t \<le> t' \<Longrightarrow> entries_ok val fr fp h t r \<Longrightarrow> entries_ok val fr fp h t' r"
  using val_shrink unfolding entries_ok_def by blast

lemma entries_ok_same:
  "same_from val t r r' \<Longrightarrow> entries_ok val fr fp h t r \<Longrightarrow> entries_ok val fr fp h t r'"
  by (simp add: entries_ok_def same_from_def)

lemma entries_ok_snoc:
  "entries_ok val fr fp h t r \<Longrightarrow> (\<And>i. \<not> decides i x) \<Longrightarrow> entries_ok val fr fp (h @ [x]) t r"
  using entry_ok_snoc unfolding entries_ok_def by blast

lemma get_approval_spec:
  assumes "invar r" "get_approval C fp t i r = (x, r')"
  shows "invar r' \<and> same_from val t r r' \<and>
    (\<forall>ao. x = Inr ao \<longrightarrow>
       (ao = None \<and> val r t (approval_key i) = None) \<or>
       (\<exists>raw a. val r t (approval_key i) = Some raw \<and> read_approval fp raw = Inr a \<and> ao = Some a))"
  using assms get [of r "approval_key i" t]
  by (auto simp: get_approval_def bind_res_Inr_iff split: prod.splits sum.splits option.splits)

text \<open>Reading back an entry of the store.\<close>

lemma get_approval_entry:
  assumes "invar r" "entries_ok val fr fp h t r" "get_approval C fp t i r = (Inr (Some a), r')"
  shows "val r t (approval_key i) = Some (approval_text fr a) \<and> storable fr fp a \<and> ap_id a = i \<and>
    (\<exists>e \<in> fst ` set h. requests e a) \<and> (decisions i h \<noteq> [] \<longrightarrow> ap_status a \<noteq> ''pending'')"
proof -
  obtain raw where raw: "val r t (approval_key i) = Some raw" "read_approval fp raw = Inr a"
    using get_approval_spec [OF assms(1,3)] by auto
  with assms(2) have "entry_ok fr fp h i raw" by (simp add: entries_ok_def)
  then obtain b where b: "raw = approval_text fr b" "storable fr fp b" "ap_id b = i"
    "\<exists>e \<in> fst ` set h. requests e b" "decisions i h \<noteq> [] \<longrightarrow> ap_status b \<noteq> ''pending''"
    unfolding entry_ok_def by blast
  moreover have "b = a" using raw(2) b by (simp add: read_approval_text)
  ultimately show ?thesis using raw(1) by simp
qed

text \<open>Each operation keeps the invariant.\<close>

lemma create_keeps:
  assumes inv: "invar r" and old: "entries_ok val fr fp h t r" and hist: "history_ok h"
    and new: "uu \<notin> set (created_ids (map fst h))"
    and st: "storable fr fp (new_approval t uu ag ro to ar re)"
    and run: "create_pending_approval C fr t uu ag ro to ar re r ms = (x, r', ms')"
  shows "invar r' \<and> entries_ok val fr fp (h @ [((t, t', CreateOp uu ag ro to ar re), Created x)]) t r'"
proof -
  let ?a = "new_approval t uu ag ro to ar re" and ?e = "(t, t', CreateOp uu ag ro to ar re)"
  let ?h = "h @ [(?e, Created x)]"
  have id: "ap_id ?a = uu" by (simp add: new_approval_def)
  have none: "decisions uu ?h = []"
    using hist new by (auto simp: history_ok_def decisions_snoc)
  have entry: "entry_ok fr fp ?h uu (approval_text fr ?a)"
    unfolding entry_ok_def using none st id requests_new [of t t' uu ag ro to ar re] by auto
  have ok: "entries_ok val fr fp ?h t r" by (rule entries_ok_snoc [OF old]) simp
  obtain y r1 where set: "set_ex C (approval_key uu) (approval_text fr ?a) APPROVAL_TTL_SECONDS t r = (y, r1)"
    by fastforce
  have r1: "r' = r1" using run set by (auto simp: create_pending_approval_def id split: sum.splits)
  consider (stored) "\<forall>k'. k' \<noteq> approval_key uu \<longrightarrow> val r' t k' = val r t k'"
      "val r' t (approval_key uu) = Some (approval_text fr ?a)" "invar r'"
    | (failed) "same_from val t r r'" "invar r'"
    using set_ex [OF inv _ set] unfolding r1 by (auto simp: APPROVAL_TTL_SECONDS_def)
  then show ?thesis
  proof cases
    case stored
    have "entry_ok fr fp ?h i v" if "val r' t (approval_key i) = Some v" for i v
      using that stored ok entry by (cases "i = uu") (auto simp: entries_ok_def)
    with stored show ?thesis by (simp add: entries_ok_def)
  next
    case failed
    with ok show ?thesis by (simp add: entries_ok_same)
  qed
qed

lemma decide_keeps:
  assumes inv: "invar r" and old: "entries_ok val fr fp h t r" and hist: "history_ok h"
    and times: "t \<le> t'" and fl: "dumpable fr fp (JFloat (Fin t'))"
    and run: "decide_approval C fr fp t t' i d b r ms = (x, r', ms')"
  defines "h' \<equiv> h @ [((t, t', DecideOp i d b), Resolved x)]"
  shows "invar r' \<and> history_ok h' \<and> entries_ok val fr fp h' t' r'"
proof -
  let ?ev = "((t, t', DecideOp i d b), Resolved x)"
  obtain g r1 where get: "get_approval C fp t i r = (g, r1)" by fastforce
  have r1: "invar r1" "entries_ok val fr fp h t r1"
    using get_approval_spec [OF inv get] old by (auto intro: entries_ok_same)
  note r1' = entries_ok_later [OF r1(1) times r1(2)]
  have settled: ?thesis if "r' = r1" "\<And>ao. x \<noteq> Inr (ao, Decided)"
  proof -
    have nd: "\<not> decides j ?ev" "sound_decision (map fst h) ?ev" for j
      using that(2) by (cases "(j, ?ev)" rule: decides.cases; auto)+
    show ?thesis
      unfolding h'_def using history_ok_snoc_neutral [OF hist nd] entries_ok_snoc [OF r1' nd(1)] r1
      by (simp add: that(1))
  qed
  show ?thesis
  proof (cases g)
    case (Inl e)
    with run get show ?thesis by (intro settled) (auto simp: decide_approval_def)
  next
    case (Inr ao)
    show ?thesis
    proof (cases "decide_guard t ao")
      case (Inl out)
      with run get Inr have "r' = r1" "x = Inr out" by (auto simp: decide_approval_def)
      moreover have "snd out \<noteq> Decided"
        using Inl by (auto simp: decide_guard_def split: option.splits if_splits)
      ultimately show ?thesis by (intro settled) auto
    next
      case (Inr a)
      with \<open>g = Inr ao\<close> have ao: "ao = Some a" "ap_status a = ''pending''" "t \<le> ap_expires_at a"
        by (auto simp: decide_guard_def split: option.splits if_splits)
      from get_approval_entry [OF inv old] get ao \<open>g = Inr ao\<close>
      have a: "val r t (approval_key i) = Some (approval_text fr a)" "storable fr fp a" "ap_id a = i"
        "\<exists>e \<in> fst ` set h. requests e a" "decisions i h = []" by auto
      let ?b = "resolve t' d b a"
      have wr: "decide_write C fr t' i d b a r1 ms = (x, r', ms')"
        using run get \<open>g = Inr ao\<close> Inr by (simp add: decide_approval_def)
      obtain y r2 where set: "set_keepttl C (approval_key i) (approval_text fr ?b) t' r1 = (y, r2)" by fastforce
      have r2: "r' = r2" and x: "x = (case y of Inl m \<Rightarrow> Inl (redis_error m) | Inr _ \<Rightarrow> Inr (Some ?b, Decided))"
        using wr set by (cases y; simp add: decide_write_def Let_def)+
      have snd: "sound_decision (map fst h) ?ev"
        using a ao by (auto simp: x ap_status_resolve split: sum.splits)
      have dec: "decides j ?ev \<longleftrightarrow> j = i \<and> y = Inr ()" for j
        by (cases y) (auto simp: x)
      have "i \<in> set (created_ids (map fst h))"
      proof -
        from a(4) obtain e where e: "e \<in> set (map fst h)" "requests e a" by (metis set_map)
        then obtain p q where "map fst h = p @ e # q" by (meson split_list)
        then show ?thesis
          using requests_ap_id [OF e(2)] a(3) set_created_ids_append [of p "e # q"]
            set_created_ids_append [of "[e]" q] by auto
      qed
      then have hok: "history_ok h'"
        unfolding h'_def using a(5) snd by (intro history_ok_snoc [OF hist]) (auto simp: dec)
      have entry: "entry_ok fr fp h' i (approval_text fr ?b)"
        unfolding entry_ok_def h'_def using a fl
        by (intro exI [of _ ?b]) (auto simp: storable_iff)
      have others: "entry_ok fr fp h' j v" if "val r1 t' (approval_key j) = Some v" "j \<noteq> i \<or> y \<noteq> Inr ()" for j v
        unfolding h'_def using that r1' by (intro entry_ok_snoc) (auto simp: entries_ok_def dec)
      have "invar r' \<and> entries_ok val fr fp h' t' r'"
        using set_keepttl [OF r1(1) set] entry others unfolding r2 entries_ok_def same_from_def
        by (metis approval_key_inj empty_iff insert_iff option.distinct(1) option.inject order_refl)
      with hok show ?thesis by simp
    qed
  qed
qed

lemma step_keeps:
  assumes "invar r" "entries_ok val fr fp h t0 r" "history_ok h"
    and "in_order t0 [e]" "event_storable fr fp e"
    and "set (created_ids (map fst h)) \<inter> set (created_ids [e]) = {}"
    and "store_step C fr fp e r ms = (res, r', ms')"
  shows "invar r' \<and> history_ok (h @ [(e, res)]) \<and> entries_ok val fr fp (h @ [(e, res)]) (se_end e) r'"
proof (cases e)
  case (fields t t' opn)
  then have t: "t0 \<le> t" "t \<le> t'" using assms(4) by auto
  note old = entries_ok_later [OF assms(1) t(1) assms(2)]
  show ?thesis
  proof (cases opn)
    case (CreateOp i ag ro to ar re)
    then obtain x where x: "create_pending_approval C fr t i ag ro to ar re r ms = (x, r', ms')"
      "res = Created x" using assms(7) by (auto simp: fields apfst_def map_prod_def split: prod.splits)
    then have "invar r' \<and> entries_ok val fr fp (h @ [(e, res)]) t r'"
      using create_keeps [OF assms(1) old assms(3) _ _ x(1)] assms(5,6) by (simp add: fields CreateOp)
    moreover have "history_ok (h @ [(e, res)])"
      by (rule history_ok_snoc_neutral [OF assms(3)]) (simp_all add: fields CreateOp x)
    ultimately show ?thesis using entries_ok_later t(2) by (auto simp: fields)
  next
    case (DecideOp i d b)
    then obtain x where x: "decide_approval C fr fp t t' i d b r ms = (x, r', ms')" "res = Resolved x"
      using assms(7) by (auto simp: fields apfst_def map_prod_def split: prod.splits)
    then show ?thesis
      using decide_keeps [OF assms(1) old assms(3) t(2) _ x(1)] assms(5) by (simp add: fields DecideOp)
  next
    case (GetOp i)
    then obtain x where x: "get_approval C fp t i r = (x, r')" "res = Got x"
      using assms(7) by (auto simp: fields split: prod.splits)
    have inv: "invar r'" and "entries_ok val fr fp h t r'"
      using get_approval_spec [OF assms(1) x(1)] old by (auto intro: entries_ok_same)
    then have "entries_ok val fr fp (h @ [(e, res)]) t r'"
      by (intro entries_ok_snoc) (simp_all add: fields GetOp)
    moreover have "history_ok (h @ [(e, res)])"
      by (rule history_ok_snoc_neutral [OF assms(3)]) (simp_all add: fields GetOp)
    ultimately show ?thesis using inv entries_ok_later t(2) by (auto simp: fields)
  qed
qed

lemma run_keeps:
  assumes "invar r" "entries_ok val fr fp h t0 r" "history_ok h"
    and "in_order t0 evs" "\<forall>e \<in> set evs. event_storable fr fp e"
    and "distinct (created_ids (map fst h @ evs))"
    and "run_store C fr fp evs r ms = (hs, r', ms')"
  shows "history_ok (h @ hs) \<and> map fst hs = evs"
  using assms
proof (induction evs arbitrary: h r ms hs t0)
  case (Cons e evs)
  obtain res r1 ms1 where step: "store_step C fr fp e r ms = (res, r1, ms1)" by (metis prod_cases3)
  with Cons.prems(7) obtain rest where rest: "run_store C fr fp evs r1 ms1 = (rest, r', ms')"
    "hs = (e, res) # rest" by (auto split: prod.splits)
  have dist: "created_ids (map fst h @ e # evs) = created_ids (map fst h) @ created_ids [e] @ created_ids evs"
    using set_created_ids_append [of "map fst h" "e # evs"] set_created_ids_append [of "[e]" evs] by simp
  have "in_order t0 [e]" "in_order (se_end e) evs" using Cons.prems(4) by (cases e; auto)+
  then have "invar r1 \<and> history_ok (h @ [(e, res)]) \<and>
      entries_ok val fr fp (h @ [(e, res)]) (se_end e) r1"
    using Cons.prems(5,6) dist by (intro step_keeps [OF Cons.prems(1-3) _ _ _ step]) auto
  with Cons.IH [of r1 "h @ [(e, res)]" "se_end e" ms1 rest] Cons.prems(5,6) rest dist
    \<open>in_order (se_end e) evs\<close>
  show ?case using set_created_ids_append [of "map fst h @ [e]" evs] by simp
qed simp

lemma run_from_start:
  assumes "invar r" "\<forall>i. val r t0 (approval_key i) = None"
    and "in_order t0 evs" "\<forall>e \<in> set evs. event_storable fr fp e" "distinct (created_ids evs)"
    and "run_store C fr fp evs r ms = (hs, r', ms')"
  shows "history_ok hs \<and> map fst hs = evs"
proof -
  have "history_ok []" by (simp add: history_ok_def decisions_def)
  moreover have "entries_ok val fr fp [] t0 r" using assms(2) by (simp add: entries_ok_def)
  ultimately show ?thesis
    using run_keeps [of r fr fp "[]" t0 evs ms hs r' ms'] assms by simp
qed

text \<open>A created approval is there until its time to live ends, and gone after it.\<close>

lemma create_then_get:
  assumes "invar r" "storable fr fp (new_approval t uu ag ro to ar re)"
    and "create_pending_approval C fr t uu ag ro to ar re r ms = (Inr a, r1, ms1)"
    and "t \<le> s" "get_approval C fp s uu r1 = (Inr ao, r2)"
  shows "(s < ap_expires_at a \<longrightarrow> ao = Some a) \<and> (ap_expires_at a < s \<longrightarrow> ao = None)"
proof -
  let ?a = "new_approval t uu ag ro to ar re"
  obtain y where set: "set_ex C (approval_key uu) (approval_text fr ?a) APPROVAL_TTL_SECONDS t r = (y, r1)"
    and a: "a = ?a" and y: "y = Inr ()"
    using assms(3) by (auto simp: create_pending_approval_def new_approval_def Let_def split: prod.splits sum.splits)
  have ex: "ap_expires_at a = t + of_int APPROVAL_TTL_SECONDS" by (simp add: a new_approval_def)
  have "invar r1 \<and> (\<forall>t' \<ge> t. t' < t + of_int APPROVAL_TTL_SECONDS \<longrightarrow>
          val r1 t' (approval_key uu) = Some (approval_text fr ?a)) \<and>
        (\<forall>t' > t + of_int APPROVAL_TTL_SECONDS. val r1 t' (approval_key uu) = None)"
    using set_ex [OF assms(1) _ set] y by (auto simp: APPROVAL_TTL_SECONDS_def)
  with get_approval_spec [OF _ assms(5)] assms(4) show ?thesis
    unfolding ex by (auto simp: read_approval_text [OF assms(2)] a)
qed

end

section \<open>Guarantees of the store\<close>

text \<open>A demonstration run: two requests, one approved twice, one decided after its deadline.\<close>

definition demo_store_events :: "store_event list" where
  "demo_store_events =
     [(10, 10, CreateOp ''u1'' ''agent01'' ''sre1'' ''exec_into_pod'' [(''pod_name'', JStr ''web'')] ''why''),
      (20, 20, CreateOp ''u2'' ''agent01'' ''sre1'' ''apply_k8s_manifest'' [] ''why''),
      (30, 31, DecideOp ''u1'' ''approve'' ''alice''),
      (40, 41, DecideOp ''u1'' ''deny'' ''bob''),
      (50, 50, GetOp ''u2''),
      (2000, 2001, DecideOp ''u2'' ''approve'' ''alice'')]"

lemma demo_store_events_ok:
  "in_order 0 demo_store_events" "distinct (created_ids demo_store_events)"
  "\<forall>e \<in> set demo_store_events. event_storable whole_repr whole_read e"
  "\<forall>i. fake_val empty_fake 0 (approval_key i) = None"
proof -
  show "\<forall>e \<in> set demo_store_events. event_storable whole_repr whole_read e" by code_simp
qed (simp_all add: demo_store_events_def fake_val_def empty_fake_def)

text \<open>
  C8: an approval is decided at most once.  Through any Redis client that keeps the contract,
  failures included, a run of creations, look-ups and decisions, one after the other, returns
  \<open>"decided"\<close> at most once for each id: a replayed callback never resolves it again.
\<close>

theorem decided_at_most_once:
  assumes "redis_kv C val invar" "invar r" "\<forall>i. val r t0 (approval_key i) = None"
    and "in_order t0 evs" "\<forall>e \<in> set evs. event_storable fr fp e" "distinct (created_ids evs)"
    and "run_store C fr fp evs r ms = (hs, r', ms')"
  shows "length (decisions i hs) \<le> 1"
  using redis_kv.run_from_start [OF assms] by (simp add: history_ok_def)

theorem decided_at_most_once_witness:
  "length (decisions ''u1''
     (fst (run_store FakeRedis whole_repr whole_read demo_store_events empty_fake []))) \<le> 1"
proof -
  obtain hs r' ms' where
    run: "run_store FakeRedis whole_repr whole_read demo_store_events empty_fake [] = (hs, r', ms')"
    by (metis prod_cases3)
  from decided_at_most_once [OF fake_kv.redis_kv_axioms TrueI demo_store_events_ok(4,1,3,2) run] run
  show ?thesis by simp
qed

text \<open>
  C21: what is decided is what was requested.  A returned decision carries the record some creation
  of the run made: the same agent, role, tool, arguments and reason, its status set by the
  decision (only \<open>approve\<close> approves), and it comes before the deadline of that request.
\<close>

theorem decision_is_of_a_request:
  assumes "redis_kv C val invar" "invar r" "\<forall>i. val r t0 (approval_key i) = None"
    and "in_order t0 evs" "\<forall>e \<in> set evs. event_storable fr fp e" "distinct (created_ids evs)"
    and "run_store C fr fp evs r ms = (hs, r', ms')"
    and "((t, t', DecideOp i d b), Resolved (Inr (ao, Decided))) \<in> set hs"
  shows "\<exists>a tc tc' ag ro to ar re.
    ao = Some a \<and> (tc, tc', CreateOp i ag ro to ar re) \<in> set evs \<and>
    t \<le> tc + of_int APPROVAL_TTL_SECONDS \<and>
    ap_id a = i \<and> ap_agent_id a = ag \<and> ap_role a = ro \<and> ap_tool_name a = to \<and>
    ap_arguments a = ar \<and> ap_status a = (if d = ''approve'' then ''approved'' else ''denied'')"
proof -
  have "sound_decision evs ((t, t', DecideOp i d b), Resolved (Inr (ao, Decided)))"
    using redis_kv.run_from_start [OF assms(1-7)] history_ok_sound [OF _ assms(8)] by metis
  then obtain a e where a: "ao = Some a" "ap_id a = i" "t \<le> ap_expires_at a"
    "ap_status a = (if d = ''approve'' then ''approved'' else ''denied'')"
    and e: "e \<in> set evs" "requests e a" by (auto split: option.splits)
  from e(2) a(2) obtain tc tc' ag ro to ar re where
    "e = (tc, tc', CreateOp i ag ro to ar re)" "ap_agent_id a = ag" "ap_role a = ro"
    "ap_tool_name a = to" "ap_arguments a = ar"
    by (cases "(e, a)" rule: requests.cases) (cases a; auto simp: new_approval_def)+
  with a e requests_expires [OF e(2)] show ?thesis by auto
qed

definition demo_approval :: Approval where
  "demo_approval =
     new_approval 10 ''u1'' ''agent01'' ''sre1'' ''exec_into_pod'' [(''pod_name'', JStr ''web'')] ''why''"

definition demo_decide_events :: "store_event list" where
  "demo_decide_events =
     [(10, 10, CreateOp ''u1'' ''agent01'' ''sre1'' ''exec_into_pod'' [(''pod_name'', JStr ''web'')] ''why''),
      (30, 31, DecideOp ''u1'' ''approve'' ''alice'')]"

lemma demo_decide_events_ok:
  "in_order 0 demo_decide_events" "distinct (created_ids demo_decide_events)"
  "\<forall>e \<in> set demo_decide_events. event_storable whole_repr whole_read e"
proof -
  show "\<forall>e \<in> set demo_decide_events. event_storable whole_repr whole_read e" by code_simp
qed (simp_all add: demo_decide_events_def)

lemma demo_decide_run:
  "\<exists>c r ms. run_store FakeRedis whole_repr whole_read demo_decide_events empty_fake [] =
     ([(demo_decide_events ! 0, c),
       (demo_decide_events ! 1,
        Resolved (Inr (Some (resolve 31 ''approve'' ''alice'' demo_approval), Decided)))], r, ms)"
proof -
  have "storable whole_repr whole_read demo_approval"
    using demo_decide_events_ok(3) by (simp add: demo_decide_events_def demo_approval_def)
  note rt = read_approval_text [OF this]
  have st: "ap_status demo_approval = ''pending''" "ap_expires_at demo_approval = 910"
    "ap_id demo_approval = ''u1''"
    by (simp_all add: demo_approval_def new_approval_def APPROVAL_TTL_SECONDS_def)
  show ?thesis
    by (simp add: demo_decide_events_def create_pending_approval_def decide_approval_def get_approval_def
        fake_set_def fake_get_def empty_fake_def expired_def rt st decide_guard_def decide_write_def
        Let_def APPROVAL_TTL_SECONDS_def demo_approval_def [symmetric])
qed

theorem decision_is_of_a_request_witness:
  "\<exists>a tc tc' ag ro to ar re.
    Some (resolve 31 ''approve'' ''alice'' demo_approval) = Some a \<and>
    (tc, tc', CreateOp ''u1'' ag ro to ar re) \<in> set demo_decide_events \<and>
    30 \<le> tc + of_int APPROVAL_TTL_SECONDS \<and>
    ap_id a = ''u1'' \<and> ap_agent_id a = ag \<and> ap_role a = ro \<and> ap_tool_name a = to \<and>
    ap_arguments a = ar \<and> ap_status a = (if ''approve'' = ''approve'' then ''approved'' else ''denied'')"
proof -
  obtain c r ms where run: "run_store FakeRedis whole_repr whole_read demo_decide_events empty_fake [] =
     ([(demo_decide_events ! 0, c), (demo_decide_events ! 1,
        Resolved (Inr (Some (resolve 31 ''approve'' ''alice'' demo_approval), Decided)))], r, ms)"
    using demo_decide_run by blast
  have "((30, 31, DecideOp ''u1'' ''approve'' ''alice''),
      Resolved (Inr (Some (resolve 31 ''approve'' ''alice'' demo_approval), Decided))) \<in>
    set [(demo_decide_events ! 0, c), (demo_decide_events ! 1,
        Resolved (Inr (Some (resolve 31 ''approve'' ''alice'' demo_approval), Decided)))]"
    by (simp add: demo_decide_events_def)
  then show ?thesis
    by (rule decision_is_of_a_request [OF fake_kv.redis_kv_axioms TrueI demo_store_events_ok(4)
        demo_decide_events_ok(1,3,2) run])
qed

text \<open>
  C29: the store keeps an approval for its time to live.  Read before its deadline it comes back
  exactly as created; read after it, it is gone.
\<close>

theorem created_until_deadline:
  assumes "redis_kv C val invar" "invar r" "storable fr fp (new_approval t uu ag ro to ar re)"
    and "create_pending_approval C fr t uu ag ro to ar re r ms = (Inr a, r1, ms1)"
    and "t \<le> s" "get_approval C fp s uu r1 = (Inr ao, r2)"
  shows "(s < ap_expires_at a \<longrightarrow> ao = Some a) \<and> (ap_expires_at a < s \<longrightarrow> ao = None)"
  using redis_kv.create_then_get [OF assms] .

lemma demo_created:
  "create_pending_approval FakeRedis whole_repr 10 ''u1'' ''agent01'' ''sre1'' ''exec_into_pod''
     [(''pod_name'', JStr ''web'')] ''why'' empty_fake [] =
   (Inr demo_approval,
    empty_fake\<lparr>kv := [approval_key ''u1'' \<mapsto> (approval_text whole_repr demo_approval, Some 910)]\<rparr>,
    [approval_requests_total ''exec_into_pod'', approvals_pending 1 ''exec_into_pod''])"
proof -
  have "ap_id demo_approval = ''u1''" by (simp add: demo_approval_def new_approval_def)
  then show ?thesis
    by (simp add: create_pending_approval_def fake_set_def empty_fake_def Let_def APPROVAL_TTL_SECONDS_def
        demo_approval_def [symmetric])
qed

lemma demo_storable: "storable whole_repr whole_read demo_approval"
  using demo_decide_events_ok(3) by (simp add: demo_decide_events_def demo_approval_def)

theorem created_until_deadline_witness:
  "\<exists>ao r. get_approval FakeRedis whole_read 700 ''u1''
      (fst (snd (create_pending_approval FakeRedis whole_repr 10 ''u1'' ''agent01'' ''sre1'' ''exec_into_pod''
         [(''pod_name'', JStr ''web'')] ''why'' empty_fake []))) = (Inr ao, r) \<and> ao = Some demo_approval"
proof -
  let ?r = "empty_fake\<lparr>kv := [approval_key ''u1'' \<mapsto> (approval_text whole_repr demo_approval, Some 910)]\<rparr>"
  obtain ao r' where get: "get_approval FakeRedis whole_read 700 ''u1'' ?r = (Inr ao, r')"
    by (simp add: get_approval_def fake_get_def expired_def read_approval_text [OF demo_storable])
  have "700 < ap_expires_at demo_approval"
    by (simp add: demo_approval_def new_approval_def APPROVAL_TTL_SECONDS_def)
  moreover have "storable whole_repr whole_read
      (new_approval 10 ''u1'' ''agent01'' ''sre1'' ''exec_into_pod'' [(''pod_name'', JStr ''web'')] ''why'')"
    using demo_storable by (simp only: demo_approval_def)
  ultimately have "ao = Some demo_approval"
    using created_until_deadline [OF fake_kv.redis_kv_axioms TrueI _ demo_created _ get] by simp
  with get show ?thesis by (simp add: demo_created)
qed

section \<open>Overlapping callbacks\<close>

text \<open>
  Between \<open>await get_approval\<close> and \<open>await set\<close> another callback may run.  Each callback is at
  one of three points: about to read, holding the pending record it read, or finished.  The clock
  never goes back, and its readings are among \<open>clk\<close>.
\<close>

record callback =
  cb_id :: string
  cb_decision :: string
  cb_by :: string

datatype phase =
    Waiting
  | Holding Approval
  | Finished "(Approval option \<times> decide_outcome) result"

record 'r decide_sys =
  ds_redis :: 'r
  ds_clock :: rat
  ds_phase :: "nat \<Rightarrow> phase"

inductive decide_step ::
  "'r redis_client \<Rightarrow> (rat \<Rightarrow> string) \<Rightarrow> (string \<Rightarrow> rat) \<Rightarrow> rat set \<Rightarrow> (nat \<Rightarrow> callback)
     \<Rightarrow> 'r decide_sys \<Rightarrow> 'r decide_sys \<Rightarrow> bool"
  for C fr fp clk cb where
  read_failed:
    "ph k = Waiting \<Longrightarrow> t \<in> clk \<Longrightarrow> t0 \<le> t \<Longrightarrow> get_approval C fp t (cb_id (cb k)) r = (Inl e, r') \<Longrightarrow>
     decide_step C fr fp clk cb \<lparr>ds_redis = r, ds_clock = t0, ds_phase = ph\<rparr>
       \<lparr>ds_redis = r', ds_clock = t, ds_phase = ph(k := Finished (Inl e))\<rparr>"
| read_settled:
    "ph k = Waiting \<Longrightarrow> t \<in> clk \<Longrightarrow> t0 \<le> t \<Longrightarrow> get_approval C fp t (cb_id (cb k)) r = (Inr ao, r') \<Longrightarrow>
     decide_guard t ao = Inl out \<Longrightarrow>
     decide_step C fr fp clk cb \<lparr>ds_redis = r, ds_clock = t0, ds_phase = ph\<rparr>
       \<lparr>ds_redis = r', ds_clock = t, ds_phase = ph(k := Finished (Inr out))\<rparr>"
| read_pending:
    "ph k = Waiting \<Longrightarrow> t \<in> clk \<Longrightarrow> t0 \<le> t \<Longrightarrow> get_approval C fp t (cb_id (cb k)) r = (Inr ao, r') \<Longrightarrow>
     decide_guard t ao = Inr a \<Longrightarrow>
     decide_step C fr fp clk cb \<lparr>ds_redis = r, ds_clock = t0, ds_phase = ph\<rparr>
       \<lparr>ds_redis = r', ds_clock = t, ds_phase = ph(k := Holding a)\<rparr>"
| resolve_held:
    "ph k = Holding a \<Longrightarrow> t \<in> clk \<Longrightarrow> t0 \<le> t \<Longrightarrow>
     decide_write C fr t (cb_id (cb k)) (cb_decision (cb k)) (cb_by (cb k)) a r [] = (x, r', ms) \<Longrightarrow>
     decide_step C fr fp clk cb \<lparr>ds_redis = r, ds_clock = t0, ds_phase = ph\<rparr>
       \<lparr>ds_redis = r', ds_clock = t, ds_phase = ph(k := Finished x)\<rparr>"

inductive_cases decide_stepE: "decide_step C fr fp clk cb s s'"

text \<open>Two records of the same request: they differ at most in how it was decided.\<close>

definition same_request :: "Approval \<Rightarrow> Approval \<Rightarrow> bool" where
  "same_request a b \<longleftrightarrow>
     a\<lparr>ap_status := ap_status b, ap_decided_by := ap_decided_by b, ap_decided_at := ap_decided_at b\<rparr> = b"

lemma same_request_refl [simp]: "same_request a a"
  by (simp add: same_request_def)

lemma same_request_resolve [simp]: "same_request (resolve t d b a) c \<longleftrightarrow> same_request a c"
  by (simp add: same_request_def resolve_def)

text \<open>
  What any interleaving of callbacks for one id keeps: the record stored, the records held and the
  records returned are all of the one request.
\<close>

definition one_request ::
  "('r \<Rightarrow> rat \<Rightarrow> string \<Rightarrow> string option) \<Rightarrow> (rat \<Rightarrow> string) \<Rightarrow> (string \<Rightarrow> rat) \<Rightarrow> (nat \<Rightarrow> callback)
     \<Rightarrow> Approval \<Rightarrow> 'r decide_sys \<Rightarrow> bool" where
  "one_request val fr fp cb a0 s \<longleftrightarrow>
     (\<forall>v. val (ds_redis s) (ds_clock s) (approval_key (ap_id a0)) = Some v \<longrightarrow>
        (\<exists>a. v = approval_text fr a \<and> storable fr fp a \<and> same_request a a0)) \<and>
     (\<forall>k a. ds_phase s k = Holding a \<longrightarrow> storable fr fp a \<and> same_request a a0) \<and>
     (\<forall>k a. ds_phase s k = Finished (Inr (Some a, Decided)) \<longrightarrow>
        same_request a a0 \<and>
        ap_status a = (if cb_decision (cb k) = ''approve'' then ''approved'' else ''denied''))"

context redis_kv
begin

text \<open>A read by any callback at a later time, and what it can return.\<close>

lemma one_request_read:
  assumes "invar r" "one_request val fr fp cb a0 \<lparr>ds_redis = r, ds_clock = t0, ds_phase = ph\<rparr>" "t0 \<le> t"
    and "get_approval C fp t (ap_id a0) r = (x, r')"
  shows "invar r' \<and> one_request val fr fp cb a0 \<lparr>ds_redis = r', ds_clock = t, ds_phase = ph\<rparr> \<and>
    (\<forall>a. x = Inr (Some a) \<longrightarrow> storable fr fp a \<and> same_request a a0)"
proof -
  from get_approval_spec [OF assms(1,4)] have inv: "invar r'" and same: "same_from val t r r'"
    and x: "\<And>a. x = Inr (Some a) \<Longrightarrow>
      \<exists>raw. val r t (approval_key (ap_id a0)) = Some raw \<and> read_approval fp raw = Inr a" by auto
  have stored: "\<exists>a. v = approval_text fr a \<and> storable fr fp a \<and> same_request a a0"
    if "val r t (approval_key (ap_id a0)) = Some v" for v
    using assms(2) val_shrink [OF assms(1,3) that] by (simp add: one_request_def)
  have "storable fr fp a \<and> same_request a a0" if "x = Inr (Some a)" for a
    using x [OF that] stored read_approval_text [of fr fp] by fastforce
  moreover have "one_request val fr fp cb a0 \<lparr>ds_redis = r', ds_clock = t, ds_phase = ph\<rparr>"
    using assms(2) stored same by (simp add: one_request_def same_from_def)
  ultimately show ?thesis using inv by blast
qed

lemma one_request_write:
  assumes "invar r" "one_request val fr fp cb a0 \<lparr>ds_redis = r, ds_clock = t0, ds_phase = ph\<rparr>" "t0 \<le> t"
    and "dumpable fr fp (JFloat (Fin t))" "ph k = Holding a"
    and "decide_write C fr t (ap_id a0) d b a r [] = (x, r', ms)"
  shows "invar r' \<and> one_request val fr fp cb a0 \<lparr>ds_redis = r', ds_clock = t, ds_phase = ph\<rparr> \<and>
    (\<forall>ao. x = Inr (ao, Decided) \<longrightarrow> ao = Some (resolve t d b a))"
proof -
  let ?b = "resolve t d b a" and ?k = "approval_key (ap_id a0)"
  obtain y r2 where set: "set_keepttl C ?k (approval_text fr ?b) t r = (y, r2)" by fastforce
  have r2: "r' = r2" and x: "x = (case y of Inl m \<Rightarrow> Inl (redis_error m) | Inr _ \<Rightarrow> Inr (Some ?b, Decided))"
    using assms(6) set by (cases y; simp add: decide_write_def Let_def)+
  have a: "storable fr fp a" "same_request a a0"
    using assms(2,5) by (simp_all add: one_request_def)
  then have b: "storable fr fp ?b" "same_request ?b a0" using assms(4) by (simp_all add: storable_iff)
  have stored: "\<exists>a. v = approval_text fr a \<and> storable fr fp a \<and> same_request a a0"
    if "val r t ?k = Some v" for v
    using assms(2) val_shrink [OF assms(1,3) that] by (simp add: one_request_def)
  from set_keepttl [OF assms(1) set]
  have inv: "invar r'" and "val r' t ?k \<in> {None, Some (approval_text fr ?b)} \<or> val r' t ?k = val r t ?k"
    by (auto simp: r2 same_from_def)
  then have "\<exists>a. v = approval_text fr a \<and> storable fr fp a \<and> same_request a a0"
    if "val r' t ?k = Some v" for v
    using that b stored by auto
  then have "one_request val fr fp cb a0 \<lparr>ds_redis = r', ds_clock = t, ds_phase = ph\<rparr>"
    using assms(2) by (simp add: one_request_def)
  with inv show ?thesis by (simp add: x split: sum.split)
qed

lemma one_request_phase:
  assumes "one_request val fr fp cb a0 \<lparr>ds_redis = r, ds_clock = t, ds_phase = ph\<rparr>"
    and "\<And>a. p = Holding a \<Longrightarrow> storable fr fp a \<and> same_request a a0"
    and "\<And>a. p = Finished (Inr (Some a, Decided)) \<Longrightarrow> same_request a a0 \<and>
        ap_status a = (if cb_decision (cb k) = ''approve'' then ''approved'' else ''denied'')"
  shows "one_request val fr fp cb a0 \<lparr>ds_redis = r, ds_clock = t, ds_phase = ph(k := p)\<rparr>"
  using assms by (simp add: one_request_def)

lemma one_request_step:
  assumes "decide_step C fr fp clk cb s s'" "invar (ds_redis s)" "one_request val fr fp cb a0 s"
    and "\<forall>k. cb_id (cb k) = ap_id a0" "\<forall>t \<in> clk. dumpable fr fp (JFloat (Fin t))"
  shows "invar (ds_redis s') \<and> one_request val fr fp cb a0 s'"
  using assms(1)
proof (cases rule: decide_step.cases)
  case (read_failed ph k t t0 r e r')
  then show ?thesis using assms(2-4) one_request_read [of r fr fp cb a0 t0 ph t "Inl e" r']
    by (auto intro!: one_request_phase)
next
  case (read_settled ph k t t0 r ao r' out)
  moreover have "snd out \<noteq> Decided"
    using read_settled by (auto simp: decide_guard_def split: option.splits if_splits)
  ultimately show ?thesis using assms(2-4) one_request_read [of r fr fp cb a0 t0 ph t "Inr ao" r']
    by (auto intro!: one_request_phase)
next
  case (read_pending ph k t t0 r ao r' a)
  moreover have "ao = Some a" using read_pending by (auto simp: decide_guard_def split: option.splits if_splits)
  ultimately show ?thesis using assms(2-4) one_request_read [of r fr fp cb a0 t0 ph t "Inr ao" r']
    by (auto intro!: one_request_phase)
next
  case (resolve_held ph k a t t0 r x r' ms)
  have st: "invar r" "one_request val fr fp cb a0 \<lparr>ds_redis = r, ds_clock = t0, ds_phase = ph\<rparr>"
    using assms(2,3) unfolding resolve_held(1) by simp_all
  then have held: "same_request a a0" using resolve_held(3) by (simp add: one_request_def)
  have fl: "dumpable fr fp (JFloat (Fin t))" using assms(5) resolve_held(4) by blast
  have cid: "cb_id (cb k) = ap_id a0" using assms(4) by blast
  note w = one_request_write [OF st resolve_held(5) fl resolve_held(3) resolve_held(6) [unfolded cid]]
  have "one_request val fr fp cb a0 \<lparr>ds_redis = r', ds_clock = t, ds_phase = ph(k := Finished x)\<rparr>"
  proof (rule one_request_phase)
    show "one_request val fr fp cb a0 \<lparr>ds_redis = r', ds_clock = t, ds_phase = ph\<rparr>" using w by blast
    show "same_request c a0 \<and> ap_status c = (if cb_decision (cb k) = ''approve'' then ''approved'' else ''denied'')"
      if "Finished x = Finished (Inr (Some c, Decided))" for c
      using w that held by (auto simp: ap_status_resolve)
  qed simp
  with w show ?thesis unfolding resolve_held(2) by simp
qed

lemma one_request_reachable:
  assumes "(decide_step C fr fp clk cb)\<^sup>*\<^sup>* s s'" "invar (ds_redis s)" "one_request val fr fp cb a0 s"
    and "\<forall>k. cb_id (cb k) = ap_id a0" "\<forall>t \<in> clk. dumpable fr fp (JFloat (Fin t))"
  shows "invar (ds_redis s') \<and> one_request val fr fp cb a0 s'"
  using assms(1)
proof (induction rule: rtranclp_induct)
  case (step s1 s2)
  then show ?case using one_request_step [OF step(2) _ _ assms(4,5)] by blast
qed (use assms in simp)

end

text \<open>
  Whatever callbacks for one approval overlap and however their reads and writes interleave,
  each one that is told \<open>"decided"\<close> holds the request as it was stored, with the status its own
  decision gives it: no interleaving mixes two requests or turns a denial into an approval.
\<close>

theorem overlapping_decisions_same_request:
  assumes "redis_kv C val invar" "invar (ds_redis s)"
    and "val (ds_redis s) (ds_clock s) (approval_key (ap_id a0)) = Some (approval_text fr a0)"
    and "storable fr fp a0" "ds_phase s = (\<lambda>_. Waiting)"
    and "\<forall>k. cb_id (cb k) = ap_id a0" "\<forall>t \<in> clk. dumpable fr fp (JFloat (Fin t))"
    and "(decide_step C fr fp clk cb)\<^sup>*\<^sup>* s s'"
    and "ds_phase s' k = Finished (Inr (Some a, Decided))"
  shows "ap_id a = ap_id a0 \<and> ap_agent_id a = ap_agent_id a0 \<and> ap_role a = ap_role a0 \<and>
    ap_tool_name a = ap_tool_name a0 \<and> ap_arguments a = ap_arguments a0 \<and>
    (ap_status a = ''approved'' \<longleftrightarrow> cb_decision (cb k) = ''approve'')"
proof -
  have "one_request val fr fp cb a0 s"
    using assms(3-5) by (auto simp: one_request_def)
  then have "one_request val fr fp cb a0 s'"
    using redis_kv.one_request_reachable [OF assms(1,8,2) _ assms(6,7)] by blast
  then have "same_request a a0" "ap_status a = (if cb_decision (cb k) = ''approve'' then ''approved'' else ''denied'')"
    using assms(9) by (simp_all add: one_request_def)
  then show ?thesis by (cases a; cases a0) (auto simp: same_request_def)
qed

definition demo_store :: "Approval \<Rightarrow> fake_redis" where
  "demo_store a = empty_fake\<lparr>kv := [approval_key (ap_id a) \<mapsto> (approval_text whole_repr a, Some (ap_expires_at a))]\<rparr>"

definition demo_callbacks :: "nat \<Rightarrow> callback" where
  "demo_callbacks k =
     (if k = 0 then \<lparr>cb_id = ''u1'', cb_decision = ''approve'', cb_by = ''alice''\<rparr>
      else \<lparr>cb_id = ''u1'', cb_decision = ''deny'', cb_by = ''bob''\<rparr>)"

definition demo_sys :: "fake_redis \<Rightarrow> (nat \<Rightarrow> phase) \<Rightarrow> fake_redis decide_sys" where
  "demo_sys r ph = \<lparr>ds_redis = r, ds_clock = 30, ds_phase = ph\<rparr>"

abbreviation demo_step :: "fake_redis decide_sys \<Rightarrow> fake_redis decide_sys \<Rightarrow> bool" where
  "demo_step \<equiv> decide_step FakeRedis whole_repr whole_read {30} demo_callbacks"

abbreviation demo_resolved :: "nat \<Rightarrow> Approval" where
  "demo_resolved k \<equiv> resolve 30 (cb_decision (demo_callbacks k)) (cb_by (demo_callbacks k)) demo_approval"

lemma demo_approval_simps [simp]:
  "ap_status demo_approval = ''pending''" "ap_expires_at demo_approval = 910"
  "ap_id demo_approval = ''u1''" "cb_id (demo_callbacks k) = ''u1''"
  by (simp_all add: demo_approval_def new_approval_def APPROVAL_TTL_SECONDS_def demo_callbacks_def)

lemma demo_read:
  assumes "ph k = Waiting"
  shows "demo_step (demo_sys (demo_store demo_approval) ph)
    (demo_sys (demo_store demo_approval) (ph(k := Holding demo_approval)))"
  unfolding demo_sys_def
  by (rule read_pending [where ao = "Some demo_approval"])
    (simp_all add: assms get_approval_def fake_get_def demo_store_def expired_def
      read_approval_text [OF demo_storable] decide_guard_def)

lemma demo_write:
  assumes "ph k = Holding demo_approval" "ap_expires_at a = 910" "ap_id a = ''u1''"
  shows "demo_step (demo_sys (demo_store a) ph)
    (demo_sys (demo_store (demo_resolved k)) (ph(k := Finished (Inr (Some (demo_resolved k), Decided)))))"
  unfolding demo_sys_def
  by (rule resolve_held [where a = demo_approval and ms = "[approvals_pending (-1) (ap_tool_name demo_approval),
        approval_decision_duration_ms ((30 - ap_requested_at demo_approval) * 1000) (ap_tool_name demo_approval)]"])
    (simp_all add: assms decide_write_def fake_set_def demo_store_def Let_def)

definition demo_phases :: "phase \<Rightarrow> phase \<Rightarrow> nat \<Rightarrow> phase" where
  "demo_phases p q k = (if k = 0 then p else if k = 1 then q else Waiting)"

lemma demo_phases_simps [simp]:
  "demo_phases p q 0 = p" "demo_phases p q 1 = q" "demo_phases p q (Suc 0) = q"
  "(demo_phases p q)(0 := p') = demo_phases p' q" "(demo_phases p q)(Suc 0 := q') = demo_phases p q'"
  "(\<lambda>_. Waiting) = demo_phases Waiting Waiting"
  by (auto simp: demo_phases_def fun_eq_iff)

lemma demo_both_decided:
  "demo_step\<^sup>*\<^sup>* (demo_sys (demo_store demo_approval) (\<lambda>_. Waiting))
     (demo_sys (demo_store (demo_resolved 1))
        (demo_phases (Finished (Inr (Some (demo_resolved 0), Decided)))
           (Finished (Inr (Some (demo_resolved 1), Decided)))))"
proof -
  have "demo_step (demo_sys (demo_store demo_approval) (demo_phases Waiting Waiting))
      (demo_sys (demo_store demo_approval) (demo_phases (Holding demo_approval) Waiting))"
    using demo_read [of "demo_phases Waiting Waiting" 0] by simp
  moreover have "demo_step (demo_sys (demo_store demo_approval) (demo_phases (Holding demo_approval) Waiting))
      (demo_sys (demo_store demo_approval) (demo_phases (Holding demo_approval) (Holding demo_approval)))"
    using demo_read [of "demo_phases (Holding demo_approval) Waiting" 1] by simp
  moreover have "demo_step
      (demo_sys (demo_store demo_approval) (demo_phases (Holding demo_approval) (Holding demo_approval)))
      (demo_sys (demo_store (demo_resolved 0))
        (demo_phases (Finished (Inr (Some (demo_resolved 0), Decided))) (Holding demo_approval)))"
    using demo_write [of "demo_phases (Holding demo_approval) (Holding demo_approval)" 0 demo_approval] by simp
  moreover have "demo_step
      (demo_sys (demo_store (demo_resolved 0))
        (demo_phases (Finished (Inr (Some (demo_resolved 0), Decided))) (Holding demo_approval)))
      (demo_sys (demo_store (demo_resolved 1))
        (demo_phases (Finished (Inr (Some (demo_resolved 0), Decided)))
           (Finished (Inr (Some (demo_resolved 1), Decided)))))"
    using demo_write [of "demo_phases (Finished (Inr (Some (demo_resolved 0), Decided))) (Holding demo_approval)"
        1 "demo_resolved 0"] by simp
  ultimately show ?thesis
    unfolding demo_phases_simps(6) by (blast intro: converse_rtranclp_into_rtranclp)
qed

lemma demo_resolved_status:
  "ap_status (demo_resolved 0) = ''approved''" "ap_status (demo_resolved 1) = ''denied''"
  unfolding ap_status_resolve by (simp_all add: demo_callbacks_def)

theorem overlapping_decisions_same_request_witness:
  "ap_id (demo_resolved 1) = ap_id demo_approval \<and> ap_agent_id (demo_resolved 1) = ap_agent_id demo_approval \<and>
   ap_role (demo_resolved 1) = ap_role demo_approval \<and>
   ap_tool_name (demo_resolved 1) = ap_tool_name demo_approval \<and>
   ap_arguments (demo_resolved 1) = ap_arguments demo_approval \<and>
   (ap_status (demo_resolved 1) = ''approved'' \<longleftrightarrow> cb_decision (demo_callbacks 1) = ''approve'')"
proof -
  have "dumpable whole_repr whole_read (JFloat (Fin 30))" by code_simp
  then show ?thesis
    by (intro overlapping_decisions_same_request [OF fake_kv.redis_kv_axioms TrueI _ demo_storable _ _ _ demo_both_decided])
      (simp_all add: demo_sys_def demo_store_def fake_val_def expired_def)
qed

text \<open>
  Overlapping callbacks can both be told \<open>"decided"\<close>, with opposite decisions.  Two
  callbacks that both read the pending record before either writes it resolve it twice, so the
  tool call is both executed and reported denied; the store offers no atomic read-and-resolve.
\<close>

theorem overlapping_callbacks_both_decide:
  "\<exists>s a b. demo_step\<^sup>*\<^sup>* (demo_sys (demo_store demo_approval) (\<lambda>_. Waiting)) s \<and>
     ds_phase s 0 = Finished (Inr (Some a, Decided)) \<and> ap_status a = ''approved'' \<and>
     ds_phase s 1 = Finished (Inr (Some b, Decided)) \<and> ap_status b = ''denied''"
proof (intro exI conjI)
  show "demo_step\<^sup>*\<^sup>* (demo_sys (demo_store demo_approval) (\<lambda>_. Waiting))
     (demo_sys (demo_store (demo_resolved 1))
        (demo_phases (Finished (Inr (Some (demo_resolved 0), Decided)))
           (Finished (Inr (Some (demo_resolved 1), Decided)))))" by (rule demo_both_decided)
qed (simp_all only: demo_sys_def demo_resolved_status demo_phases_simps decide_sys.simps, simp_all only: demo_resolved_status)

end
