(* ===== verification/Sha256.thy ===== *)
theory Sha256
  imports PyValues "HOL-Library.Word"
begin

text \<open>
  The digests of Python's \<open>hashlib\<close> and \<open>hmac\<close> that the audit log and the Slack callback use:
  SHA-256 (FIPS 180-4) on 32-bit words, whose additions wrap around, and HMAC (RFC 2104) over it.
  Bytes are characters; the result is the lower-case hex digest.
\<close>

unbundle bit_operations_syntax

type_synonym u32 = "32 word"

section \<open>SHA-256\<close>

definition rotr32 :: "nat \<Rightarrow> u32 \<Rightarrow> u32" where
  "rotr32 n x = drop_bit n x OR push_bit (32 - n) x"

definition sha_K :: "u32 list" where
  "sha_K =
     [0x428a2f98, 0x71374491, 0xb5c0fbcf, 0xe9b5dba5, 0x3956c25b, 0x59f111f1, 0x923f82a4, 0xab1c5ed5,
      0xd807aa98, 0x12835b01, 0x243185be, 0x550c7dc3, 0x72be5d74, 0x80deb1fe, 0x9bdc06a7, 0xc19bf174,
      0xe49b69c1, 0xefbe4786, 0x0fc19dc6, 0x240ca1cc, 0x2de92c6f, 0x4a7484aa, 0x5cb0a9dc, 0x76f988da,
      0x983e5152, 0xa831c66d, 0xb00327c8, 0xbf597fc7, 0xc6e00bf3, 0xd5a79147, 0x06ca6351, 0x14292967,
      0x27b70a85, 0x2e1b2138, 0x4d2c6dfc, 0x53380d13, 0x650a7354, 0x766a0abb, 0x81c2c92e, 0x92722c85,
      0xa2bfe8a1, 0xa81a664b, 0xc24b8b70, 0xc76c51a3, 0xd192e819, 0xd6990624, 0xf40e3585, 0x106aa070,
      0x19a4c116, 0x1e376c08, 0x2748774c, 0x34b0bcb5, 0x391c0cb3, 0x4ed8aa4a, 0x5b9cca4f, 0x682e6ff3,
      0x748f82ee, 0x78a5636f, 0x84c87814, 0x8cc70208, 0x90befffa, 0xa4506ceb, 0xbef9a3f7, 0xc67178f2]"

type_synonym sha_state = "u32 \<times> u32 \<times> u32 \<times> u32 \<times> u32 \<times> u32 \<times> u32 \<times> u32"

definition sha_H0 :: sha_state where
  "sha_H0 =
     (0x6a09e667, 0xbb67ae85, 0x3c6ef372, 0xa54ff53a, 0x510e527f, 0x9b05688c, 0x1f83d9ab, 0x5be0cd19)"

text \<open>The padded message: a one bit, zeros, and the bit length in eight bytes.\<close>

definition byte_of_nat :: "nat \<Rightarrow> char" where
  "byte_of_nat n = char_of (n mod 256)"

definition sha_pad :: "string \<Rightarrow> string" where
  "sha_pad msg =
     (let n = length msg in
      msg @ [byte_of_nat 128] @ replicate ((119 - n mod 64) mod 64) (byte_of_nat 0)
        @ map (\<lambda>i. char_of ((8 * int n) div 256 ^ (7 - i) mod 256)) [0..<8])"

fun words_of_bytes :: "string \<Rightarrow> u32 list" where
  "words_of_bytes (a # b # c # d # rest) =
     (push_bit 24 (of_char a) OR push_bit 16 (of_char b) OR push_bit 8 (of_char c) OR of_char d)
       # words_of_bytes rest"
| "words_of_bytes _ = []"

definition small_sigma0 :: "u32 \<Rightarrow> u32" where
  "small_sigma0 x = rotr32 7 x XOR rotr32 18 x XOR drop_bit 3 x"

definition small_sigma1 :: "u32 \<Rightarrow> u32" where
  "small_sigma1 x = rotr32 17 x XOR rotr32 19 x XOR drop_bit 10 x"

text \<open>The message schedule: 48 words appended to the sixteen of the block.\<close>

fun extend_schedule :: "nat \<Rightarrow> u32 list \<Rightarrow> u32 list" where
  "extend_schedule 0 w = w"
| "extend_schedule (Suc n) w =
     (let i = length w in
      extend_schedule n
        (w @ [small_sigma1 (w ! (i - 2)) + w ! (i - 7) + small_sigma0 (w ! (i - 15)) + w ! (i - 16)]))"

definition sha_round :: "u32 \<times> u32 \<Rightarrow> sha_state \<Rightarrow> sha_state" where
  "sha_round kw st =
     (case st of (a, b, c, d, e, f, g, h) \<Rightarrow>
        (let s1 = rotr32 6 e XOR rotr32 11 e XOR rotr32 25 e;
             ch = (e AND f) XOR (NOT e AND g);
             t1 = h + s1 + ch + fst kw + snd kw;
             s0 = rotr32 2 a XOR rotr32 13 a XOR rotr32 22 a;
             mj = (a AND b) XOR (a AND c) XOR (b AND c);
             t2 = s0 + mj
         in (t1 + t2, a, b, c, d + t1, e, f, g)))"

definition sha_add :: "sha_state \<Rightarrow> sha_state \<Rightarrow> sha_state" where
  "sha_add x y =
     (case (x, y) of ((a, b, c, d, e, f, g, h), (a', b', c', d', e', f', g', h')) \<Rightarrow>
        (a + a', b + b', c + c', d + d', e + e', f + f', g + g', h + h'))"

definition sha_block :: "u32 list \<Rightarrow> sha_state \<Rightarrow> sha_state" where
  "sha_block w st = sha_add st (fold sha_round (zip sha_K (extend_schedule 48 w)) st)"

fun sha_blocks :: "nat \<Rightarrow> u32 list \<Rightarrow> sha_state \<Rightarrow> sha_state" where
  "sha_blocks 0 ws st = st"
| "sha_blocks (Suc n) ws st =
     (if ws = [] then st else sha_blocks n (drop 16 ws) (sha_block (take 16 ws) st))"

definition sha_words :: "sha_state \<Rightarrow> u32 list" where
  "sha_words st = (case st of (a, b, c, d, e, f, g, h) \<Rightarrow> [a, b, c, d, e, f, g, h])"

definition sha256 :: "string \<Rightarrow> u32 list" where
  "sha256 msg =
     (let ws = words_of_bytes (sha_pad msg) in sha_words (sha_blocks (length ws) ws sha_H0))"

definition hex_word :: "u32 \<Rightarrow> string" where
  "hex_word w = map (\<lambda>i. hex_digit (unat (drop_bit (28 - 4 * i) w AND 15))) [0..<8]"

definition bytes_of_word :: "u32 \<Rightarrow> string" where
  "bytes_of_word w = map (\<lambda>i. char_of (uint (drop_bit (24 - 8 * i) w AND 255))) [0..<4]"

definition sha256_hexdigest :: "string \<Rightarrow> string" where
  "sha256_hexdigest msg = concat (map hex_word (sha256 msg))"

definition sha256_digest :: "string \<Rightarrow> string" where
  "sha256_digest msg = concat (map bytes_of_word (sha256 msg))"

section \<open>HMAC\<close>

definition hmac_key :: "string \<Rightarrow> string" where
  "hmac_key k =
     (let k' = (if 64 < length k then sha256_digest k else k)
      in k' @ replicate (64 - length k') (byte_of_nat 0))"

definition xor_byte :: "nat \<Rightarrow> char \<Rightarrow> char" where
  "xor_byte n c = char_of (n XOR code c)"

definition hmac_sha256_hexdigest :: "string \<Rightarrow> string \<Rightarrow> string" where
  "hmac_sha256_hexdigest k msg =
     (let key = hmac_key k
      in sha256_hexdigest (map (xor_byte 92) key @ sha256_digest (map (xor_byte 54) key @ msg)))"

section \<open>Facts\<close>

lemma length_hex_word [simp]: "length (hex_word w) = 8"
  by (simp add: hex_word_def)

lemma length_sha256 [simp]: "length (sha256 msg) = 8"
  by (simp add: sha256_def Let_def sha_words_def split: prod.splits)

lemma length_sha256_hexdigest [simp]: "length (sha256_hexdigest msg) = 64"
proof -
  have "length (concat (map hex_word ws)) = 8 * length ws" for ws :: "u32 list"
    by (induction ws) simp_all
  then show ?thesis by (simp add: sha256_hexdigest_def)
qed

lemma is_ascii_append [simp]: "is_ascii (s @ t) \<longleftrightarrow> is_ascii s \<and> is_ascii t"
  by (auto simp: is_ascii_def)

lemma is_ascii_Cons [simp]: "is_ascii (c # s) \<longleftrightarrow> code c < 128 \<and> is_ascii s" "is_ascii []"
  by (simp_all add: is_ascii_def)

lemma is_ascii_sha256_hexdigest: "is_ascii (sha256_hexdigest msg)"
proof -
  have "unat (x AND 15) < 16" for x :: u32
    using word_and_le1 [of x 15] by (simp add: word_le_nat_alt)
  then have "code c < 128" if "c \<in> set (hex_word w)" for c w
  proof -
    from that obtain i where "c = hex_digit (unat (drop_bit (28 - 4 * i) w AND 15))"
      by (auto simp: hex_word_def)
    then show ?thesis
      using hex_digit_printable [of "unat (drop_bit (28 - 4 * i) w AND 15)"]
        \<open>\<And>x. unat (x AND 15) < 16\<close> [of "drop_bit (28 - 4 * i) w"] by simp
  qed
  then show ?thesis by (auto simp: is_ascii_def sha256_hexdigest_def)
qed

text \<open>The extension always finds the words it looks back to.\<close>

lemma length_extend_schedule [simp]: "length (extend_schedule n w) = n + length w"
  by (induction n w rule: extend_schedule.induct) (simp_all add: Let_def)

text \<open>The padded message is a whole number of blocks.\<close>

lemma length_sha_pad: "length (sha_pad msg) mod 64 = 0"
proof -
  have "length (sha_pad msg) = length msg + 9 + (119 - length msg mod 64) mod 64"
    by (simp add: sha_pad_def Let_def)
  moreover have "(n + 9 + (119 - n mod 64) mod 64) mod 64 = 0" for n :: nat
  proof -
    have "(n + 9 + (119 - n mod 64) mod 64) mod 64 = (n mod 64 + 9 + (119 - n mod 64)) mod 64"
      by (metis (no_types, lifting) mod_add_left_eq mod_add_right_eq)
    also have "n mod 64 + 9 + (119 - n mod 64) = 128" by (simp add: less_imp_le)
    finally show ?thesis by simp
  qed
  ultimately show ?thesis by simp
qed

end
