(* ===== verification/Slack.thy ===== *)
theory Slack
  imports Approvals Sha256
begin

text \<open>
  \<open>app/slack.py\<close>: the signature check of the decision callback and the notification of a
  pending approval.  Header values and the body are the characters Starlette hands over; the
  signing secret is a parameter, the HMAC is that of \<open>Sha256\<close>.  What posting to the webhook
  does is a parameter.
\<close>

section \<open>Verifying a callback\<close>

definition REPLAY_TOLERANCE_SECONDS :: int where
  "REPLAY_TOLERANCE_SECONDS = 300"

text \<open>\<open>float - int\<close> raises when the integer rounds beyond the largest double.\<close>

definition int_too_large :: "int \<Rightarrow> bool" where
  "int_too_large i \<longleftrightarrow> 2 ^ 1024 - 2 ^ 970 \<le> \<bar>i\<bar>"

text \<open>\<open>hmac.compare_digest\<close> on two strings: only ASCII ones are compared.\<close>

definition compare_digest :: "string \<Rightarrow> string \<Rightarrow> bool result" where
  "compare_digest a b =
     (if is_ascii a \<and> is_ascii b then Inr (a = b)
      else Inl (PyError TypeError ''comparing strings with non-ASCII characters is not supported''))"

definition slack_basestring :: "string \<Rightarrow> string \<Rightarrow> string" where
  "slack_basestring timestamp body = ''v0:'' @ utf8 timestamp @ '':'' @ body"

definition slack_signature :: "string \<Rightarrow> string \<Rightarrow> string \<Rightarrow> string" where
  "slack_signature secret timestamp body =
     ''v0='' @ hmac_sha256_hexdigest (utf8 secret) (slack_basestring timestamp body)"

definition verify_signature ::
  "string \<Rightarrow> rat \<Rightarrow> string option \<Rightarrow> string \<Rightarrow> string option \<Rightarrow> bool result" where
  "verify_signature secret now timestamp body signature =
     (case (timestamp, signature) of
        (Some ts, Some sg) \<Rightarrow>
          (if ts = [] \<or> sg = [] \<or> secret = [] then Inr False
           else (case py_int ts of
                   None \<Rightarrow> Inr False
                 | Some request_ts \<Rightarrow>
                     if int_too_large request_ts
                     then Inl (PyError OverflowError ''int too large to convert to float'')
                     else if of_int REPLAY_TOLERANCE_SECONDS < \<bar>now - of_int request_ts\<bar> then Inr False
                     else compare_digest (slack_signature secret ts body) sg))
      | _ \<Rightarrow> Inr False)"

section \<open>Notifying Slack\<close>

datatype slack_reply =
    SlackOk
  | SlackHTTPError string   \<comment> \<open>\<open>httpx.HTTPError\<close>, caught and logged\<close>
  | SlackRaises string      \<comment> \<open>anything else, e.g. an invalid URL\<close>

definition backquoted :: "string \<Rightarrow> string" where
  "backquoted s = CHR 0x60 # s @ [CHR 0x60]"

definition slack_button :: "string \<Rightarrow> string \<Rightarrow> string \<Rightarrow> string \<Rightarrow> json" where
  "slack_button label style action i =
     JObj [(''type'', JStr ''button''),
           (''text'', JObj [(''type'', JStr ''plain_text''), (''text'', JStr label)]),
           (''style'', JStr style), (''action_id'', JStr action), (''value'', JStr i)]"

definition slack_message :: "(rat \<Rightarrow> string) \<Rightarrow> Approval \<Rightarrow> json" where
  "slack_message fr a =
     JObj [(''text'', JStr (''Approval required: '' @ ap_tool_name a @ '' by '' @ ap_agent_id a)),
       (''blocks'', JList
         [JObj [(''type'', JStr ''section''),
             (''text'', JObj [(''type'', JStr ''mrkdwn''),
               (''text'', JStr
                 (''*Approval required*'' @ [CHR 0x0A]
                  @ ''Agent: '' @ backquoted (ap_agent_id a) @ '' ('' @ ap_role a @ '')'' @ [CHR 0x0A]
                  @ ''Tool: '' @ backquoted (ap_tool_name a) @ [CHR 0x0A]
                  @ ''Arguments: '' @ backquoted (py_str fr (JObj (ap_arguments a))) @ [CHR 0x0A]
                  @ ''Reason: '' @ ap_reason a @ [CHR 0x0A]
                  @ ''Approval ID: '' @ backquoted (ap_id a)))])],
          JObj [(''type'', JStr ''actions''),
             (''elements'', JList
               [slack_button ''Approve'' ''primary'' ''approve'' (ap_id a),
                slack_button ''Deny'' ''danger'' ''deny'' (ap_id a)])]])]"

text \<open>The messages handed to the webhook so far are the state; \<open>post\<close> says how the webhook answers.\<close>

definition send_approval_request ::
  "(rat \<Rightarrow> string) \<Rightarrow> string \<Rightarrow> (json \<Rightarrow> slack_reply) \<Rightarrow> Approval \<Rightarrow> json list \<Rightarrow> unit result \<times> json list" where
  "send_approval_request fr url post a sent =
     (if url = [] then (Inr (), sent)
      else (let message = slack_message fr a in
            (case post message of
               SlackRaises m \<Rightarrow> (Inl (PyError OtherError m), sent)
             | _ \<Rightarrow> (Inr (), sent @ [message]))))"

section \<open>What the check accepts\<close>

lemma is_ascii_slack_signature: "is_ascii (slack_signature secret ts body)"
  by (simp add: slack_signature_def hmac_sha256_hexdigest_def Let_def is_ascii_sha256_hexdigest)

lemma verify_signature_iff:
  "verify_signature secret now timestamp body signature = Inr True \<longleftrightarrow>
     (\<exists>ts i. timestamp = Some ts \<and> signature = Some (slack_signature secret ts body) \<and> secret \<noteq> [] \<and>
        py_int ts = Some i \<and> \<not> int_too_large i \<and> \<bar>now - of_int i\<bar> \<le> of_int REPLAY_TOLERANCE_SECONDS)"
proof -
  have "slack_signature secret ts body \<noteq> []" "[] \<noteq> slack_signature secret ts body" for ts
    by (simp_all add: slack_signature_def)
  moreover have "py_int [] = None" by (simp add: py_int_def strip_by_def)
  ultimately show ?thesis
    using is_ascii_slack_signature
    by (auto simp: verify_signature_def compare_digest_def not_less split: option.splits if_splits)
qed

text \<open>
  C15: what passes the check.  A callback is accepted exactly when its timestamp is an integer
  within 300 seconds of now and its signature is the HMAC of the timestamp and this very body
  under the configured, non-empty secret; with no secret configured nothing is accepted.
\<close>

theorem verify_signature_exact:
  "verify_signature secret now timestamp body signature = Inr True \<longleftrightarrow>
     (\<exists>ts i. timestamp = Some ts \<and> secret \<noteq> [] \<and> py_int ts = Some i \<and> \<not> int_too_large i \<and>
        \<bar>now - of_int i\<bar> \<le> 300 \<and>
        signature = Some (''v0='' @ hmac_sha256_hexdigest (utf8 secret) (''v0:'' @ utf8 ts @ '':'' @ body)))"
  unfolding verify_signature_iff
  by (auto simp: slack_signature_def slack_basestring_def REPLAY_TOLERANCE_SECONDS_def)

text \<open>
  A captured callback cannot be replayed.  A request accepted at one time is refused at every
  time more than 600 seconds later, whatever happened in between.
\<close>

theorem replay_refused:
  assumes "verify_signature secret t timestamp body signature = Inr True" "t + 600 < t'"
  shows "verify_signature secret t' timestamp body signature = Inr False"
proof -
  obtain ts i where ts: "timestamp = Some ts" "signature = Some (slack_signature secret ts body)"
    "secret \<noteq> []" "py_int ts = Some i" "\<not> int_too_large i" "\<bar>t - of_int i\<bar> \<le> 300"
    using assms(1) unfolding verify_signature_iff by (auto simp: REPLAY_TOLERANCE_SECONDS_def)
  moreover have "300 < \<bar>t' - of_int i\<bar>" using ts(6) assms(2) by linarith
  moreover have "ts \<noteq> []" using ts(4) by (auto simp: py_int_def strip_by_def)
  moreover have "slack_signature secret ts body \<noteq> []" by (simp add: slack_signature_def)
  ultimately show ?thesis by (simp add: verify_signature_def REPLAY_TOLERANCE_SECONDS_def)
qed

theorem replay_refused_witness:
  "verify_signature ''s3cret'' 2000 (Some ''1000'') ''{}'' (Some (slack_signature ''s3cret'' ''1000'' ''{}''))
     = Inr False"
proof -
  have "py_int ''1000'' = Some 1000" "\<not> int_too_large 1000"
    by code_simp+
  then have "verify_signature ''s3cret'' 1000 (Some ''1000'') ''{}''
      (Some (slack_signature ''s3cret'' ''1000'' ''{}'')) = Inr True"
    unfolding verify_signature_iff by (simp add: REPLAY_TOLERANCE_SECONDS_def)
  from replay_refused [OF this, of 2000] show ?thesis by simp
qed

text \<open>
  Two unhandled inputs.  With a secret configured, a signature with a non-ASCII character next
  to a current timestamp makes \<open>compare_digest\<close> raise, and a timestamp too large for a double
  makes the subtraction raise: the unauthenticated caller gets a server error, not a 401.
\<close>

theorem verify_signature_raises:
  assumes "secret \<noteq> []" "sg \<noteq> []" "py_int ts = Some i"
  shows "(\<not> int_too_large i \<and> \<bar>now - of_int i\<bar> \<le> 300 \<and> \<not> is_ascii sg \<longrightarrow>
      (\<exists>m. verify_signature secret now (Some ts) body (Some sg) = Inl (PyError TypeError m))) \<and>
    (int_too_large i \<longrightarrow>
      (\<exists>m. verify_signature secret now (Some ts) body (Some sg) = Inl (PyError OverflowError m)))"
proof -
  have "ts \<noteq> []" using assms(3) by (auto simp: py_int_def strip_by_def)
  with assms show ?thesis
    by (auto simp: verify_signature_def compare_digest_def REPLAY_TOLERANCE_SECONDS_def)
qed

theorem verify_signature_raises_witness:
  "\<exists>m. verify_signature ''s3cret'' 1000 (Some ''1000'') ''{}'' (Some [CHR 0xE9]) = Inl (PyError TypeError m)"
proof -
  have "py_int ''1000'' = Some 1000" "\<not> int_too_large 1000" "\<not> is_ascii [CHR 0xE9]"
    by code_simp+
  then show ?thesis
    using verify_signature_raises [of "''s3cret''" "[CHR 0xE9]" "''1000''" 1000 1000 "''{}''"] by simp
qed

end
