(* ===== verification/Sse_Hub.thy ===== *)
theory Sse_Hub
  imports PyValues
begin

text \<open>
  \<open>app/sse_hub.py\<close>: the in-process subscriptions of agents' open event streams, and the loop of
  the \<open>/mcp/sse\<close> endpoint that drains one.  A queue object is a number, its content a list of
  events; \<open>_subscribers\<close> is a dictionary from agent ids to lists of queues.
\<close>

section \<open>State and operations\<close>

record hub =
  subscribers :: "(string \<times> nat list) list"
  queues :: "nat \<Rightarrow> dict list"
  next_queue :: nat

definition empty_hub :: hub where
  "empty_hub = \<lparr>subscribers = [], queues = (\<lambda>_. []), next_queue = 0\<rparr>"

definition subscribed :: "hub \<Rightarrow> string \<Rightarrow> nat list" where
  "subscribed h agent = (case map_of (subscribers h) agent of None \<Rightarrow> [] | Some qs \<Rightarrow> qs)"

text \<open>\<open>del d[k]\<close> on a key that is there.\<close>

definition dict_del :: "'k \<Rightarrow> ('k \<times> 'v) list \<Rightarrow> ('k \<times> 'v) list" where
  "dict_del k d = filter (\<lambda>p. fst p \<noteq> k) d"

text \<open>Entering the context manager: a new queue, appended to the agent's list.\<close>

definition subscribe_enter :: "string \<Rightarrow> hub \<Rightarrow> nat \<times> hub" where
  "subscribe_enter agent h =
     (let q = next_queue h in
      (q, h\<lparr>next_queue := Suc q, queues := (queues h)(q := []),
            subscribers := dict_set agent (subscribed h agent @ [q]) (subscribers h)\<rparr>))"

text \<open>Leaving it: \<open>list.remove\<close>, and the key goes with the last queue.\<close>

definition subscribe_exit :: "string \<Rightarrow> nat \<Rightarrow> hub \<Rightarrow> unit result \<times> hub" where
  "subscribe_exit agent q h =
     (case map_of (subscribers h) agent of
        None \<Rightarrow> (Inl (PyError KeyError (quoted agent)), h)
      | Some qs \<Rightarrow>
          if q \<notin> set qs then (Inl (PyError ValueError ''list.remove(x): x not in list''), h)
          else (Inr (), h\<lparr>subscribers :=
                  (if remove1 q qs = [] then dict_del agent (subscribers h)
                   else dict_set agent (remove1 q qs) (subscribers h))\<rparr>))"

definition publish :: "string \<Rightarrow> dict \<Rightarrow> hub \<Rightarrow> hub" where
  "publish agent event h =
     fold (\<lambda>q h. h\<lparr>queues := (queues h)(q := queues h q @ [event])\<rparr>) (subscribed h agent) h"

text \<open>\<open>wait_for(queue.get(), timeout)\<close>: the oldest event, or \<open>None\<close> for a timeout.\<close>

definition queue_get :: "nat \<Rightarrow> hub \<Rightarrow> dict option \<times> hub" where
  "queue_get q h =
     (case queues h q of
        [] \<Rightarrow> (None, h)
      | e # es \<Rightarrow> (Some e, h\<lparr>queues := (queues h)(q := es)\<rparr>))"

text \<open>
  One turn of the \<open>event_generator\<close> loop: what is yielded (event name and data), or the end of the
  stream, which leaves the subscription.
\<close>

definition sse_turn ::
  "(rat \<Rightarrow> string) \<Rightarrow> bool \<Rightarrow> string \<Rightarrow> nat \<Rightarrow> hub \<Rightarrow> (string \<times> string) option result \<times> hub" where
  "sse_turn fr disconnected agent q h =
     (if disconnected
      then (case subscribe_exit agent q h of
              (Inl e, h1) \<Rightarrow> (Inl e, h1) | (Inr _, h1) \<Rightarrow> (Inr None, h1))
      else (case queue_get q h of
              (Some event, h1) \<Rightarrow> (Inr (Some (''approval_result'', json_dumps fr False (JObj event))), h1)
            | (None, h1) \<Rightarrow> (Inr (Some (''message'', ''heartbeat'')), h1)))"

section \<open>Invariant\<close>

text \<open>
  Each agent has one entry and it is not empty; no queue is listed twice, of one agent or of two;
  every listed queue was handed out.
\<close>

definition hub_ok :: "hub \<Rightarrow> bool" where
  "hub_ok h \<longleftrightarrow>
     distinct (map fst (subscribers h)) \<and> (\<forall>(g, qs) \<in> set (subscribers h). qs \<noteq> []) \<and>
     (\<forall>g. distinct (subscribed h g)) \<and>
     (\<forall>g g'. g \<noteq> g' \<longrightarrow> set (subscribed h g) \<inter> set (subscribed h g') = {}) \<and>
     (\<forall>g. \<forall>q \<in> set (subscribed h g). q < next_queue h)"

lemma map_of_dict_del [simp]: "map_of (dict_del k d) = (map_of d)(k := None)"
  by (simp add: dict_del_def map_of_filter_neq)

lemma set_dict_set_subset: "set (dict_set k v d) \<subseteq> insert (k, v) (set d)"
  by (induction k v d rule: dict_set.induct) auto

lemma subscribed_simps [simp]:
  "subscribed (h\<lparr>queues := x\<rparr>) g = subscribed h g"
  "subscribed (h\<lparr>next_queue := n\<rparr>) g = subscribed h g"
  "subscribed (h\<lparr>subscribers := dict_set k v (subscribers h)\<rparr>) g = (if g = k then v else subscribed h g)"
  "subscribed (h\<lparr>subscribers := dict_del k (subscribers h)\<rparr>) g = (if g = k then [] else subscribed h g)"
  by (simp_all add: subscribed_def)

lemma hub_ok_empty: "hub_ok empty_hub"
  by (simp add: hub_ok_def empty_hub_def subscribed_def)

lemma subscribed_enter:
  assumes "subscribe_enter g h = (q, h')"
  shows "q = next_queue h" "next_queue h' = Suc q"
    "subscribed h' g' = (if g' = g then subscribed h g @ [q] else subscribed h g')"
    "queues h' = (queues h)(q := [])"
  using assms by (auto simp: subscribe_enter_def Let_def subscribed_def)

lemma hub_ok_enter:
  assumes "hub_ok h" "subscribe_enter g h = (q, h')"
  shows "hub_ok h'"
proof -
  have new: "q \<notin> set (subscribed h x)" for x
    using assms(1) subscribed_enter(1) [OF assms(2)] by (auto simp: hub_ok_def)
  have subs: "subscribers h' = dict_set g (subscribed h g @ [q]) (subscribers h)"
    using assms(2) by (auto simp: subscribe_enter_def Let_def)
  have "distinct (map fst (subscribers h'))" "\<forall>(x, qs) \<in> set (subscribers h'). qs \<noteq> []"
    using assms(1) set_dict_set_subset [of g "subscribed h g @ [q]" "subscribers h"]
    unfolding subs hub_ok_def by (auto simp: distinct_dict_set)
  moreover have "\<forall>x. distinct (subscribed h' x)"
    using assms(1) new by (simp add: subscribed_enter [OF assms(2)] hub_ok_def)
  moreover have "\<forall>x y. x \<noteq> y \<longrightarrow> set (subscribed h' x) \<inter> set (subscribed h' y) = {}"
    using assms(1) new by (simp add: subscribed_enter [OF assms(2)] hub_ok_def)
  moreover have "\<forall>x. \<forall>p \<in> set (subscribed h' x). p < next_queue h'"
    using assms(1) by (auto simp: subscribed_enter [OF assms(2)] hub_ok_def less_Suc_eq)
  ultimately show ?thesis by (simp add: hub_ok_def)
qed

lemma hub_ok_fewer:
  assumes "hub_ok h" "distinct (map fst (subscribers h'))" "\<forall>(x, qs) \<in> set (subscribers h'). qs \<noteq> []"
    and "\<forall>x. distinct (subscribed h' x)" "\<And>x. set (subscribed h' x) \<subseteq> set (subscribed h x)"
    and "next_queue h' = next_queue h"
  shows "hub_ok h'"
proof -
  have "set (subscribed h' x) \<inter> set (subscribed h' y) = {}" if "x \<noteq> y" for x y
  proof -
    have "set (subscribed h x) \<inter> set (subscribed h y) = {}" using assms(1) that by (simp add: hub_ok_def)
    then show ?thesis using assms(5) [of x] assms(5) [of y] by blast
  qed
  moreover have "p < next_queue h'" if "p \<in> set (subscribed h' x)" for x p
    using assms(1,6) assms(5) [of x] that by (auto simp: hub_ok_def)
  ultimately show ?thesis using assms(2-4) by (simp add: hub_ok_def)
qed

text \<open>Leaving removes the queue from its agent's list and touches nothing else.\<close>

lemma subscribe_exit_spec:
  assumes "hub_ok h" "q \<in> set (subscribed h g)"
  shows "\<exists>h'. subscribe_exit g q h = (Inr (), h') \<and>
    (\<forall>g'. subscribed h' g' = (if g' = g then remove1 q (subscribed h g) else subscribed h g')) \<and>
    queues h' = queues h \<and> next_queue h' = next_queue h \<and> hub_ok h'"
proof -
  obtain qs where qs: "map_of (subscribers h) g = Some qs" "subscribed h g = qs"
    using assms(2) by (cases "map_of (subscribers h) g") (simp_all add: subscribed_def)
  let ?h = "h\<lparr>subscribers := (if remove1 q qs = [] then dict_del g (subscribers h)
                   else dict_set g (remove1 q qs) (subscribers h))\<rparr>"
  have run: "subscribe_exit g q h = (Inr (), ?h)" using qs assms(2) by (simp add: subscribe_exit_def)
  have subs: "subscribed ?h x = (if x = g then remove1 q (subscribed h g) else subscribed h x)" for x
    using qs by auto
  have dist: "distinct (subscribed h x)" for x using assms(1) by (simp add: hub_ok_def)
  have "distinct (map fst (subscribers ?h))" "\<forall>(x, qs) \<in> set (subscribers ?h). qs \<noteq> []"
    using assms(1) set_dict_set_subset [of g "remove1 q qs" "subscribers h"]
    unfolding hub_ok_def by (auto simp: distinct_dict_set dict_del_def distinct_map_filter)
  moreover have "\<forall>x. distinct (subscribed ?h x)"
    unfolding subs using dist by (simp add: distinct_remove1)
  moreover have "set (subscribed ?h x) \<subseteq> set (subscribed h x)" for x
    unfolding subs using set_remove1_subset [of q "subscribed h g"] by simp
  ultimately have "hub_ok ?h" by (intro hub_ok_fewer [OF assms(1)]) simp_all
  with run subs show ?thesis by auto
qed

text \<open>Publishing appends the event to every queue of the agent, once, and to no other.\<close>

lemma publish_spec:
  assumes "hub_ok h"
  shows "subscribed (publish g ev h) g' = subscribed h g'"
    and "queues (publish g ev h) q = (if q \<in> set (subscribed h g) then queues h q @ [ev] else queues h q)"
    and "hub_ok (publish g ev h)"
proof -
  let ?f = "\<lambda>q h. h\<lparr>queues := (queues h)(q := queues h q @ [ev])\<rparr>"
  have step: "subscribers (fold ?f qs h) = subscribers h \<and> next_queue (fold ?f qs h) = next_queue h \<and>
      (distinct qs \<longrightarrow>
         queues (fold ?f qs h) q = (if q \<in> set qs then queues h q @ [ev] else queues h q))"
    for qs q and h :: hub
    by (induction qs arbitrary: h) auto
  from step [of "subscribed h g" h] have pub: "subscribers (publish g ev h) = subscribers h"
    "next_queue (publish g ev h) = next_queue h" by (simp_all add: publish_def)
  show subs: "subscribed (publish g ev h) g' = subscribed h g'" for g'
    using pub by (simp add: subscribed_def)
  show "queues (publish g ev h) q = (if q \<in> set (subscribed h g) then queues h q @ [ev] else queues h q)"
    using assms step [of "subscribed h g" h q] by (simp add: publish_def hub_ok_def)
  show "hub_ok (publish g ev h)" using assms pub subs by (simp add: hub_ok_def)
qed

lemma hub_ok_queues [simp]: "hub_ok (h\<lparr>queues := x\<rparr>) = hub_ok h"
  by (simp add: hub_ok_def)

lemma queue_get_spec:
  "hub_ok h \<Longrightarrow> queue_get q h = (x, h') \<Longrightarrow>
   hub_ok h' \<and> subscribers h' = subscribers h \<and>
   queues h q = (case x of None \<Rightarrow> [] | Some e \<Rightarrow> [e]) @ queues h' q \<and> (\<forall>p. p \<noteq> q \<longrightarrow> queues h' p = queues h p)"
  by (auto simp: queue_get_def split: list.splits)

section \<open>Reachable hubs\<close>

text \<open>
  The steps of the running process: a stream opens, a stream that was opened closes, a decision is
  published, a stream takes its next event.
\<close>

inductive hub_reachable :: "hub \<Rightarrow> bool" where
  start: "hub_reachable empty_hub"
| enter: "hub_reachable h \<Longrightarrow> subscribe_enter g h = (q, h') \<Longrightarrow> hub_reachable h'"
| leave: "hub_reachable h \<Longrightarrow> q \<in> set (subscribed h g) \<Longrightarrow> subscribe_exit g q h = (x, h') \<Longrightarrow>
    hub_reachable h'"
| push: "hub_reachable h \<Longrightarrow> hub_reachable (publish g ev h)"
| pull: "hub_reachable h \<Longrightarrow> queue_get q h = (x, h') \<Longrightarrow> hub_reachable h'"

lemma reachable_hub_ok: "hub_reachable h \<Longrightarrow> hub_ok h"
proof (induction rule: hub_reachable.induct)
  case (leave h q g x h')
  then show ?case using subscribe_exit_spec [of h q g] by auto
next
  case (pull h q x h')
  then show ?case using queue_get_spec by blast
qed (auto simp: hub_ok_empty publish_spec intro: hub_ok_enter)

text \<open>
  C31: a decision reaches the right streams.  In every reachable state, publishing an event for an
  agent appends it exactly once to each queue that agent has open, to no other queue, and leaves
  the subscriptions as they are.
\<close>

theorem publish_reaches_subscribers:
  assumes "hub_reachable h"
  shows "queues (publish g ev h) q = (if q \<in> set (subscribed h g) then queues h q @ [ev] else queues h q)
    \<and> subscribed (publish g ev h) g' = subscribed h g'
    \<and> (q \<in> set (subscribed h g) \<and> g' \<noteq> g \<longrightarrow> q \<notin> set (subscribed h g'))"
proof -
  have "hub_ok h" by (rule reachable_hub_ok [OF assms])
  moreover from this have "g' \<noteq> g \<longrightarrow> set (subscribed h g) \<inter> set (subscribed h g') = {}"
    by (simp add: hub_ok_def)
  ultimately show ?thesis by (auto simp: publish_spec)
qed

theorem publish_reaches_subscribers_witness:
  "queues (publish ''agent01'' [(''status'', JStr ''denied'')] (snd (subscribe_enter ''agent01'' empty_hub))) 0
     = [[(''status'', JStr ''denied'')]]"
proof -
  have "hub_reachable (snd (subscribe_enter ''agent01'' empty_hub))"
    by (rule hub_reachable.enter [OF hub_reachable.start surjective_pairing])
  from publish_reaches_subscribers [OF this, of "''agent01''" "[(''status'', JStr ''denied'')]" 0 "''x''"]
  show ?thesis
    by (simp add: subscribe_enter_def Let_def subscribed_def empty_hub_def)
qed

text \<open>
  C30: closing a stream always succeeds and leaves no trace.  In every reachable state a stream
  that is open can be closed without an exception; its queue is gone from the subscriptions, the
  others stay, and an agent with no stream left has no entry.
\<close>

theorem stream_closes:
  assumes "hub_reachable h" "q \<in> set (subscribed h g)"
  shows "\<exists>h'. subscribe_exit g q h = (Inr (), h') \<and>
    subscribed h' g' = (if g' = g then remove1 q (subscribed h g) else subscribed h g') \<and>
    (\<forall>g'. q \<notin> set (subscribed h' g')) \<and> [] \<notin> snd ` set (subscribers h')"
proof -
  have ok: "hub_ok h" by (rule reachable_hub_ok [OF assms(1)])
  obtain h' where h': "subscribe_exit g q h = (Inr (), h')" "hub_ok h'"
    "\<forall>g'. subscribed h' g' = (if g' = g then remove1 q (subscribed h g) else subscribed h g')"
    using subscribe_exit_spec [OF ok assms(2)] by blast
  have "distinct (subscribed h g)" and others: "g \<noteq> x \<longrightarrow> q \<notin> set (subscribed h x)" for x
    using ok assms(2) by (simp_all add: hub_ok_def) blast
  then have "q \<notin> set (subscribed h' x)" for x
    unfolding h'(3) [rule_format] using others [of x] by simp
  moreover have "[] \<notin> snd ` set (subscribers h')" using h'(2) by (auto simp: hub_ok_def)
  ultimately show ?thesis using h' by blast
qed

theorem stream_closes_witness:
  "\<exists>h'. subscribe_exit ''agent01'' 0 (snd (subscribe_enter ''agent01'' empty_hub)) = (Inr (), h') \<and>
     subscribed h' ''agent01'' = [] \<and> [] \<notin> snd ` set (subscribers h')"
proof -
  have sub: "subscribed (snd (subscribe_enter ''agent01'' empty_hub)) ''agent01'' = [0]"
    by (simp add: subscribe_enter_def Let_def subscribed_def empty_hub_def)
  have "hub_reachable (snd (subscribe_enter ''agent01'' empty_hub))"
    by (rule hub_reachable.enter [OF hub_reachable.start surjective_pairing])
  from stream_closes [OF this, of 0 "''agent01''" "''agent01''"] sub show ?thesis by auto
qed

end
