(* ===== verification/Timestamps.thy ===== *)
theory Timestamps
  imports PyStr
begin

text \<open>
  The part of Python's \<open>datetime\<close> the audit log uses.  An aware UTC datetime is its number of
  microseconds since 1970-01-01T00:00:00 (what a Postgres \<open>timestamptz\<close> keeps);
  \<open>fromtimestamp\<close> rounds a float to it, half to even, and \<open>isoformat\<close> prints it.
\<close>

definition round_half_even :: "rat \<Rightarrow> int" where
  "round_half_even r =
     (let f = \<lfloor>r\<rfloor>; d = r - of_int f in
      if d < 1 / 2 then f else if 1 / 2 < d then f + 1 else if f mod 2 = 0 then f else f + 1)"

definition fromtimestamp :: "rat \<Rightarrow> int" where
  "fromtimestamp t = round_half_even (t * 1000000)"

definition DAY_MICROS :: int where
  "DAY_MICROS = 86400 * 1000000"

text \<open>The civil date of a day number (400-year eras of the proleptic Gregorian calendar).\<close>

definition civil_of_days :: "int \<Rightarrow> int \<times> int \<times> int" where
  "civil_of_days d =
     (let z = d + 719468;
          era = z div 146097;
          doe = z mod 146097;
          yoe = (doe - doe div 1460 + doe div 36524 - doe div 146096) div 365;
          doy = doe - (365 * yoe + yoe div 4 - yoe div 100);
          mp = (5 * doy + 2) div 153;
          dd = doy - (153 * mp + 2) div 5 + 1;
          mm = (if mp < 10 then mp + 3 else mp - 9);
          yy = yoe + era * 400 + (if mm \<le> 2 then 1 else 0)
      in (yy, mm, dd))"

definition pad_int :: "nat \<Rightarrow> int \<Rightarrow> string" where
  "pad_int w i = (let s = string_of_int i in replicate (w - length s) CHR ''0'' @ s)"

text \<open>\<open>date().isoformat()\<close> and \<open>isoformat()\<close> of an aware UTC datetime.\<close>

definition isodate :: "int \<Rightarrow> string" where
  "isodate t =
     (case civil_of_days (t div DAY_MICROS) of
        (y, m, d) \<Rightarrow> pad_int 4 y @ ''-'' @ pad_int 2 m @ ''-'' @ pad_int 2 d)"

definition isoformat :: "int \<Rightarrow> string" where
  "isoformat t =
     (let us = t mod DAY_MICROS; secs = us div 1000000; frac = us mod 1000000 in
      isodate t @ ''T'' @ pad_int 2 (secs div 3600) @ '':'' @ pad_int 2 (secs div 60 mod 60) @ '':''
        @ pad_int 2 (secs mod 60) @ (if frac = 0 then [] else ''.'' @ pad_int 6 frac) @ ''+00:00'')"

text \<open>Midnight of the same day: \<open>replace(hour=0, minute=0, second=0, microsecond=0)\<close>.\<close>

definition midnight :: "int \<Rightarrow> int" where
  "midnight t = t - t mod DAY_MICROS"

lemma midnight_bounds: "midnight t \<le> t" "t < midnight t + DAY_MICROS"
  by (simp_all add: midnight_def DAY_MICROS_def algebra_simps)

lemma midnight_eq: "midnight t = DAY_MICROS * (t div DAY_MICROS)"
  by (simp add: midnight_def minus_mod_eq_mult_div)

lemma midnight_unique:
  assumes "k * DAY_MICROS \<le> t" "t < k * DAY_MICROS + DAY_MICROS"
  shows "midnight t = k * DAY_MICROS"
proof -
  have "t div DAY_MICROS = k"
    by (rule int_div_pos_eq [where r = "t - DAY_MICROS * k"]) (use assms in \<open>simp_all add: mult.commute\<close>)
  then show ?thesis by (simp add: midnight_eq)
qed

end
