(* ===== verification/Audit_Log.thy ===== *)
theory Audit_Log
  imports Opa Json_Text Sha256 Timestamps
begin

text \<open>
  \<open>app/audit.py\<close> over the table of \<open>migrations/versions/0001_create_audit_tables.py\<close>: the
  hash-chained append, the recomputation that verifies it, filtered queries and the export.

  Postgres is not in the repository.  What the module uses of it is modelled as a table of rows
  with its sequence; storing JSON text in a \<open>jsonb\<close> column is the parameter \<open>jsonb\<close> (the text
  read back, or nothing when the column rejects it), and each transaction has an outcome: it
  commits, the server is unreachable, or it is rolled back after the sequence moved (a sequence
  value is never given back).
\<close>

section \<open>The table\<close>

definition GENESIS_HASH :: string where
  "GENESIS_HASH = replicate 64 CHR ''0''"

record audit_row =
  au_seq :: int
  au_id :: string
  au_agent_id :: string
  au_role :: string
  au_tool_name :: string
  au_args :: string                     \<comment> \<open>jsonb, as raw text\<close>
  au_policy_decision :: "string option"
  au_approval_id :: "string option"
  au_result_status :: string
  au_result_summary :: "string option"
  au_duration_ms :: "int option"
  au_otel_trace_id :: "string option"
  au_row_hash :: string
  au_created_at :: int                  \<comment> \<open>timestamptz, in microseconds\<close>

record audit_db =
  db_rows :: "audit_row list"
  db_next_seq :: int                    \<comment> \<open>the next value of the \<open>BIGSERIAL\<close>\<close>

definition empty_db :: audit_db where
  "empty_db = \<lparr>db_rows = [], db_next_seq = 1\<rparr>"

text \<open>
  The fate of a transaction: it commits; it gets no connection; the connection fails between taking
  the lock and the insert; it is rolled back after the insert.
\<close>

datatype txn_outcome = Commits | Unreachable | Interrupted | RolledBack

text \<open>\<open>SELECT row_hash ... ORDER BY seq DESC LIMIT 1\<close> and \<open>... WHERE seq = $1\<close>.\<close>

definition last_row_hash :: "audit_db \<Rightarrow> string option" where
  "last_row_hash db =
     (case rev (sort_key au_seq (db_rows db)) of [] \<Rightarrow> None | r # _ \<Rightarrow> Some (au_row_hash r))"

definition row_hash_at :: "audit_db \<Rightarrow> int \<Rightarrow> string option" where
  "row_hash_at db s = map_option au_row_hash (find (\<lambda>r. au_seq r = s) (db_rows db))"

section \<open>Writing\<close>

record AuditEvent =
  ae_agent_id :: string
  ae_role :: string
  ae_tool_name :: string
  ae_arguments :: dict
  ae_decision :: string
  ae_reason :: "string option"
  ae_result :: "dict option"
  ae_approval_id :: "string option"
  ae_duration_ms :: "int option"
  ae_timestamp :: rat

definition opt_obj :: "dict option \<Rightarrow> json" where
  "opt_obj x = (case x of None \<Rightarrow> JNull | Some d \<Rightarrow> JObj d)"

definition opt_str :: "string option \<Rightarrow> json" where
  "opt_str x = (case x of None \<Rightarrow> JNull | Some s \<Rightarrow> JStr s)"

text \<open>\<open>_row_hash\<close>: everything after the previous hash, and the digest of both.\<close>

definition row_content ::
  "(rat \<Rightarrow> string) \<Rightarrow> string \<Rightarrow> string \<Rightarrow> string \<Rightarrow> json \<Rightarrow> json \<Rightarrow> string \<Rightarrow> string" where
  "row_content fr row_id agent tool args result at_iso =
     row_id @ agent @ tool @ json_dumps fr True args @ json_dumps fr True result @ at_iso"

definition row_hash ::
  "(rat \<Rightarrow> string) \<Rightarrow> string \<Rightarrow> string \<Rightarrow> string \<Rightarrow> string \<Rightarrow> json \<Rightarrow> json \<Rightarrow> string \<Rightarrow> string" where
  "row_hash fr prev_hash row_id agent tool args result at_iso =
     sha256_hexdigest (utf8 (prev_hash @ row_content fr row_id agent tool args result at_iso))"

definition decode_jsonb :: "(string \<Rightarrow> rat) \<Rightarrow> string option \<Rightarrow> json result" where
  "decode_jsonb fp value =
     (case value of
        None \<Rightarrow> Inr JNull
      | Some t \<Rightarrow> (case json_loads fp t of
                     None \<Rightarrow> Inl (PyError ValueError ''invalid JSON'') | Some v \<Rightarrow> Inr v))"

text \<open>\<open>_current_trace_id\<close>: the active span's trace id in 32 hexadecimal digits, if there is one.\<close>

definition current_trace_id :: "nat option \<Rightarrow> string option" where
  "current_trace_id span_context = map_option (hex_pad 32) span_context"

lemma current_trace_id_length: "current_trace_id ctx = Some t \<Longrightarrow> length t = 32"
  by (auto simp: current_trace_id_def hex_pad_def)

text \<open>
  The row an event becomes at a place of the chain, given by the sequence value and the hash before
  it: its three \<open>jsonb\<close> texts, or none when a column rejects one.
\<close>

definition chained_row ::
  "(rat \<Rightarrow> string) \<Rightarrow> (string \<Rightarrow> string option) \<Rightarrow> string \<Rightarrow> string option \<Rightarrow> AuditEvent \<Rightarrow> int
     \<Rightarrow> string \<Rightarrow> audit_row option" where
  "chained_row fr jsonb row_id trace_id ev seq prev_hash =
     (let created_at = fromtimestamp (ae_timestamp ev) in
      case (jsonb (json_dumps fr False (JObj (ae_arguments ev))),
            jsonb (json_dumps fr False (JObj [(''reason'', opt_str (ae_reason ev))])),
            case ae_result ev of None \<Rightarrow> Some None
                               | Some d \<Rightarrow> map_option Some (jsonb (json_dumps fr False (JObj d)))) of
        (Some args, Some reason, Some res) \<Rightarrow>
          Some \<lparr>au_seq = seq, au_id = row_id, au_agent_id = ae_agent_id ev,
            au_role = ae_role ev, au_tool_name = ae_tool_name ev, au_args = args,
            au_policy_decision = Some reason, au_approval_id = ae_approval_id ev,
            au_result_status = ae_decision ev, au_result_summary = res,
            au_duration_ms = ae_duration_ms ev, au_otel_trace_id = trace_id,
            au_row_hash = row_hash fr prev_hash row_id (ae_agent_id ev) (ae_tool_name ev)
              (JObj (ae_arguments ev)) (opt_obj (ae_result ev)) (isoformat created_at),
            au_created_at = created_at\<rparr>
      | _ \<Rightarrow> None)"

definition prev_hash_of :: "audit_db \<Rightarrow> string" where
  "prev_hash_of db = (case last_row_hash db of None \<Rightarrow> GENESIS_HASH | Some h \<Rightarrow> h)"

definition new_row ::
  "(rat \<Rightarrow> string) \<Rightarrow> (string \<Rightarrow> string option) \<Rightarrow> string \<Rightarrow> string option \<Rightarrow> AuditEvent \<Rightarrow> audit_db
     \<Rightarrow> audit_row option" where
  "new_row fr jsonb row_id trace_id ev db =
     chained_row fr jsonb row_id trace_id ev (db_next_seq db) (prev_hash_of db)"

definition db_error :: "string \<Rightarrow> exn" where
  "db_error m = PyError DatabaseError m"

text \<open>The transaction: \<open>id\<close> is \<open>UNIQUE\<close>, and an insert that fails has used up its \<open>seq\<close>.\<close>

definition insert_event ::
  "(rat \<Rightarrow> string) \<Rightarrow> (string \<Rightarrow> string option) \<Rightarrow> string \<Rightarrow> string option \<Rightarrow> txn_outcome \<Rightarrow> AuditEvent
     \<Rightarrow> audit_db \<Rightarrow> unit result \<times> audit_db" where
  "insert_event fr jsonb row_id trace_id out ev db =
     (if out = Unreachable \<or> out = Interrupted then (Inl (db_error ''connection failed''), db)
      else (case new_row fr jsonb row_id trace_id ev db of
              None \<Rightarrow> (Inl (db_error ''invalid input syntax for type json''), db)
            | Some row \<Rightarrow>
                (let db1 = db\<lparr>db_next_seq := db_next_seq db + 1\<rparr> in
                 if out = RolledBack \<or> row_id \<in> au_id ` set (db_rows db)
                 then (Inl (db_error ''transaction failed''), db1)
                 else (Inr (), db1\<lparr>db_rows := db_rows db @ [row]\<rparr>))))"

definition record_tool_call ::
  "(rat \<Rightarrow> string) \<Rightarrow> (string \<Rightarrow> string option) \<Rightarrow> string \<Rightarrow> string option \<Rightarrow> txn_outcome \<Rightarrow> AuditEvent
     \<Rightarrow> audit_db \<Rightarrow> metric list \<Rightarrow> unit result \<times> audit_db \<times> metric list" where
  "record_tool_call fr jsonb row_id trace_id out ev db ms =
     (case insert_event fr jsonb row_id trace_id out ev db of
        (Inl e, db1) \<Rightarrow> (Inl e, db1, ms)
      | (Inr _, db1) \<Rightarrow>
          (Inr (), db1,
           ms @ [tool_calls_total (ae_tool_name ev) (ae_decision ev) (ae_role ev)]
              @ (case ae_duration_ms ev of
                   None \<Rightarrow> [] | Some d \<Rightarrow> [tool_call_duration_ms d (ae_tool_name ev)])))"

section \<open>Verifying\<close>

text \<open>One turn of the loop of \<open>verify_rows\<close>: \<open>Inr True\<close> goes on, \<open>Inr False\<close> fails at the row.\<close>

definition expected_hash :: "(rat \<Rightarrow> string) \<Rightarrow> (string \<Rightarrow> rat) \<Rightarrow> string \<Rightarrow> audit_row \<Rightarrow> string result" where
  "expected_hash fr fp prev_hash row =
     bind_res (decode_jsonb fp (Some (au_args row))) (\<lambda>args.
     bind_res (decode_jsonb fp (au_result_summary row)) (\<lambda>result.
       Inr (row_hash fr prev_hash (au_id row) (au_agent_id row) (au_tool_name row) args result
              (isoformat (au_created_at row)))))"

definition check_row :: "(rat \<Rightarrow> string) \<Rightarrow> (string \<Rightarrow> rat) \<Rightarrow> audit_db \<Rightarrow> audit_row \<Rightarrow> bool result" where
  "check_row fr fp db row =
     (let prev = (if au_seq row = 1 then Some GENESIS_HASH else row_hash_at db (au_seq row - 1)) in
      case prev of
        None \<Rightarrow> Inr False
      | Some prev_hash \<Rightarrow>
          bind_res (expected_hash fr fp prev_hash row) (\<lambda>expected. Inr (expected = au_row_hash row)))"

fun verify_sorted ::
  "(rat \<Rightarrow> string) \<Rightarrow> (string \<Rightarrow> rat) \<Rightarrow> audit_db \<Rightarrow> audit_row list \<Rightarrow> (string \<times> int option) result" where
  "verify_sorted fr fp db [] = Inr (''pass'', None)"
| "verify_sorted fr fp db (row # rows) =
     bind_res (check_row fr fp db row) (\<lambda>good.
       if good then verify_sorted fr fp db rows else Inr (''fail'', Some (au_seq row)))"

definition verify_rows ::
  "(rat \<Rightarrow> string) \<Rightarrow> (string \<Rightarrow> rat) \<Rightarrow> audit_db \<Rightarrow> audit_row list \<Rightarrow> (string \<times> int option) result" where
  "verify_rows fr fp db rows = verify_sorted fr fp db (sort_key au_seq rows)"

section \<open>Querying and exporting\<close>

definition row_to_json :: "(string \<Rightarrow> rat) \<Rightarrow> audit_row \<Rightarrow> json result" where
  "row_to_json fp row =
     bind_res (decode_jsonb fp (Some (au_args row))) (\<lambda>args.
     bind_res (decode_jsonb fp (au_policy_decision row)) (\<lambda>decision.
     bind_res (decode_jsonb fp (au_result_summary row)) (\<lambda>summary.
       Inr (JObj
         [(''id'', JStr (au_id row)), (''seq'', JInt (au_seq row)), (''agent_id'', JStr (au_agent_id row)),
          (''role'', JStr (au_role row)), (''tool_name'', JStr (au_tool_name row)), (''args'', args),
          (''policy_decision'', decision), (''approval_id'', opt_str (au_approval_id row)),
          (''result_status'', JStr (au_result_status row)), (''result_summary'', summary),
          (''duration_ms'', (case au_duration_ms row of None \<Rightarrow> JNull | Some d \<Rightarrow> JInt d)),
          (''otel_trace_id'', opt_str (au_otel_trace_id row)), (''row_hash'', JStr (au_row_hash row)),
          (''created_at'', JStr (isoformat (au_created_at row)))]))))"

text \<open>
  The filters: each condition names a column and the position of its parameter; the clause is the
  text sent to the server, the parameters travel beside it.
\<close>

datatype sql_condition =
    ColumnEq string nat        \<comment> \<open>\<open>column = $n\<close>\<close>
  | CreatedFrom nat            \<comment> \<open>\<open>created_at >= $n\<close>\<close>
  | CreatedTo nat              \<comment> \<open>\<open>created_at <= $n\<close>\<close>

datatype sql_param = ParamText string | ParamTime int

fun condition_text :: "sql_condition \<Rightarrow> string" where
  "condition_text (ColumnEq col n) = col @ '' = $'' @ string_of_nat n"
| "condition_text (CreatedFrom n) = ''created_at >= $'' @ string_of_nat n"
| "condition_text (CreatedTo n) = ''created_at <= $'' @ string_of_nat n"

definition add_text_filter ::
  "string \<times> string option \<Rightarrow> sql_condition list \<times> sql_param list \<Rightarrow> sql_condition list \<times> sql_param list" where
  "add_text_filter cv acc =
     (case (snd cv, acc) of
        (Some v, (cs, ps)) \<Rightarrow>
          (if v = [] then acc else (cs @ [ColumnEq (fst cv) (length ps + 1)], ps @ [ParamText v]))
      | (None, _) \<Rightarrow> acc)"

definition add_time_filter ::
  "(nat \<Rightarrow> sql_condition) \<Rightarrow> int option \<Rightarrow> sql_condition list \<times> sql_param list
     \<Rightarrow> sql_condition list \<times> sql_param list" where
  "add_time_filter mk t acc =
     (case (t, acc) of
        (Some v, (cs, ps)) \<Rightarrow> (cs @ [mk (length ps + 1)], ps @ [ParamTime v])
      | (None, _) \<Rightarrow> acc)"

definition filter_conditions ::
  "string option \<Rightarrow> string option \<Rightarrow> int option \<Rightarrow> int option \<Rightarrow> string option
     \<Rightarrow> sql_condition list \<times> sql_param list" where
  "filter_conditions agent tool from to status =
     add_time_filter CreatedTo to
       (add_time_filter CreatedFrom from
         (fold add_text_filter
            [(''agent_id'', agent), (''tool_name'', tool), (''result_status'', status)] ([], [])))"

definition build_filters ::
  "string option \<Rightarrow> string option \<Rightarrow> int option \<Rightarrow> int option \<Rightarrow> string option \<Rightarrow> string \<times> sql_param list" where
  "build_filters agent tool from to status =
     (let (conditions, params) = filter_conditions agent tool from to status
      in (if conditions = [] then [] else ''WHERE '' @ join '' AND '' (map condition_text conditions), params))"

text \<open>What the server selects with such conditions.\<close>

definition column_text :: "string \<Rightarrow> audit_row \<Rightarrow> string" where
  "column_text col row =
     (if col = ''agent_id'' then au_agent_id row
      else if col = ''tool_name'' then au_tool_name row else au_result_status row)"

fun condition_holds :: "sql_param list \<Rightarrow> audit_row \<Rightarrow> sql_condition \<Rightarrow> bool" where
  "condition_holds ps row (ColumnEq col n) = (ps ! (n - 1) = ParamText (column_text col row))"
| "condition_holds ps row (CreatedFrom n) =
     (case ps ! (n - 1) of ParamTime t \<Rightarrow> t \<le> au_created_at row | _ \<Rightarrow> False)"
| "condition_holds ps row (CreatedTo n) =
     (case ps ! (n - 1) of ParamTime t \<Rightarrow> au_created_at row \<le> t | _ \<Rightarrow> False)"

definition select_rows ::
  "string option \<Rightarrow> string option \<Rightarrow> int option \<Rightarrow> int option \<Rightarrow> string option \<Rightarrow> audit_db \<Rightarrow> audit_row list" where
  "select_rows agent tool from to status db =
     (let (conditions, params) = filter_conditions agent tool from to status
      in filter (\<lambda>row. list_all (condition_holds params row) conditions) (sort_key au_seq (db_rows db)))"

definition MAX_QUERY_LIMIT :: int where
  "MAX_QUERY_LIMIT = 500"

definition DEFAULT_QUERY_LIMIT :: int where
  "DEFAULT_QUERY_LIMIT = 50"

record audit_page =
  page_total :: nat
  page_rows :: "audit_row list"
  page_integrity :: string
  page_first_broken :: "int option"

text \<open>The page is newest first; \<open>OFFSET\<close> is a \<open>bigint\<close>, a larger one is refused.\<close>

definition query_audit_log ::
  "(rat \<Rightarrow> string) \<Rightarrow> (string \<Rightarrow> rat) \<Rightarrow> string option \<Rightarrow> string option \<Rightarrow> int option \<Rightarrow> int option
     \<Rightarrow> string option \<Rightarrow> int \<Rightarrow> int \<Rightarrow> audit_db \<Rightarrow> metric list \<Rightarrow> audit_page result \<times> metric list" where
  "query_audit_log fr fp agent tool from to status limit offset db ms =
     (let lim = max 1 (min limit MAX_QUERY_LIMIT);
          off = max 0 offset;
          matching = select_rows agent tool from to status db;
          page = take (nat lim) (drop (nat off) (rev matching)) in
      if 2 ^ 63 \<le> off then (Inl (db_error ''value out of int64 range''), ms)
      else (case verify_rows fr fp db page of
              Inl e \<Rightarrow> (Inl e, ms)
            | Inr (integrity, broken) \<Rightarrow>
                (Inr \<lparr>page_total = length matching, page_rows = page,
                      page_integrity = integrity, page_first_broken = broken\<rparr>,
                 if integrity = ''fail'' then ms @ [audit_chain_integrity_failures_total] else ms)))"

text \<open>The export yields row by row; a row that does not decode ends it.\<close>

fun yield_rows :: "(string \<Rightarrow> rat) \<Rightarrow> audit_row list \<Rightarrow> json list \<times> exn option" where
  "yield_rows fp [] = ([], None)"
| "yield_rows fp (row # rows) =
     (case row_to_json fp row of
        Inl e \<Rightarrow> ([], Some e)
      | Inr v \<Rightarrow> apfst (Cons v) (yield_rows fp rows))"

definition export_rows :: "int \<Rightarrow> int \<Rightarrow> audit_db \<Rightarrow> audit_row list" where
  "export_rows from to db =
     filter (\<lambda>row. from \<le> au_created_at row \<and> au_created_at row \<le> to) (sort_key au_seq (db_rows db))"

definition export_audit_log :: "(string \<Rightarrow> rat) \<Rightarrow> int \<Rightarrow> int \<Rightarrow> audit_db \<Rightarrow> json list \<times> exn option" where
  "export_audit_log fp from to db = yield_rows fp (export_rows from to db)"

end
