(* ===== verification/Gateway.thy ===== *)
theory Gateway
  imports Rate_Limit Rego_Policy Slack Sse_Hub Audit_Log
begin

text \<open>
  The \<open>/mcp\<close> handler of \<open>app/main.py\<close> and the executor call it shares with the decision callback.

  The \<open>world\<close> is what handlers change: Redis, the audit table, the event hub, the messages handed
  to Slack, the recorded metrics, the request log and the systems behind the tools.  The
  \<open>config\<close> is fixed at start-up: the client, the tool registry, the secrets and the parameters
  that stand for code outside the repository (OPA, the webhook, the \<open>jsonb\<close> columns, the
  framework's body decoding).  The \<open>env\<close> of a request holds what it reads from its surroundings:
  clocks, fresh identifiers, the outcome of its database transaction.  A request makes at most one
  audit write, so one of each is enough.
\<close>

section \<open>World, configuration, request environment\<close>

type_synonym 'x executor = "dict \<Rightarrow> 'x \<Rightarrow> dict result \<times> 'x"

record ('r, 'x) world =
  w_redis :: 'r
  w_db :: audit_db
  w_hub :: hub
  w_slack :: "json list"
  w_metrics :: "metric list"
  w_log :: "(string \<times> string \<times> int \<times> rat) list"   \<comment> \<open>method, path, status, milliseconds\<close>
  w_ext :: 'x

datatype body_reply =
    BadJson                   \<comment> \<open>\<open>json.JSONDecodeError\<close>\<close>
  | BadEncoding string        \<comment> \<open>\<open>UnicodeDecodeError\<close>, which is not a \<open>JSONDecodeError\<close>\<close>
  | JsonBody json

record ApprovalDecisionRequest =
  dr_decision :: string
  dr_decided_by :: string
  dr_note :: "string option"

record ('r, 'x) config =
  c_redis :: "'r redis_client"
  c_tools :: "(string \<times> 'x executor) list"
  c_opa :: "json \<Rightarrow> opa_reply"
  c_fr :: "rat \<Rightarrow> string"
  c_fp :: "string \<Rightarrow> rat"
  c_jsonb :: "string \<Rightarrow> string option"
  c_secret :: string
  c_slack_url :: string
  c_slack_post :: "json \<Rightarrow> slack_reply"
  c_body :: "string \<Rightarrow> body_reply"
  c_validate :: "string \<Rightarrow> string + ApprovalDecisionRequest"   \<comment> \<open>\<open>model_validate_json\<close>\<close>

record env =
  e_now :: rat                \<comment> \<open>the clock when the handler reads it first\<close>
  e_later :: rat              \<comment> \<open>and when it reads it again\<close>
  e_uuid :: string            \<comment> \<open>of the approval\<close>
  e_limit_now :: rat          \<comment> \<open>the rate limiter's clock and the identifier of its entry\<close>
  e_limit_uuid :: string
  e_row_id :: string
  e_trace :: "string option"
  e_txn :: txn_outcome
  e_duration :: int           \<comment> \<open>\<open>_duration_ms()\<close> at the audit write\<close>
  e_elapsed :: rat            \<comment> \<open>milliseconds as the logging middleware measures them\<close>

text \<open>A JSON body is rendered without \<open>nan\<close> and infinities, which raise.\<close>

fun finite_json :: "json \<Rightarrow> bool" where
  "finite_json (JFloat (Fin _)) = True"
| "finite_json (JFloat _) = False"
| "finite_json (JList xs) = (\<forall>x \<in> set xs. finite_json x)"
| "finite_json (JObj kvs) = (\<forall>kv \<in> set kvs. finite_json (snd kv))"
| "finite_json _ = True"

definition respond :: "json \<Rightarrow> int \<Rightarrow> http_response result" where
  "respond body status =
     (if finite_json body then Inr (JSONResponse body status)
      else Inl (PyError ValueError ''Out of range float values are not JSON compliant''))"

definition rpc_result :: "json \<Rightarrow> json \<Rightarrow> json" where
  "rpc_result rpc_id result =
     JObj [(''jsonrpc'', JStr ''2.0''), (''id'', rpc_id), (''result'', result)]"

section \<open>Running a tool\<close>

datatype ExecutionOutcome =
    Success dict
  | Executor_error string string   \<comment> \<open>error type, message\<close>
  | Unhandled_error string

definition execute_tool ::
  "(string \<times> 'x executor) list \<Rightarrow> string \<Rightarrow> dict \<Rightarrow> 'x \<Rightarrow> ExecutionOutcome \<times> 'x" where
  "execute_tool tools tool_name arguments x =
     (case map_of tools tool_name of
        None \<Rightarrow> (Unhandled_error (str_repr tool_name), x)
      | Some f \<Rightarrow>
          (case f arguments x of
             (Inr result, x') \<Rightarrow> (Success result, x')
           | (Inl (ExecutorError t m), x') \<Rightarrow> (Executor_error t m, x')
           | (Inl e, x') \<Rightarrow> (Unhandled_error (exn_str e), x')))"

definition ERROR_TYPE_STATUS :: "string \<rightharpoonup> int" where
  "ERROR_TYPE_STATUS =
     [''validation_error'' \<mapsto> 400, ''not_found'' \<mapsto> 404, ''permission_denied'' \<mapsto> 403,
      ''executor_timeout'' \<mapsto> 504, ''upstream_error'' \<mapsto> 502]"

section \<open>Writing the audit row of a request\<close>

definition audit_event ::
  "env \<Rightarrow> string \<Rightarrow> string \<Rightarrow> string \<Rightarrow> dict \<Rightarrow> string \<Rightarrow> string option \<Rightarrow> dict option \<Rightarrow> string option
     \<Rightarrow> AuditEvent" where
  "audit_event e agent role tool args decision reason result appr =
     \<lparr>ae_agent_id = agent, ae_role = role, ae_tool_name = tool, ae_arguments = args,
      ae_decision = decision, ae_reason = reason, ae_result = result, ae_approval_id = appr,
      ae_duration_ms = Some (e_duration e), ae_timestamp = e_later e\<rparr>"

definition audit ::
  "('r, 'x) config \<Rightarrow> env \<Rightarrow> AuditEvent \<Rightarrow> ('r, 'x) world \<Rightarrow> unit result \<times> ('r, 'x) world" where
  "audit c e ev w =
     (let (x, db, ms) = record_tool_call (c_fr c) (c_jsonb c) (e_row_id e) (e_trace e) (e_txn e) ev
                          (w_db w) (w_metrics w)
      in (x, w\<lparr>w_db := db, w_metrics := ms\<rparr>))"

text \<open>An audit write followed by a response: a failed write leaves as an exception.\<close>

definition audit_then ::
  "('r, 'x) config \<Rightarrow> env \<Rightarrow> AuditEvent \<Rightarrow> http_response result \<Rightarrow> ('r, 'x) world
     \<Rightarrow> http_response result \<times> ('r, 'x) world" where
  "audit_then c e ev resp w =
     (case audit c e ev w of (Inl ex, w1) \<Rightarrow> (Inl ex, w1) | (Inr _, w1) \<Rightarrow> (resp, w1))"

section \<open>The branches of a tool call\<close>

text \<open>A parsed call: the agent, the context with its tool name as a string, and the request id.\<close>

record call =
  ca_rpc_id :: json
  ca_agent_id :: string
  ca_role :: string
  ca_tool :: string
  ca_args :: dict

definition call_event ::
  "env \<Rightarrow> call \<Rightarrow> string \<Rightarrow> string option \<Rightarrow> dict option \<Rightarrow> string option \<Rightarrow> AuditEvent" where
  "call_event e k = audit_event e (ca_agent_id k) (ca_role k) (ca_tool k) (ca_args k)"

definition pending_body :: "json \<Rightarrow> Approval \<Rightarrow> json" where
  "pending_body rpc_id a =
     rpc_result rpc_id (JObj
       [(''content'', JList [JObj [(''type'', JStr ''text''),
          (''text'', JStr (''This action requires human approval. Approval request sent to Slack. Approval ID: ''
             @ ap_id a))]]),
        (''isError'', JBool False),
        (''_meta'', JObj [(''approval_id'', JStr (ap_id a)), (''approval_status'', JStr ''pending''),
           (''expires_at'', JFloat (Fin (ap_expires_at a))),
           (''poll_url'', JStr (''/admin/approvals/'' @ ap_id a @ ''/status''))])])"

definition mcp_hold ::
  "('r, 'x) config \<Rightarrow> env \<Rightarrow> call \<Rightarrow> PolicyDecision \<Rightarrow> ('r, 'x) world
     \<Rightarrow> http_response result \<times> ('r, 'x) world" where
  "mcp_hold c e k d w =
     (case create_pending_approval (c_redis c) (c_fr c) (e_now e) (e_uuid e) (ca_agent_id k) (ca_role k)
             (ca_tool k) (ca_args k) (dec_reason d) (w_redis w) (w_metrics w) of
        (Inl ex, r, ms) \<Rightarrow> (Inl ex, w\<lparr>w_redis := r, w_metrics := ms\<rparr>)
      | (Inr a, r, ms) \<Rightarrow>
          (let w1 = w\<lparr>w_redis := r, w_metrics := ms\<rparr> in
           case send_approval_request (c_fr c) (c_slack_url c) (c_slack_post c) a (w_slack w1) of
             (Inl ex, sent) \<Rightarrow> (Inl ex, w1\<lparr>w_slack := sent\<rparr>)
           | (Inr _, sent) \<Rightarrow>
               audit_then c e (call_event e k ''pending_approval'' (Some (dec_reason d)) None (Some (ap_id a)))
                 (respond (pending_body (ca_rpc_id k) a) 202) (w1\<lparr>w_slack := sent\<rparr>)))"

definition mcp_deny ::
  "('r, 'x) config \<Rightarrow> env \<Rightarrow> call \<Rightarrow> PolicyDecision \<Rightarrow> ('r, 'x) world
     \<Rightarrow> http_response result \<times> ('r, 'x) world" where
  "mcp_deny c e k d w =
     audit_then c e (call_event e k ''denied'' (Some (dec_reason d)) None None)
       (respond (rpc_error (ca_rpc_id k) (-32603) ''Tool call denied by policy''
          (Some (JObj [(''reason'', JStr (dec_reason d)), (''policy_decision'', JStr ''deny'')]))) 403) w"

definition decision_label :: "string \<Rightarrow> string" where
  "decision_label error_type = (if error_type = ''executor_timeout'' then ''executor_timeout'' else ''error'')"

definition executor_error_body :: "json \<Rightarrow> string \<Rightarrow> string \<Rightarrow> string \<Rightarrow> json" where
  "executor_error_body rpc_id text message error_type =
     rpc_error rpc_id (-32603) text
       (Some (JObj [(''reason'', JStr message), (''error_type'', JStr error_type),
                    (''policy_decision'', JStr ''allow'')]))"

definition mcp_run ::
  "('r, 'x) config \<Rightarrow> env \<Rightarrow> call \<Rightarrow> PolicyDecision \<Rightarrow> ('r, 'x) world
     \<Rightarrow> http_response result \<times> ('r, 'x) world" where
  "mcp_run c e k d w =
     (let (outcome, x) = execute_tool (c_tools c) (ca_tool k) (ca_args k) (w_ext w);
          w1 = w\<lparr>w_ext := x\<rparr> in
      case outcome of
        Executor_error t m \<Rightarrow>
          (case ERROR_TYPE_STATUS t of
             None \<Rightarrow> (Inl (PyError KeyError (quoted t)), w1)
           | Some status \<Rightarrow>
               audit_then c e (call_event e k (decision_label t) (Some m) None None)
                 (respond (executor_error_body (ca_rpc_id k) (''Executor error: '' @ m) m t) status) w1)
      | Unhandled_error m \<Rightarrow>
          audit_then c e (call_event e k ''error'' (Some m) None None)
            (respond (executor_error_body (ca_rpc_id k) ''Executor error'' m ''upstream_error'') 500) w1
      | Success result \<Rightarrow>
          audit_then c e (call_event e k ''allowed'' (Some (dec_reason d)) (Some result) None)
            (respond (rpc_result (ca_rpc_id k) (JObj result)) 200) w1)"

text \<open>From the decision on: hold, deny or run.\<close>

definition mcp_decided ::
  "('r, 'x) config \<Rightarrow> env \<Rightarrow> call \<Rightarrow> PolicyDecision \<Rightarrow> ('r, 'x) world
     \<Rightarrow> http_response result \<times> ('r, 'x) world" where
  "mcp_decided c e k d w =
     (if dec_require_approval d then mcp_hold c e k d w
      else if \<not> dec_allow d then mcp_deny c e k d w
      else mcp_run c e k d w)"

section \<open>The handler\<close>

text \<open>\<open>tool_name in TOOLS\<close>: a list or a dictionary is not hashable.\<close>

definition known_tool :: "(string \<times> 'x executor) list \<Rightarrow> json \<Rightarrow> string option result" where
  "known_tool tools name =
     (case name of
        JStr s \<Rightarrow> Inr (if s \<in> fst ` set tools then Some s else None)
      | JList _ \<Rightarrow> Inl (PyError TypeError (''unhashable type: '' @ quoted ''list''))
      | JObj _ \<Rightarrow> Inl (PyError TypeError (''unhashable type: '' @ quoted ''dict''))
      | _ \<Rightarrow> Inr None)"

definition invalid_params :: "json \<Rightarrow> dict \<Rightarrow> http_response result" where
  "invalid_params rpc_id data = respond (rpc_error rpc_id (-32602) ''Invalid params'' (Some (JObj data))) 400"

definition forbidden_tool :: "json \<Rightarrow> string \<Rightarrow> string \<Rightarrow> http_response result" where
  "forbidden_tool rpc_id agent tool =
     respond (rpc_error rpc_id (-32003) ''Forbidden''
       (Some (JObj [(''field'', JStr ''name''),
          (''error'', JStr (''agent '' @ quoted agent @ '' is not allowed to call '' @ quoted tool)),
          (''policy_decision'', JStr ''forbidden'')]))) 403"

definition mcp_call ::
  "('r, 'x) config \<Rightarrow> env \<Rightarrow> Agent_data \<Rightarrow> json \<Rightarrow> json \<Rightarrow> ('r, 'x) world
     \<Rightarrow> http_response result \<times> ('r, 'x) world" where
  "mcp_call c e agent rpc_id params w =
     (case intercept_tool_call params agent (e_now e) of
        Inl (MissingParamError field msg) \<Rightarrow>
          (invalid_params rpc_id [(''field'', JStr field), (''error'', JStr msg)], w)
      | Inl ex \<Rightarrow> (Inl ex, w)
      | Inr ctx \<Rightarrow>
          (case context_environment ctx of
             Inl ex \<Rightarrow> (Inl ex, w)
           | Inr _ \<Rightarrow>
               (case known_tool (c_tools c) (ctx_tool_name ctx) of
                  Inl ex \<Rightarrow> (Inl ex, w)
                | Inr None \<Rightarrow>
                    (invalid_params rpc_id
                       [(''field'', JStr ''name''),
                        (''error'', JStr (''unknown tool '' @ quoted (py_str (c_fr c) (ctx_tool_name ctx))))], w)
                | Inr (Some tool) \<Rightarrow>
                    if tool \<notin> set (allowed_tools agent)
                    then (forbidden_tool rpc_id (ident_str (agent_id agent)) tool, w)
                    else
                      (case evaluate_policy (c_fr c) (c_opa c) ctx (w_metrics w) of
                         (Inl ex, ms) \<Rightarrow> (Inl ex, w\<lparr>w_metrics := ms\<rparr>)
                       | (Inr d, ms) \<Rightarrow>
                           mcp_decided c e
                             \<lparr>ca_rpc_id = rpc_id, ca_agent_id = ctx_agent_id ctx, ca_role = ctx_role ctx,
                              ca_tool = tool, ca_args = ctx_arguments ctx\<rparr> d (w\<lparr>w_metrics := ms\<rparr>)))))"

definition tools_list :: "('r, 'x) config \<Rightarrow> Agent_data \<Rightarrow> json \<Rightarrow> http_response result" where
  "tools_list c agent rpc_id =
     respond (rpc_result rpc_id (JObj [(''tools'', JList
       (map (\<lambda>n. JObj [(''name'', JStr n)])
          (filter (\<lambda>n. n \<in> set (allowed_tools agent)) (map fst (c_tools c)))))])) 200"

definition method_not_found :: "('r, 'x) config \<Rightarrow> json \<Rightarrow> json \<Rightarrow> http_response result" where
  "method_not_found c rpc_id meth =
     respond (rpc_error rpc_id (-32601) (''Method not found: '' @ py_str (c_fr c) meth) None) 404"

text \<open>\<open>request.state.agent\<close> of a request no identity is attached to.\<close>

definition no_agent :: exn where
  "no_agent = PyError AttributeError (quoted ''State'' @ '' object has no attribute '' @ quoted ''agent'')"

definition mcp_dispatch ::
  "('r, 'x) config \<Rightarrow> env \<Rightarrow> http_request \<Rightarrow> dict \<Rightarrow> ('r, 'x) world
     \<Rightarrow> http_response result \<times> ('r, 'x) world" where
  "mcp_dispatch c e req body w =
     (let rpc_id = dict_get body ''id''; meth = dict_get body ''method'';
          params = py_or (dict_get body ''params'') (JObj []) in
      if \<not> truthy meth
      then (respond (rpc_error rpc_id (-32600) ''Invalid Request: missing method'' None) 400, w)
      else
        (case req_agent req of
           None \<Rightarrow> (Inl no_agent, w)
         | Some agent \<Rightarrow>
             if meth = JStr ''tools/list'' then (tools_list c agent rpc_id, w)
             else if meth = JStr ''tools/call'' then mcp_call c e agent rpc_id params w
             else (method_not_found c rpc_id meth, w)))"

definition mcp :: "('r, 'x) config \<Rightarrow> env \<Rightarrow> ('r, 'x) world handler" where
  "mcp c e req w =
     (case c_body c (req_bytes req) of
        BadJson \<Rightarrow> (respond (rpc_error JNull (-32700) ''Parse error'' None) 400, w)
      | BadEncoding m \<Rightarrow> (Inl (PyError ValueError m), w)
      | JsonBody (JObj body) \<Rightarrow> mcp_dispatch c e req body w
      | JsonBody _ \<Rightarrow> (respond (rpc_error JNull (-32600) ''Invalid Request'' None) 400, w))"

end
