(* ===== verification/Endpoints.thy ===== *)
theory Endpoints
  imports Gateway
begin

text \<open>
  The other endpoints of \<open>app/main.py\<close>: the Slack decision callback and the approval status, the
  audit query, the health probes; the rate-limit and logging middlewares; and the application: the
  routes behind the middleware stack.
\<close>

section \<open>The decision callback\<close>

definition approval_event ::
  "env \<Rightarrow> Approval \<Rightarrow> string \<Rightarrow> string option \<Rightarrow> dict option \<Rightarrow> AuditEvent" where
  "approval_event e a decision reason result =
     audit_event e (ap_agent_id a) (ap_role a) (ap_tool_name a) (ap_arguments a) decision reason result
       (Some (ap_id a))"

definition publish_to :: "string \<Rightarrow> dict \<Rightarrow> ('r, 'x) world \<Rightarrow> ('r, 'x) world" where
  "publish_to agent ev w = w\<lparr>w_hub := publish agent ev (w_hub w)\<rparr>"

text \<open>The audit write, the push to the agent's streams and the answer to Slack.\<close>

definition conclude ::
  "('r, 'x) config \<Rightarrow> env \<Rightarrow> Approval \<Rightarrow> AuditEvent \<Rightarrow> string \<Rightarrow> string \<times> json \<Rightarrow> string \<Rightarrow> ('r, 'x) world
     \<Rightarrow> http_response result \<times> ('r, 'x) world" where
  "conclude c e a ev status extra answer w =
     (case audit c e ev w of
        (Inl ex, w1) \<Rightarrow> (Inl ex, w1)
      | (Inr _, w1) \<Rightarrow>
          (respond (JObj [(''approval_id'', JStr (ap_id a)), (''status'', JStr answer)]) 200,
           publish_to (ap_agent_id a)
             [(''approval_id'', JStr (ap_id a)), (''tool_name'', JStr (ap_tool_name a)),
              (''status'', JStr status), extra] w1))"

definition denial_reason :: "ApprovalDecisionRequest \<Rightarrow> string" where
  "denial_reason p =
     ''denied by '' @ dr_decided_by p
       @ (case dr_note p of None \<Rightarrow> [] | Some n \<Rightarrow> if n = [] then [] else '': '' @ n)"

definition decide_denied ::
  "('r, 'x) config \<Rightarrow> env \<Rightarrow> ApprovalDecisionRequest \<Rightarrow> Approval \<Rightarrow> ('r, 'x) world
     \<Rightarrow> http_response result \<times> ('r, 'x) world" where
  "decide_denied c e p a w =
     (let reason = denial_reason p in
      conclude c e a (approval_event e a ''approval_denied'' (Some reason) None)
        ''denied'' (''reason'', JStr reason) ''denied'' w)"

definition decide_approved ::
  "('r, 'x) config \<Rightarrow> env \<Rightarrow> ApprovalDecisionRequest \<Rightarrow> Approval \<Rightarrow> ('r, 'x) world
     \<Rightarrow> http_response result \<times> ('r, 'x) world" where
  "decide_approved c e p a w =
     (let (outcome, x) = execute_tool (c_tools c) (ap_tool_name a) (ap_arguments a) (w_ext w);
          w1 = w\<lparr>w_ext := x\<rparr> in
      case outcome of
        Success result \<Rightarrow>
          conclude c e a (approval_event e a ''allowed'' (Some (''approved by '' @ dr_decided_by p)) (Some result))
            ''approved'' (''result'', JObj result) ''approved'' w1
      | Executor_error t m \<Rightarrow>
          conclude c e a (approval_event e a (decision_label t) (Some m) None)
            ''error'' (''error'', JStr m) ''approved'' w1
      | Unhandled_error m \<Rightarrow>
          conclude c e a (approval_event e a ''error'' (Some m) None)
            ''error'' (''error'', JStr m) ''approved'' w1)"

text \<open>From the validated payload on.\<close>

definition decide_payload ::
  "('r, 'x) config \<Rightarrow> env \<Rightarrow> string \<Rightarrow> ApprovalDecisionRequest \<Rightarrow> ('r, 'x) world
     \<Rightarrow> http_response result \<times> ('r, 'x) world" where
  "decide_payload c e i p w =
     (if dr_decision p \<notin> {''approve'', ''deny''}
      then (respond (JObj [(''error'', JStr (''decision must be '' @ quoted ''approve'' @ '' or '' @ quoted ''deny''))]) 400, w)
      else
        (case decide_approval (c_redis c) (c_fr c) (c_fp c) (e_now e) (e_later e) i (dr_decision p)
                (dr_decided_by p) (w_redis w) (w_metrics w) of
           (Inl ex, r, ms) \<Rightarrow> (Inl ex, w\<lparr>w_redis := r, w_metrics := ms\<rparr>)
         | (Inr (ao, outcome), r, ms) \<Rightarrow>
             (let w1 = w\<lparr>w_redis := r, w_metrics := ms\<rparr> in
              case (ao, outcome) of
                (_, NotFound) \<Rightarrow> (respond (JObj [(''error'', JStr ''approval not found or expired'')]) 410, w1)
              | (Some a, AlreadyDecided) \<Rightarrow>
                  (respond (JObj [(''error'', JStr ''approval already decided''),
                                  (''status'', JStr (ap_status a))]) 409, w1)
              | (Some a, Decided) \<Rightarrow>
                  if ap_status a = ''denied'' then decide_denied c e p a w1 else decide_approved c e p a w1
              | (None, _) \<Rightarrow>
                  (Inl (PyError AttributeError (quoted ''NoneType'' @ '' object has no attribute '' @ quoted ''status'')), w1))))"

definition decide_endpoint ::
  "('r, 'x) config \<Rightarrow> env \<Rightarrow> string \<Rightarrow> ('r, 'x) world handler" where
  "decide_endpoint c e i req w =
     (case verify_signature (c_secret c) (e_now e) (header req ''x-slack-request-timestamp'')
             (req_bytes req) (header req ''x-slack-signature'') of
        Inl ex \<Rightarrow> (Inl ex, w)
      | Inr False \<Rightarrow> (respond (JObj [(''error'', JStr ''invalid or missing Slack signature'')]) 401, w)
      | Inr True \<Rightarrow>
          (case c_validate c (req_bytes req) of
             Inl m \<Rightarrow> (respond (JObj [(''error'', JStr (''invalid request body: '' @ m))]) 400, w)
           | Inr p \<Rightarrow> decide_payload c e i p w))"

definition approval_status :: "('r, 'x) config \<Rightarrow> env \<Rightarrow> string \<Rightarrow> ('r, 'x) world handler" where
  "approval_status c e i req w =
     (case get_approval (c_redis c) (c_fp c) (e_now e) i (w_redis w) of
        (Inl ex, r) \<Rightarrow> (Inl ex, w\<lparr>w_redis := r\<rparr>)
      | (Inr None, r) \<Rightarrow>
          (respond (JObj [(''error'', JStr ''approval not found or expired'')]) 410, w\<lparr>w_redis := r\<rparr>)
      | (Inr (Some a), r) \<Rightarrow> (respond (approval_json a) 200, w\<lparr>w_redis := r\<rparr>))"

section \<open>Audit query, export, health\<close>

text \<open>
  The query parameters after the framework's conversion; the two dates are still text, read by
  \<open>datetime.fromisoformat\<close>, a parameter here (its grammar is long): an instant in microseconds, or
  nothing for a \<open>ValueError\<close>.
\<close>

record audit_query =
  aq_agent_id :: "string option"
  aq_tool :: "string option"
  aq_from :: "string option"
  aq_to :: "string option"
  aq_result_status :: "string option"
  aq_limit :: int
  aq_offset :: int

definition read_date :: "(string \<Rightarrow> int option) \<Rightarrow> string \<Rightarrow> int result" where
  "read_date fromiso s =
     (case fromiso s of
        None \<Rightarrow> Inl (PyError ValueError (''Invalid isoformat string: '' @ str_repr s))
      | Some t \<Rightarrow> Inr t)"

definition read_opt_date :: "(string \<Rightarrow> int option) \<Rightarrow> string option \<Rightarrow> int option result" where
  "read_opt_date fromiso s =
     (case s of
        None \<Rightarrow> Inr None
      | Some t \<Rightarrow> if t = [] then Inr None else bind_res (read_date fromiso t) (\<lambda>d. Inr (Some d)))"

fun collect_rows :: "(string \<Rightarrow> rat) \<Rightarrow> audit_row list \<Rightarrow> json list result" where
  "collect_rows fp [] = Inr []"
| "collect_rows fp (r # rs) =
     bind_res (row_to_json fp r) (\<lambda>v. bind_res (collect_rows fp rs) (\<lambda>vs. Inr (v # vs)))"

definition audit_page_body :: "audit_page \<Rightarrow> json list \<Rightarrow> json" where
  "audit_page_body p rows =
     JObj ([(''total'', JInt (int (page_total p))), (''rows'', JList rows),
            (''integrity_check'', JStr (page_integrity p))]
        @ (if page_integrity p = ''fail''
           then [(''first_broken_seq'', opt_json JInt (page_first_broken p))] else []))"

definition get_audit_log ::
  "('r, 'x) config \<Rightarrow> (string \<Rightarrow> int option) \<Rightarrow> audit_query \<Rightarrow> ('r, 'x) world handler" where
  "get_audit_log c fromiso q req w =
     (case (read_opt_date fromiso (aq_from q), read_opt_date fromiso (aq_to q)) of
        (Inl ex, _) \<Rightarrow> (Inl ex, w)
      | (Inr _, Inl ex) \<Rightarrow> (Inl ex, w)
      | (Inr from, Inr to) \<Rightarrow>
          (let (x, ms) = query_audit_log (c_fr c) (c_fp c) (aq_agent_id q) (aq_tool q) from to
                           (aq_result_status q) (aq_limit q) (aq_offset q) (w_db w) (w_metrics w)
           in (bind_res x (\<lambda>p. bind_res (collect_rows (c_fp c) (page_rows p))
                 (\<lambda>rows. respond (audit_page_body p rows) 200)), w\<lparr>w_metrics := ms\<rparr>)))"

text \<open>The streamed export: the lines sent, and the exception that cuts the stream, if any.\<close>

definition export_endpoint ::
  "('r, 'x) config \<Rightarrow> (string \<Rightarrow> int option) \<Rightarrow> string \<Rightarrow> string \<Rightarrow> ('r, 'x) world
     \<Rightarrow> (string list \<times> exn option) result" where
  "export_endpoint c fromiso from to w =
     bind_res (read_date fromiso from) (\<lambda>a. bind_res (read_date fromiso to) (\<lambda>b.
       (let (rows, ex) = export_audit_log (c_fp c) a b (w_db w)
        in Inr (map (\<lambda>v. json_dumps (c_fr c) False v @ [CHR 0x0A]) rows, ex))))"

definition health :: "('r, 'x) world handler" where
  "health req w = (respond (JObj [(''status'', JStr ''ok'')]) 200, w)"

section \<open>Middlewares\<close>

definition RATE_LIMITED_PATHS :: "string list" where
  "RATE_LIMITED_PATHS = [''/mcp'']"

definition too_many :: "RateLimitResult \<Rightarrow> http_response" where
  "too_many res =
     (JSONResponse
        (rpc_error JNull (-32029) ''Rate limit exceeded''
           (Some (JObj [(''limit'', JInt (rl_limit res)),
                        (''retry_after'', opt_json JInt (rl_retry_after res))]))) 429)
     \<lparr>resp_headers :=
        [(''X-RateLimit-Limit'', string_of_int (rl_limit res)), (''X-RateLimit-Remaining'', ''0''),
         (''X-RateLimit-Reset'', string_of_int (rl_reset res)),
         (''Retry-After'', case rl_retry_after res of None \<Rightarrow> ''None'' | Some s \<Rightarrow> string_of_int s)]\<rparr>"

definition quota_headers :: "RateLimitResult \<Rightarrow> http_response \<Rightarrow> http_response" where
  "quota_headers res resp =
     resp\<lparr>resp_headers := fold (\<lambda>(k, v). dict_set k v)
       [(''X-RateLimit-Limit'', string_of_int (rl_limit res)),
        (''X-RateLimit-Remaining'', string_of_int (rl_remaining res)),
        (''X-RateLimit-Reset'', string_of_int (rl_reset res))] (resp_headers resp)\<rparr>"

definition rate_limit ::
  "('r, 'x) config \<Rightarrow> env \<Rightarrow> ('r, 'x) world handler \<Rightarrow> ('r, 'x) world handler" where
  "rate_limit c e call_next req w =
     (if req_path req \<notin> set RATE_LIMITED_PATHS then call_next req w
      else
        (case req_agent req of
           None \<Rightarrow> (Inl no_agent, w)
         | Some agent \<Rightarrow>
             (let who = ident_str (agent_id agent);
                  (res, r) = check (c_redis c) RATE_LIMIT_WINDOW_SECONDS (c_fr c) who (rate_limit_rpm agent)
                               (e_limit_now e) (e_limit_uuid e) (w_redis w);
                  w1 = w\<lparr>w_redis := r\<rparr> in
              if \<not> rl_allowed res
              then (Inr (too_many res), w1\<lparr>w_metrics := w_metrics w1 @ [rate_limit_hits_total who]\<rparr>)
              else (case call_next req w1 of
                      (Inl ex, w2) \<Rightarrow> (Inl ex, w2)
                    | (Inr resp, w2) \<Rightarrow> (Inr (quota_headers res resp), w2)))))"

text \<open>An exception passes through unlogged: the line is written after \<open>call_next\<close> returns.\<close>

definition log_requests :: "env \<Rightarrow> ('r, 'x) world handler \<Rightarrow> ('r, 'x) world handler" where
  "log_requests e call_next req w =
     (case call_next req w of
        (Inl ex, w1) \<Rightarrow> (Inl ex, w1)
      | (Inr resp, w1) \<Rightarrow>
          (Inr resp, w1\<lparr>w_log := w_log w1 @ [(req_method req, req_path req, resp_status resp, e_elapsed e)]\<rparr>))"

section \<open>The application\<close>

datatype endpoint = EpMcp | EpDecide string | EpStatus string | EpAudit | EpHealth | EpOther

text \<open>\<open>/admin/approvals/{approval_id}/...\<close>: a path parameter is a non-empty text without a slash.\<close>

definition approval_path :: "string \<Rightarrow> string \<Rightarrow> string option" where
  "approval_path action path =
     (case split_on (CHR ''/'') path of
        [a, b, c, i, d] \<Rightarrow>
          (if a = [] \<and> b = ''admin'' \<and> c = ''approvals'' \<and> d = action \<and> i \<noteq> [] then Some i else None)
      | _ \<Rightarrow> None)"

definition route :: "string \<Rightarrow> string \<Rightarrow> endpoint" where
  "route meth path =
     (if meth = ''POST'' then
        (if path = ''/mcp'' then EpMcp
         else case approval_path ''decide'' path of Some i \<Rightarrow> EpDecide i | None \<Rightarrow> EpOther)
      else if meth = ''GET'' then
        (if path = ''/admin/audit'' then EpAudit
         else if path = ''/health/live'' \<or> path = ''/health/ready'' then EpHealth
         else case approval_path ''status'' path of Some i \<Rightarrow> EpStatus i | None \<Rightarrow> EpOther)
      else EpOther)"

text \<open>
  \<open>other\<close> answers what is not a plain handler of the program: the two streams (modelled in
  \<open>Sse_Hub\<close> and by \<open>export_endpoint\<close>), the framework's own pages and its 404 and 405.
  \<open>query\<close> decodes the parameters of the audit query, or gives the framework's 422.
\<close>

definition routes ::
  "('r, 'x) config \<Rightarrow> env \<Rightarrow> (string \<Rightarrow> int option) \<Rightarrow> (http_request \<Rightarrow> http_response + audit_query)
     \<Rightarrow> ('r, 'x) world handler \<Rightarrow> ('r, 'x) world handler" where
  "routes c e fromiso query other req w =
     (case route (req_method req) (req_path req) of
        EpMcp \<Rightarrow> mcp c e req w
      | EpDecide i \<Rightarrow> decide_endpoint c e i req w
      | EpStatus i \<Rightarrow> approval_status c e i req w
      | EpAudit \<Rightarrow>
          (case query req of Inl resp \<Rightarrow> (Inr resp, w) | Inr q \<Rightarrow> get_audit_log c fromiso q req w)
      | EpHealth \<Rightarrow> health req w
      | EpOther \<Rightarrow> other req w)"

definition app ::
  "('r, 'x) config \<Rightarrow> env \<Rightarrow> (string \<Rightarrow> int option) \<Rightarrow> (http_request \<Rightarrow> http_response + audit_query)
     \<Rightarrow> ('r, 'x) world handler \<Rightarrow> ('r, 'x) world handler" where
  "app c e fromiso query other =
     log_requests e (authenticate (rate_limit c e (routes c e fromiso query other)))"

end
