(* ===== verification/Hash_Chain.thy ===== *)
theory Hash_Chain
  imports Prelude
begin

text \<open>
  Hash chains in general: entries of content and stored hash, each hash the digest of the previous
  one followed by the content.  The locale asks of the digest only a fixed length.  Since no
  digest is injective, the guarantee names the alternative: among the very strings hashed for the
  two logs there is a collision, or a string whose digest is the genesis value.
\<close>

type_synonym chain = "(string \<times> string) list"   \<comment> \<open>content, stored hash\<close>

fun chain_valid :: "(string \<Rightarrow> string) \<Rightarrow> string \<Rightarrow> chain \<Rightarrow> bool" where
  "chain_valid d p [] = True"
| "chain_valid d p ((c, h) # xs) = (h = d (p @ c) \<and> chain_valid d h xs)"

text \<open>The strings hashed along a chain, and the hash a next entry would chain off.\<close>

fun payloads :: "string \<Rightarrow> chain \<Rightarrow> string list" where
  "payloads p [] = []"
| "payloads p ((c, h) # xs) = (p @ c) # payloads h xs"

fun chain_head :: "string \<Rightarrow> chain \<Rightarrow> string" where
  "chain_head p [] = p"
| "chain_head p ((c, h) # xs) = chain_head h xs"

lemma chain_valid_append:
  "chain_valid d p (xs @ ys) \<longleftrightarrow> chain_valid d p xs \<and> chain_valid d (chain_head p xs) ys"
  by (induction xs arbitrary: p) auto

lemma payloads_append: "payloads p (xs @ ys) = payloads p xs @ payloads (chain_head p xs) ys"
  by (induction xs arbitrary: p) auto

lemma chain_head_snoc [simp]: "chain_head p (xs @ [(c, h)]) = h"
  by (induction xs arbitrary: p) auto

text \<open>Validity by position.\<close>

definition hash_before :: "string \<Rightarrow> chain \<Rightarrow> nat \<Rightarrow> string" where
  "hash_before p xs i = (if i = 0 then p else snd (xs ! (i - 1)))"

lemma chain_valid_nth:
  "chain_valid d p xs \<longleftrightarrow> (\<forall>i < length xs. snd (xs ! i) = d (hash_before p xs i @ fst (xs ! i)))"
proof (induction xs arbitrary: p)
  case (Cons e xs)
  have "hash_before p (e # xs) (Suc i) = hash_before (snd e) xs i" for i
    by (cases i) (simp_all add: hash_before_def)
  with Cons.IH [of "snd e"] show ?case
    by (cases e) (auto simp: All_less_Suc2 hash_before_def [of _ _ 0])
qed simp

definition collision_between :: "(string \<Rightarrow> string) \<Rightarrow> string list \<Rightarrow> string list \<Rightarrow> bool" where
  "collision_between d xs ys \<longleftrightarrow> (\<exists>x \<in> set xs. \<exists>y \<in> set ys. x \<noteq> y \<and> d x = d y)"

definition preimage_among :: "(string \<Rightarrow> string) \<Rightarrow> string \<Rightarrow> string list \<Rightarrow> bool" where
  "preimage_among d g xs \<longleftrightarrow> (\<exists>x \<in> set xs. d x = g)"

locale hash_chain =
  fixes digest :: "string \<Rightarrow> string" and digest_size :: nat and genesis :: string
  assumes length_digest: "length (digest x) = digest_size"
    and length_genesis: "length genesis = digest_size"
begin

lemma length_head:
  "chain_valid digest genesis xs \<Longrightarrow> length (chain_head genesis xs) = digest_size"
  by (cases xs rule: rev_cases) (auto simp: chain_valid_append length_digest length_genesis)

lemma head_is_digest:
  "chain_valid digest genesis (xs @ [(c, h)]) \<Longrightarrow> h = digest (chain_head genesis xs @ c)"
  by (simp add: chain_valid_append)

text \<open>Two valid chains with the same head hold the same contents, or the digest has failed.\<close>

lemma same_head:
  assumes "chain_valid digest genesis xs" "chain_valid digest genesis ys"
    and "chain_head genesis xs = chain_head genesis ys"
  shows "map fst xs = map fst ys \<or>
    collision_between digest (payloads genesis xs) (payloads genesis ys) \<or>
    preimage_among digest genesis (payloads genesis xs @ payloads genesis ys)"
  using assms
proof (induction xs arbitrary: ys rule: rev_induct)
  case Nil
  show ?case
  proof (cases ys rule: rev_cases)
    case (snoc zs e)
    with Nil.prems have "genesis = digest (chain_head genesis zs @ fst e)"
      by (cases e) (simp add: chain_valid_append)
    then show ?thesis by (cases e) (auto simp: snoc preimage_among_def payloads_append)
  qed simp
next
  case (snoc e xs)
  obtain c h where e: "e = (c, h)" by fastforce
  show ?case
  proof (cases ys rule: rev_cases)
    case Nil
    with snoc.prems have "genesis = digest (chain_head genesis xs @ c)"
      by (simp add: e chain_valid_append)
    then show ?thesis by (auto simp: e Nil preimage_among_def payloads_append)
  next
    case ys: (snoc zs e')
    obtain c' h' where e': "e' = (c', h')" by fastforce
    have valid: "chain_valid digest genesis xs" "chain_valid digest genesis zs"
      and dig: "digest (chain_head genesis xs @ c) = digest (chain_head genesis zs @ c')"
      using snoc.prems by (auto simp: e e' ys chain_valid_append)
    show ?thesis
    proof (cases "chain_head genesis xs @ c = chain_head genesis zs @ c'")
      case True
      then have "chain_head genesis xs = chain_head genesis zs" "c = c'"
        using length_head [OF valid(1)] length_head [OF valid(2)] by simp_all
      with snoc.IH [OF valid] show ?thesis
        by (auto simp: e e' ys payloads_append collision_between_def preimage_among_def)
    next
      case False
      with dig show ?thesis
        by (auto simp: e e' ys payloads_append collision_between_def)
    qed
  qed
qed

end

end
