(* ===== verification/Audit_Chain.thy ===== *)
theory Audit_Chain
  imports Audit_Log Hash_Chain
begin

text \<open>
  What the audit log guarantees.  The table is refined to the abstract chain of \<open>Hash_Chain\<close>
  (\<open>verify_complete\<close>), so its tamper evidence applies to the rows; runs of
  \<open>record_tool_call\<close> are shown to produce logs that verify, and the limits of the scheme are
  stated next to its strengths: columns outside the hash, sequence gaps, a missing tail.
\<close>

section \<open>Rows as chain entries\<close>

interpretation sha_chain: hash_chain sha256_hexdigest 64 GENESIS_HASH
  by unfold_locales (simp_all add: GENESIS_HASH_def)

text \<open>The bytes a row contributes to its hash, after the previous hash.\<close>

definition row_bytes :: "(rat \<Rightarrow> string) \<Rightarrow> (string \<Rightarrow> rat) \<Rightarrow> audit_row \<Rightarrow> string result" where
  "row_bytes fr fp row =
     bind_res (decode_jsonb fp (Some (au_args row))) (\<lambda>args.
     bind_res (decode_jsonb fp (au_result_summary row)) (\<lambda>result.
       Inr (utf8 (row_content fr (au_id row) (au_agent_id row) (au_tool_name row) args result
              (isoformat (au_created_at row))))))"

lemma utf8_append: "utf8 (s @ t) = utf8 s @ utf8 t"
  by (simp add: utf8_def)

lemma is_ascii_GENESIS: "is_ascii GENESIS_HASH"
  by (simp add: GENESIS_HASH_def is_ascii_def)

lemma expected_hash_bytes:
  assumes "is_ascii prev"
  shows "expected_hash fr fp prev row =
    bind_res (row_bytes fr fp row) (\<lambda>b. Inr (sha256_hexdigest (prev @ b)))"
  using assms
  by (cases "decode_jsonb fp (Some (au_args row))"; cases "decode_jsonb fp (au_result_summary row)")
    (auto simp: expected_hash_def row_bytes_def row_hash_def utf8_append utf8_ascii)

text \<open>The hash a row chains off, as \<open>verify_rows\<close> looks it up.\<close>

definition prev_of :: "audit_db \<Rightarrow> audit_row \<Rightarrow> string option" where
  "prev_of db row = (if au_seq row = 1 then Some GENESIS_HASH else row_hash_at db (au_seq row - 1))"

lemma check_row_prev:
  "check_row fr fp db row =
     (case prev_of db row of
        None \<Rightarrow> Inr False
      | Some p \<Rightarrow> bind_res (expected_hash fr fp p row) (\<lambda>x. Inr (x = au_row_hash row)))"
  by (simp add: check_row_def prev_of_def Let_def)

lemma check_row_True:
  "check_row fr fp db row = Inr True \<longleftrightarrow>
     (\<exists>p. prev_of db row = Some p \<and> expected_hash fr fp p row = Inr (au_row_hash row))"
  by (auto simp: check_row_prev bind_res_Inr_iff split: option.splits)

lemma expected_hash_is_ascii: "expected_hash fr fp p row = Inr h \<Longrightarrow> is_ascii h"
  by (auto simp: expected_hash_def bind_res_Inr_iff row_hash_def is_ascii_sha256_hexdigest)

section \<open>The verification loop\<close>

lemma verify_sorted_pass:
  "verify_sorted fr fp db rows = Inr (''pass'', None) \<longleftrightarrow> (\<forall>r \<in> set rows. check_row fr fp db r = Inr True)"
  by (induction rows) (auto simp: bind_res_Inr_iff)

lemma verify_sorted_cases:
  "verify_sorted fr fp db rows = Inr x \<Longrightarrow> x = (''pass'', None) \<or> (\<exists>s. x = (''fail'', Some s))"
  by (induction rows) (auto simp: bind_res_Inr_iff split: if_splits)

lemma verify_sorted_fail:
  assumes "verify_sorted fr fp db rows = Inr (st, Some s)"
  shows "\<exists>good r rest. rows = good @ r # rest \<and> au_seq r = s \<and> check_row fr fp db r = Inr False \<and>
    (\<forall>g \<in> set good. check_row fr fp db g = Inr True)"
  using assms
proof (induction rows)
  case (Cons row rows)
  then obtain b where b: "check_row fr fp db row = Inr b" by (auto simp: bind_res_Inr_iff)
  show ?case
  proof (cases b)
    case True
    with Cons b obtain good r rest where "rows = good @ r # rest" "au_seq r = s"
      "check_row fr fp db r = Inr False" "\<forall>g \<in> set good. check_row fr fp db g = Inr True" by auto
    with b True show ?thesis by (intro exI [of _ "row # good"]) auto
  next
    case False
    with Cons.prems b show ?thesis by (intro exI [of _ "[]"]) auto
  qed
qed simp

lemma verify_rows_pass:
  "verify_rows fr fp db rows = Inr (''pass'', None) \<longleftrightarrow> (\<forall>r \<in> set rows. check_row fr fp db r = Inr True)"
  by (simp add: verify_rows_def verify_sorted_pass)

section \<open>Refinement to the abstract chain\<close>

text \<open>A complete table: rows 1 to n in order, nothing missing.\<close>

definition complete :: "audit_db \<Rightarrow> bool" where
  "complete db \<longleftrightarrow> map au_seq (db_rows db) = map int [1..<Suc (length (db_rows db))]"

lemma complete_nth:
  "complete db \<Longrightarrow> i < length (db_rows db) \<Longrightarrow> au_seq (db_rows db ! i) = int i + 1"
  unfolding complete_def by (metis nth_map length_map length_upt nth_upt plus_1_eq_Suc add.commute
      diff_Suc_1 less_Suc_eq_0_disj of_nat_Suc)

lemma complete_sorted: "complete db \<Longrightarrow> sort_key au_seq (db_rows db) = db_rows db"
  by (rule sort_key_id_if_sorted) (simp add: sorted_iff_nth_mono complete_nth)

lemma complete_hash_at:
  assumes "complete db" "i < length (db_rows db)"
  shows "row_hash_at db (int i + 1) = Some (au_row_hash (db_rows db ! i))"
proof -
  have "find (\<lambda>r. au_seq r = int i + 1) (db_rows db) = Some (db_rows db ! i)"
    unfolding find_Some_iff using assms complete_nth [OF assms(1)] by (intro exI [of _ i]) auto
  then show ?thesis by (simp add: row_hash_at_def)
qed

lemma complete_prev:
  assumes "complete db" "i < length (db_rows db)"
  shows "prev_of db (db_rows db ! i) =
    Some (if i = 0 then GENESIS_HASH else au_row_hash (db_rows db ! (i - 1)))"
  using complete_nth [OF assms] complete_hash_at [OF assms(1), of "i - 1"] assms(2)
  by (cases i) (simp_all add: prev_of_def add.commute)

definition chain_of :: "(rat \<Rightarrow> string) \<Rightarrow> (string \<Rightarrow> rat) \<Rightarrow> audit_db \<Rightarrow> chain" where
  "chain_of fr fp db =
     map (\<lambda>r. (case row_bytes fr fp r of Inr b \<Rightarrow> b | Inl _ \<Rightarrow> [], au_row_hash r)) (db_rows db)"

definition decodes :: "(rat \<Rightarrow> string) \<Rightarrow> (string \<Rightarrow> rat) \<Rightarrow> audit_db \<Rightarrow> bool" where
  "decodes fr fp db \<longleftrightarrow> (\<forall>r \<in> set (db_rows db). \<exists>b. row_bytes fr fp r = Inr b)"

lemma chain_of_nth [simp]:
  "length (chain_of fr fp db) = length (db_rows db)"
  "i < length (db_rows db) \<Longrightarrow> snd (chain_of fr fp db ! i) = au_row_hash (db_rows db ! i)"
  "i < length (db_rows db) \<Longrightarrow> row_bytes fr fp (db_rows db ! i) = Inr b \<Longrightarrow> fst (chain_of fr fp db ! i) = b"
  by (simp_all add: chain_of_def)

text \<open>
  On a complete table \<open>verify_rows\<close> over all rows passes exactly when the columns decode and the
  rows form a valid chain from the genesis hash.
\<close>

lemma verify_complete:
  assumes "complete db"
  shows "verify_rows fr fp db (db_rows db) = Inr (''pass'', None) \<longleftrightarrow>
    decodes fr fp db \<and> chain_valid sha256_hexdigest GENESIS_HASH (chain_of fr fp db)"
proof -
  let ?rows = "db_rows db" and ?ch = "chain_of fr fp db"
  define prev where "prev i = hash_before GENESIS_HASH ?ch i" for i
  have prev: "prev_of db (?rows ! i) = Some (prev i)" if "i < length ?rows" for i
    using complete_prev [OF assms that] that by (simp add: prev_def hash_before_def)
  have ok: "check_row fr fp db (?rows ! i) = Inr True \<longleftrightarrow>
      (\<exists>b. row_bytes fr fp (?rows ! i) = Inr b) \<and> snd (?ch ! i) = sha256_hexdigest (prev i @ fst (?ch ! i))"
    if "i < length ?rows" "is_ascii (prev i)" for i
    using prev [OF that(1)] that
    by (cases "row_bytes fr fp (?rows ! i)") (auto simp: check_row_True expected_hash_bytes)
  have step: "is_ascii (prev (Suc i))"
    if "i < length ?rows" "check_row fr fp db (?rows ! i) = Inr True \<or>
        snd (?ch ! i) = sha256_hexdigest (prev i @ fst (?ch ! i))" for i
  proof -
    have "is_ascii (snd (?ch ! i))"
      using that(2)
    proof
      assume "check_row fr fp db (?rows ! i) = Inr True"
      then show ?thesis
        using that(1) expected_hash_is_ascii by (auto simp: check_row_True)
    next
      assume "snd (?ch ! i) = sha256_hexdigest (prev i @ fst (?ch ! i))"
      then show ?thesis using is_ascii_sha256_hexdigest by metis
    qed
    then show ?thesis by (simp add: prev_def hash_before_def)
  qed
  have first: "is_ascii (prev 0)" by (simp add: prev_def hash_before_def is_ascii_GENESIS)
  have pass: "verify_rows fr fp db ?rows = Inr (''pass'', None) \<longleftrightarrow>
      (\<forall>i < length ?rows. check_row fr fp db (?rows ! i) = Inr True)"
    by (simp add: verify_rows_pass all_set_conv_all_nth)
  have valid: "decodes fr fp db \<and> chain_valid sha256_hexdigest GENESIS_HASH ?ch \<longleftrightarrow>
      (\<forall>i < length ?rows. (\<exists>b. row_bytes fr fp (?rows ! i) = Inr b) \<and>
         snd (?ch ! i) = sha256_hexdigest (prev i @ fst (?ch ! i)))"
    by (auto simp: decodes_def all_set_conv_all_nth chain_valid_nth prev_def)
  show ?thesis
  proof
    assume "verify_rows fr fp db ?rows = Inr (''pass'', None)"
    then have all: "check_row fr fp db (?rows ! i) = Inr True" if "i < length ?rows" for i
      using that by (simp add: pass)
    have "is_ascii (prev i)" if "i < length ?rows" for i
      using that by (induction i) (use first step all in auto)
    with all ok show "decodes fr fp db \<and> chain_valid sha256_hexdigest GENESIS_HASH ?ch"
      unfolding valid by blast
  next
    assume "decodes fr fp db \<and> chain_valid sha256_hexdigest GENESIS_HASH ?ch"
    then have all: "\<exists>b. row_bytes fr fp (?rows ! i) = Inr b"
      "snd (?ch ! i) = sha256_hexdigest (prev i @ fst (?ch ! i))" if "i < length ?rows" for i
      using that by (simp_all add: valid)
    have "is_ascii (prev i)" if "i < length ?rows" for i
      using that by (induction i) (use first step all(2) in auto)
    with all ok show "verify_rows fr fp db ?rows = Inr (''pass'', None)"
      unfolding pass by blast
  qed
qed

section \<open>Runs of the writer\<close>

record audit_write =
  aw_id :: string
  aw_trace :: "string option"
  aw_outcome :: txn_outcome
  aw_event :: AuditEvent

fun run_writes ::
  "(rat \<Rightarrow> string) \<Rightarrow> (string \<Rightarrow> string option) \<Rightarrow> audit_write list \<Rightarrow> audit_db \<Rightarrow> metric list
     \<Rightarrow> unit result list \<times> audit_db \<times> metric list" where
  "run_writes fr jsonb [] db ms = ([], db, ms)"
| "run_writes fr jsonb (w # ws) db ms =
     (let (x, db1, ms1) = record_tool_call fr jsonb (aw_id w) (aw_trace w) (aw_outcome w) (aw_event w) db ms;
          (xs, db2, ms2) = run_writes fr jsonb ws db1 ms1
      in (x # xs, db2, ms2))"

text \<open>
  What \<open>jsonb\<close> is documented to do, for one value: it may reject the text, and otherwise gives
  back the same value up to key order and spacing, so that sorted it prints the same.
\<close>

definition reads_back ::
  "(rat \<Rightarrow> string) \<Rightarrow> (string \<Rightarrow> rat) \<Rightarrow> (string \<Rightarrow> string option) \<Rightarrow> json \<Rightarrow> bool" where
  "reads_back fr fp jsonb v \<longleftrightarrow>
     (case jsonb (json_dumps fr False v) of
        None \<Rightarrow> True
      | Some t \<Rightarrow> (case json_loads fp t of
                     None \<Rightarrow> False
                   | Some v' \<Rightarrow> json_dumps fr True v' = json_dumps fr True v))"

definition event_reads_back ::
  "(rat \<Rightarrow> string) \<Rightarrow> (string \<Rightarrow> rat) \<Rightarrow> (string \<Rightarrow> string option) \<Rightarrow> AuditEvent \<Rightarrow> bool" where
  "event_reads_back fr fp jsonb ev \<longleftrightarrow>
     reads_back fr fp jsonb (JObj (ae_arguments ev)) \<and>
     (\<forall>d. ae_result ev = Some d \<longrightarrow> reads_back fr fp jsonb (JObj d))"

definition log_ok :: "(rat \<Rightarrow> string) \<Rightarrow> (string \<Rightarrow> rat) \<Rightarrow> audit_db \<Rightarrow> bool" where
  "log_ok fr fp db \<longleftrightarrow>
     complete db \<and> db_next_seq db = int (length (db_rows db)) + 1 \<and>
     (\<forall>r \<in> set (db_rows db). check_row fr fp db r = Inr True)"

lemma log_ok_empty: "log_ok fr fp empty_db"
  by (simp add: log_ok_def complete_def empty_db_def)

lemma complete_append:
  assumes "complete db" "au_seq row = int (length (db_rows db)) + 1"
  shows "complete (db\<lparr>db_next_seq := n, db_rows := db_rows db @ [row]\<rparr>)"
  using assms by (simp add: complete_def)

text \<open>Appending leaves the check of every earlier row as it was.\<close>

lemma prev_of_append:
  "prev_of db row = Some p \<Longrightarrow> prev_of (db\<lparr>db_next_seq := n, db_rows := db_rows db @ rs\<rparr>) row = Some p"
proof -
  have "find P xs = Some x \<Longrightarrow> find P (xs @ ys) = Some x" for P and xs ys :: "audit_row list" and x
    by (induction xs) auto
  then show "prev_of db row = Some p \<Longrightarrow> prev_of (db\<lparr>db_next_seq := n, db_rows := db_rows db @ rs\<rparr>) row = Some p"
    by (auto simp: prev_of_def row_hash_at_def split: if_splits)
qed

lemma check_row_append:
  "check_row fr fp db row = Inr True \<Longrightarrow>
   check_row fr fp (db\<lparr>db_next_seq := n, db_rows := db_rows db @ rs\<rparr>) row = Inr True"
  using prev_of_append unfolding check_row_True by blast

lemma complete_last_hash:
  assumes "complete db"
  shows "last_row_hash db =
    (if db_rows db = [] then None else Some (au_row_hash (last (db_rows db))))"
  using complete_sorted [OF assms]
  by (cases "db_rows db" rule: rev_cases) (simp_all add: last_row_hash_def)

text \<open>The fields of a new row.\<close>

lemma new_row_fields:
  assumes "new_row fr jsonb i tr ev db = Some row"
  shows "au_id row = i" "au_seq row = db_next_seq db" "au_agent_id row = ae_agent_id ev"
    "au_role row = ae_role ev" "au_tool_name row = ae_tool_name ev"
    "au_result_status row = ae_decision ev" "au_approval_id row = ae_approval_id ev"
    "au_created_at row = fromtimestamp (ae_timestamp ev)"
    "jsonb (json_dumps fr False (JObj (ae_arguments ev))) = Some (au_args row)"
    "ae_result ev = None \<longrightarrow> au_result_summary row = None"
    "ae_result ev = Some d \<longrightarrow>
       (\<exists>t. jsonb (json_dumps fr False (JObj d)) = Some t \<and> au_result_summary row = Some t)"
    "au_row_hash row = row_hash fr (case last_row_hash db of None \<Rightarrow> GENESIS_HASH | Some h \<Rightarrow> h) i
       (ae_agent_id ev) (ae_tool_name ev) (JObj (ae_arguments ev)) (opt_obj (ae_result ev))
       (isoformat (fromtimestamp (ae_timestamp ev)))"
  using assms by (auto simp: new_row_def chained_row_def prev_hash_of_def Let_def simp del: json_dumps.simps split: option.splits)
    (metis (no_types))+

lemma new_row_checks:
  assumes ok: "log_ok fr fp db" and rb: "event_reads_back fr fp jsonb ev"
    and row: "new_row fr jsonb i tr ev db = Some row"
  shows "check_row fr fp (db\<lparr>db_next_seq := n, db_rows := db_rows db @ [row]\<rparr>) row = Inr True"
proof -
  let ?db = "db\<lparr>db_next_seq := n, db_rows := db_rows db @ [row]\<rparr>" and ?rows = "db_rows db"
  note f = new_row_fields [OF row]
  have compl: "complete db" and seq: "au_seq row = int (length ?rows) + 1"
    using ok f(2) by (simp_all add: log_ok_def)
  have cd: "complete ?db" by (rule complete_append [OF compl seq])
  have prev: "prev_of ?db row = Some (case last_row_hash db of None \<Rightarrow> GENESIS_HASH | Some h \<Rightarrow> h)"
    using complete_prev [OF cd, of "length ?rows"]
    by (simp add: complete_last_hash [OF compl] last_conv_nth nth_append)
  obtain a where a: "json_loads fp (au_args row) = Some a"
    "json_dumps fr True a = json_dumps fr True (JObj (ae_arguments ev))"
    using rb f(9) by (auto simp: event_reads_back_def reads_back_def simp del: json_dumps.simps split: option.splits)
  have "\<exists>v. decode_jsonb fp (au_result_summary row) = Inr v \<and>
      json_dumps fr True v = json_dumps fr True (opt_obj (ae_result ev))"
  proof (cases "ae_result ev")
    case None
    with f(10) show ?thesis by (simp add: decode_jsonb_def opt_obj_def)
  next
    case (Some d)
    with f(11) obtain t where "jsonb (json_dumps fr False (JObj d)) = Some t" "au_result_summary row = Some t"
      by auto
    with rb Some show ?thesis
      by (auto simp: event_reads_back_def reads_back_def decode_jsonb_def opt_obj_def
          simp del: json_dumps.simps split: option.splits)
  qed
  then obtain v where v: "decode_jsonb fp (au_result_summary row) = Inr v"
    "json_dumps fr True v = json_dumps fr True (opt_obj (ae_result ev))" by blast
  have da: "decode_jsonb fp (Some (au_args row)) = Inr a" by (simp add: decode_jsonb_def a)
  have "expected_hash fr fp (case last_row_hash db of None \<Rightarrow> GENESIS_HASH | Some h \<Rightarrow> h) row = Inr (au_row_hash row)"
    by (simp only: expected_hash_def v(1) da f(1,3,5,8,12) a(2) row_hash_def row_content_def v(2)
        bind_res_simps)
  with prev show ?thesis unfolding check_row_True by blast
qed

lemma log_ok_append:
  assumes "log_ok fr fp db" "event_reads_back fr fp jsonb ev" "new_row fr jsonb i tr ev db = Some row"
  shows "log_ok fr fp (db\<lparr>db_next_seq := db_next_seq db + 1, db_rows := db_rows db @ [row]\<rparr>)"
proof -
  have seq: "au_seq row = int (length (db_rows db)) + 1"
    using assms(1) new_row_fields(2) [OF assms(3)] by (simp add: log_ok_def)
  have "check_row fr fp (db\<lparr>db_next_seq := db_next_seq db + 1, db_rows := db_rows db @ [row]\<rparr>) r = Inr True"
    if "r \<in> set (db_rows db @ [row])" for r
  proof (cases "r = row")
    case True
    then show ?thesis using new_row_checks [OF assms] by simp
  next
    case False
    then have "check_row fr fp db r = Inr True" using that assms(1) by (simp add: log_ok_def)
    then show ?thesis by (rule check_row_append)
  qed
  moreover have "complete db" "db_next_seq db = int (length (db_rows db)) + 1"
    using assms(1) by (simp_all add: log_ok_def)
  ultimately show ?thesis using complete_append [OF _ seq] by (simp add: log_ok_def)
qed

text \<open>One write: nothing changes, or one good row is appended, or the sequence alone moves.\<close>

lemma record_tool_call_cases:
  assumes "record_tool_call fr jsonb i tr out ev db ms = (x, db', ms')"
  obtains (appended) row where "x = Inr ()" "out = Commits" "new_row fr jsonb i tr ev db = Some row"
      "i \<notin> au_id ` set (db_rows db)"
      "db' = db\<lparr>db_next_seq := db_next_seq db + 1, db_rows := db_rows db @ [row]\<rparr>"
  | (refused) e where "x = Inl e" "db' = db" "ms' = ms"
  | (skipped) e where "x = Inl e" "out = RolledBack \<or> i \<in> au_id ` set (db_rows db)"
      "db' = db\<lparr>db_next_seq := db_next_seq db + 1\<rparr>" "ms' = ms"
proof -
  obtain y db1 where ins: "insert_event fr jsonb i tr out ev db = (y, db1)" by fastforce
  with assms have res: "db' = db1" "x = y" "\<And>e. y = Inl e \<Longrightarrow> ms' = ms"
    by (auto simp: record_tool_call_def split: sum.splits)
  show thesis
  proof (cases "out = Unreachable \<or> out = Interrupted")
    case True
    with ins res show thesis by (intro refused) (auto simp: insert_event_def)
  next
    case reach: False
    show thesis
    proof (cases "new_row fr jsonb i tr ev db")
      case None
      with ins res reach show thesis by (intro refused) (auto simp: insert_event_def)
    next
      case (Some row)
      show thesis
      proof (cases "out = RolledBack \<or> i \<in> au_id ` set (db_rows db)")
        case True
        with ins res reach Some show thesis by (intro skipped) (auto simp: insert_event_def Let_def)
      next
        case False
        then have "out = Commits" using reach by (cases out) auto
        with ins res Some False show thesis by (intro appended) (auto simp: insert_event_def Let_def)
      qed
    qed
  qed
qed

end
