(* ===== verification/Gateway_Cases.thy ===== *)
theory Gateway_Cases
  imports Endpoints Audit_Chain
begin

text \<open>
  The case rules of the handlers: each operation of \<open>Gateway\<close> and \<open>Endpoints\<close> is analysed once
  here, into what it changes and under which condition.  The properties of \<open>Gateway_Props\<close> and
  \<open>Gateway_Run\<close> use these rules instead of the definitions.
\<close>

section \<open>Frames\<close>

text \<open>Equality of two worlds outside what is named.\<close>

definition only_metrics :: "('r, 'x) world \<Rightarrow> ('r, 'x) world \<Rightarrow> bool" where
  "only_metrics w w' \<longleftrightarrow> w' = w\<lparr>w_metrics := w_metrics w'\<rparr>"

lemma only_metrics_frame [frame]:
  assumes "only_metrics w w'"
  shows "w_redis w' = w_redis w" "w_db w' = w_db w" "w_hub w' = w_hub w" "w_slack w' = w_slack w"
    "w_log w' = w_log w" "w_ext w' = w_ext w"
  using assms unfolding only_metrics_def by (metis world.select_convs world.update_convs(5) world.surjective)+

lemma only_metrics_refl [simp, intro]: "only_metrics w w"
  by (simp add: only_metrics_def)

lemma only_metrics_upd [simp, intro]: "only_metrics w (w\<lparr>w_metrics := m\<rparr>)"
  by (simp add: only_metrics_def)

section \<open>The audit write\<close>

text \<open>
  Either one row of this event is appended, or the write raises and no row changes; nothing but
  the table and the metrics is touched.
\<close>

lemma audit_frame [frame]:
  assumes "audit c e ev w = (x, w')"
  shows "w_redis w' = w_redis w" "w_hub w' = w_hub w" "w_slack w' = w_slack w"
    "w_log w' = w_log w" "w_ext w' = w_ext w"
  using assms by (auto simp: audit_def split: prod.splits)

definition event_row :: "env \<Rightarrow> AuditEvent \<Rightarrow> audit_row \<Rightarrow> bool" where
  "event_row e ev row \<longleftrightarrow>
     au_id row = e_row_id e \<and> au_agent_id row = ae_agent_id ev \<and> au_role row = ae_role ev \<and>
     au_tool_name row = ae_tool_name ev \<and> au_result_status row = ae_decision ev \<and>
     au_approval_id row = ae_approval_id ev"

lemma audit_cases:
  assumes "audit c e ev w = (x, w')"
  obtains (written) row where "x = Inr ()" "db_rows (w_db w') = db_rows (w_db w) @ [row]"
      "event_row e ev row" "e_txn e = Commits"
  | (failed) ex where "x = Inl ex" "db_rows (w_db w') = db_rows (w_db w)"
proof -
  obtain ms where "record_tool_call (c_fr c) (c_jsonb c) (e_row_id e) (e_trace e) (e_txn e) ev
      (w_db w) (w_metrics w) = (x, w_db w', ms)"
    using assms by (auto simp: audit_def split: prod.splits)
  then show thesis
  proof (cases rule: record_tool_call_cases)
    case (appended row)
    show thesis
      by (rule written [of row]) (simp_all add: appended event_row_def new_row_fields [OF appended(3)])
  qed (auto intro: failed)
qed

lemma audit_then_frame [frame]:
  assumes "audit_then c e ev resp w = (x, w')"
  shows "w_redis w' = w_redis w" "w_hub w' = w_hub w" "w_slack w' = w_slack w"
    "w_log w' = w_log w" "w_ext w' = w_ext w"
  using assms by (auto simp: audit_then_def dest: audit_frame split: prod.splits sum.splits)

lemma audit_then_cases:
  assumes "audit_then c e ev resp w = (x, w')"
  obtains (written) row where "x = resp" "db_rows (w_db w') = db_rows (w_db w) @ [row]"
      "event_row e ev row" "e_txn e = Commits"
  | (failed) ex where "x = Inl ex" "db_rows (w_db w') = db_rows (w_db w)"
proof -
  obtain y w1 where a: "audit c e ev w = (y, w1)" by fastforce
  then have "w' = w1" using assms by (auto simp: audit_then_def split: sum.splits)
  from a show thesis
    by (cases rule: audit_cases)
      (use assms a \<open>w' = w1\<close> in \<open>auto simp: audit_then_def intro: written failed\<close>)
qed

lemma respond_status: "respond b s = Inr resp \<Longrightarrow> resp_status resp = s"
  by (auto simp: respond_def split: if_splits)

section \<open>The \<open>/mcp\<close> handler up to the decision\<close>

text \<open>
  \<open>judged\<close>: the request is a \<open>tools/call\<close> of a registered tool that its agent may call, and the
  policy returned the decision \<open>d\<close> on it.
\<close>

definition judged ::
  "('r, 'x) config \<Rightarrow> env \<Rightarrow> http_request \<Rightarrow> ('r, 'x) world \<Rightarrow> Agent_data \<Rightarrow> json \<Rightarrow> ToolCallContext
     \<Rightarrow> string \<Rightarrow> PolicyDecision \<Rightarrow> metric list \<Rightarrow> bool" where
  "judged c e req w agent rpc_id ctx tool d ms \<longleftrightarrow>
     (\<exists>body. c_body c (req_bytes req) = JsonBody (JObj body) \<and> rpc_id = dict_get body ''id'' \<and>
        dict_get body ''method'' = JStr ''tools/call'' \<and> req_agent req = Some agent \<and>
        intercept_tool_call (py_or (dict_get body ''params'') (JObj [])) agent (e_now e) = Inr ctx) \<and>
     ctx_tool_name ctx = JStr tool \<and> tool \<in> fst ` set (c_tools c) \<and> tool \<in> set (allowed_tools agent) \<and>
     evaluate_policy (c_fr c) (c_opa c) ctx (w_metrics w) = (Inr d, ms)"

definition call_of :: "json \<Rightarrow> ToolCallContext \<Rightarrow> string \<Rightarrow> call" where
  "call_of rpc_id ctx tool =
     \<lparr>ca_rpc_id = rpc_id, ca_agent_id = ctx_agent_id ctx, ca_role = ctx_role ctx,
      ca_tool = tool, ca_args = ctx_arguments ctx\<rparr>"

lemma call_of_simps [simp]:
  "ca_rpc_id (call_of i ctx t) = i" "ca_agent_id (call_of i ctx t) = ctx_agent_id ctx"
  "ca_role (call_of i ctx t) = ctx_role ctx" "ca_tool (call_of i ctx t) = t"
  "ca_args (call_of i ctx t) = ctx_arguments ctx"
  by (simp_all add: call_of_def)

lemma judged_context:
  assumes "judged c e req w agent rpc_id ctx tool d ms"
  shows "ctx_agent_id ctx = ident_str (agent_id agent)" "ctx_role ctx = agent_role agent"
    "req_agent req = Some agent"
  using assms by (auto simp: judged_def intercept_tool_call_Inr)

lemma known_tool_Some:
  "known_tool tools v = Inr (Some t) \<Longrightarrow> v = JStr t \<and> t \<in> fst ` set tools"
  by (auto simp: known_tool_def split: json.splits if_splits)

lemma mcp_call_cases:
  assumes "mcp_call c e agent rpc_id params w = (x, w')"
  obtains (early) "only_metrics w w'"
  | (decided) ctx tool d ms where "intercept_tool_call params agent (e_now e) = Inr ctx"
      "ctx_tool_name ctx = JStr tool" "tool \<in> fst ` set (c_tools c)" "tool \<in> set (allowed_tools agent)"
      "evaluate_policy (c_fr c) (c_opa c) ctx (w_metrics w) = (Inr d, ms)"
      "mcp_decided c e (call_of rpc_id ctx tool) d (w\<lparr>w_metrics := ms\<rparr>) = (x, w')"
proof (cases "intercept_tool_call params agent (e_now e)")
  case (Inl ex)
  with assms show thesis by (cases ex) (auto simp: mcp_call_def intro: early)
next
  case ctx: (Inr ctx)
  show thesis
  proof (cases "context_environment ctx")
    case (Inl ex)
    with assms ctx show thesis by (auto simp: mcp_call_def intro: early)
  next
    case env: (Inr v)
    show thesis
    proof (cases "\<exists>tool. known_tool (c_tools c) (ctx_tool_name ctx) = Inr (Some tool) \<and> tool \<in> set (allowed_tools agent)")
      case False
      with assms ctx env show thesis
        by (auto simp: mcp_call_def intro: early split: sum.splits option.splits if_splits)
    next
      case True
      then obtain tool where tool: "known_tool (c_tools c) (ctx_tool_name ctx) = Inr (Some tool)"
        "tool \<in> set (allowed_tools agent)" by blast
      obtain y ms where ev: "evaluate_policy (c_fr c) (c_opa c) ctx (w_metrics w) = (y, ms)" by fastforce
      show thesis
      proof (cases y)
        case (Inl ex)
        with assms ctx env tool ev show thesis by (auto simp: mcp_call_def intro: early)
      next
        case (Inr d)
        with assms ctx env tool ev show thesis
          using known_tool_Some [OF tool(1)]
          by (intro decided [of ctx tool d ms]) (simp_all add: mcp_call_def call_of_def)
      qed
    qed
  qed
qed

lemma mcp_cases:
  assumes "mcp c e req w = (x, w')"
  obtains (early) "only_metrics w w'"
  | (decided) agent rpc_id ctx tool d ms where "judged c e req w agent rpc_id ctx tool d ms"
      "mcp_decided c e (call_of rpc_id ctx tool) d (w\<lparr>w_metrics := ms\<rparr>) = (x, w')"
proof (cases "\<exists>body agent. c_body c (req_bytes req) = JsonBody (JObj body) \<and>
    dict_get body ''method'' = JStr ''tools/call'' \<and> req_agent req = Some agent")
  case True
  then obtain body agent where b: "c_body c (req_bytes req) = JsonBody (JObj body)"
    "dict_get body ''method'' = JStr ''tools/call''" "req_agent req = Some agent" by blast
  then have call: "mcp_call c e agent (dict_get body ''id'') (py_or (dict_get body ''params'') (JObj [])) w = (x, w')"
    using assms by (simp add: mcp_def mcp_dispatch_def)
  then show thesis
  proof (cases rule: mcp_call_cases)
    case (decided ctx tool d ms)
    then show thesis using b by (intro that(2)) (auto simp: judged_def)
  qed (rule early)
next
  case False
  then have "w' = w"
    using assms by (auto simp: mcp_def mcp_dispatch_def Let_def split: body_reply.splits json.splits option.splits if_splits)
  then show thesis by (intro early) simp
qed

section \<open>Hold, deny, run\<close>

lemma mcp_hold_cases:
  assumes "mcp_hold c e k d w = (x, w')"
  obtains y ms where
    "create_pending_approval (c_redis c) (c_fr c) (e_now e) (e_uuid e) (ca_agent_id k) (ca_role k)
       (ca_tool k) (ca_args k) (dec_reason d) (w_redis w) (w_metrics w) = (y, w_redis w', ms)"
    "w_ext w' = w_ext w" "w_hub w' = w_hub w" "w_log w' = w_log w"
    "(\<exists>ex. x = Inl ex \<and> db_rows (w_db w') = db_rows (w_db w)) \<or>
     (\<exists>a row. y = Inr a \<and> x = respond (pending_body (ca_rpc_id k) a) 202 \<and>
        db_rows (w_db w') = db_rows (w_db w) @ [row] \<and>
        event_row e (call_event e k ''pending_approval'' (Some (dec_reason d)) None (Some (ap_id a))) row)"
proof -
  obtain y r ms where cr: "create_pending_approval (c_redis c) (c_fr c) (e_now e) (e_uuid e)
       (ca_agent_id k) (ca_role k) (ca_tool k) (ca_args k) (dec_reason d) (w_redis w) (w_metrics w) = (y, r, ms)"
    by (metis prod_cases3)
  show thesis
  proof (cases y)
    case (Inl ex)
    with assms cr show thesis by (intro that [of y ms]) (auto simp: mcp_hold_def)
  next
    case a: (Inr a)
    let ?w1 = "w\<lparr>w_redis := r, w_metrics := ms\<rparr>"
    obtain z sent where sl: "send_approval_request (c_fr c) (c_slack_url c) (c_slack_post c) a (w_slack ?w1) = (z, sent)"
      by fastforce
    show thesis
    proof (cases z)
      case (Inl ex)
      with assms cr a sl show thesis by (intro that [of y ms]) (auto simp: mcp_hold_def Let_def)
    next
      case (Inr u)
      with assms cr a sl have "audit_then c e
          (call_event e k ''pending_approval'' (Some (dec_reason d)) None (Some (ap_id a)))
          (respond (pending_body (ca_rpc_id k) a) 202) (?w1\<lparr>w_slack := sent\<rparr>) = (x, w')"
        by (simp add: mcp_hold_def Let_def)
      note at = this and fr = audit_then_frame [OF this]
      from at show thesis
        by (cases rule: audit_then_cases) (use cr a fr in \<open>auto intro: that [of y ms]\<close>)
    qed
  qed
qed

lemma mcp_deny_cases:
  assumes "mcp_deny c e k d w = (x, w')"
  obtains "w_ext w' = w_ext w" "w_redis w' = w_redis w" "w_slack w' = w_slack w" "w_hub w' = w_hub w"
    "w_log w' = w_log w"
    "(\<exists>ex. x = Inl ex \<and> db_rows (w_db w') = db_rows (w_db w)) \<or>
     (\<exists>row. (\<forall>resp. x = Inr resp \<longrightarrow> resp_status resp = 403) \<and>
        db_rows (w_db w') = db_rows (w_db w) @ [row] \<and>
        event_row e (call_event e k ''denied'' (Some (dec_reason d)) None None) row)"
proof -
  note at = assms [unfolded mcp_deny_def]
  from at show thesis
    by (cases rule: audit_then_cases)
      (use audit_then_frame [OF at] in \<open>auto intro!: that dest: respond_status\<close>)
qed

text \<open>The audited outcome of a run: its event, and the status of the answer if there is one.\<close>

definition outcome_status :: "ExecutionOutcome \<Rightarrow> int" where
  "outcome_status o1 =
     (case o1 of
        Success _ \<Rightarrow> 200
      | Unhandled_error _ \<Rightarrow> 500
      | Executor_error t _ \<Rightarrow> (case ERROR_TYPE_STATUS t of Some s \<Rightarrow> s | None \<Rightarrow> 500))"

definition outcome_label :: "ExecutionOutcome \<Rightarrow> string" where
  "outcome_label o1 =
     (case o1 of
        Success _ \<Rightarrow> ''allowed'' | Unhandled_error _ \<Rightarrow> ''error'' | Executor_error t _ \<Rightarrow> decision_label t)"

lemma mcp_run_cases:
  assumes "mcp_run c e k d w = (x, w')"
  obtains oc where "execute_tool (c_tools c) (ca_tool k) (ca_args k) (w_ext w) = (oc, w_ext w')"
    "w_redis w' = w_redis w" "w_slack w' = w_slack w" "w_hub w' = w_hub w" "w_log w' = w_log w"
    "(\<exists>ex. x = Inl ex \<and> db_rows (w_db w') = db_rows (w_db w)) \<or>
     (\<exists>row. (\<forall>resp. x = Inr resp \<longrightarrow> resp_status resp = outcome_status oc) \<and>
        db_rows (w_db w') = db_rows (w_db w) @ [row] \<and> au_id row = e_row_id e \<and>
        au_agent_id row = ca_agent_id k \<and> au_role row = ca_role k \<and> au_tool_name row = ca_tool k \<and>
        au_result_status row = outcome_label oc \<and> e_txn e = Commits)"
proof -
  obtain oc y where ex: "execute_tool (c_tools c) (ca_tool k) (ca_args k) (w_ext w) = (oc, y)" by fastforce
  let ?w1 = "w\<lparr>w_ext := y\<rparr>"
  have run: "mcp_run c e k d w =
      (case oc of
         Executor_error t m \<Rightarrow>
          (case ERROR_TYPE_STATUS t of
             None \<Rightarrow> (Inl (PyError KeyError (quoted t)), ?w1)
           | Some status \<Rightarrow>
               audit_then c e (call_event e k (decision_label t) (Some m) None None)
                 (respond (executor_error_body (ca_rpc_id k) (''Executor error: '' @ m) m t) status) ?w1)
      | Unhandled_error m \<Rightarrow>
          audit_then c e (call_event e k ''error'' (Some m) None None)
            (respond (executor_error_body (ca_rpc_id k) ''Executor error'' m ''upstream_error'') 500) ?w1
      | Success result \<Rightarrow>
          audit_then c e (call_event e k ''allowed'' (Some (dec_reason d)) (Some result) None)
            (respond (rpc_result (ca_rpc_id k) (JObj result)) 200) ?w1)"
    by (simp add: mcp_run_def ex Let_def)
  note ran = that
  have key: thesis
    if at: "audit_then c e (call_event e k (outcome_label oc) rs rt None) resp ?w1 = (x, w')"
      and st: "\<And>a. resp = Inr a \<Longrightarrow> resp_status a = outcome_status oc" for rs rt resp
    using at
  proof (cases rule: audit_then_cases)
    case (written row)
    then show thesis
      using audit_then_frame [OF at] ex st
      by (intro ran [of oc]) (auto simp: event_row_def call_event_def audit_event_def)
  next
    case (failed ex1)
    then show thesis using audit_then_frame [OF at] ex by (intro ran [of oc]) auto
  qed
  show thesis
  proof (cases oc)
    case (Success r)
    show thesis
      by (rule key) (use assms run Success in \<open>auto simp: outcome_label_def outcome_status_def dest: respond_status\<close>)
  next
    case (Unhandled_error m)
    show thesis
      by (rule key) (use assms run Unhandled_error in \<open>auto simp: outcome_label_def outcome_status_def dest: respond_status\<close>)
  next
    case (Executor_error t m)
    show thesis
    proof (cases "ERROR_TYPE_STATUS t")
      case None
      with assms run Executor_error ex show thesis by (intro ran [of oc]) auto
    next
      case (Some s)
      show thesis
        by (rule key) (use assms run Executor_error Some in
            \<open>auto simp: outcome_label_def outcome_status_def dest: respond_status\<close>)
    qed
  qed
qed

section \<open>The decision callback\<close>

text \<open>
  The last part of a decided callback: the row, then the push; a failed write leaves both undone.
\<close>

lemma conclude_cases:
  assumes "conclude c e a ev status extra answer w = (x, w')"
  obtains (written) row where "db_rows (w_db w') = db_rows (w_db w) @ [row]" "event_row e ev row"
      "w_hub w' = publish (ap_agent_id a)
         [(''approval_id'', JStr (ap_id a)), (''tool_name'', JStr (ap_tool_name a)),
          (''status'', JStr status), extra] (w_hub w)"
      "x = respond (JObj [(''approval_id'', JStr (ap_id a)), (''status'', JStr answer)]) 200"
      "w_redis w' = w_redis w" "w_ext w' = w_ext w" "w_slack w' = w_slack w" "w_log w' = w_log w"
  | (failed) ex where "x = Inl ex" "db_rows (w_db w') = db_rows (w_db w)" "w_hub w' = w_hub w"
      "w_redis w' = w_redis w" "w_ext w' = w_ext w" "w_slack w' = w_slack w" "w_log w' = w_log w"
proof -
  obtain y w1 where au: "audit c e ev w = (y, w1)" by fastforce
  from au show thesis
  proof (cases rule: audit_cases)
    case (written row)
    then show thesis
      using assms au audit_frame [OF au]
      by (intro that(1) [of row]) (auto simp: conclude_def publish_to_def)
  next
    case (failed ex)
    then show thesis
      using assms au audit_frame [OF au] by (intro that(2) [of ex]) (auto simp: conclude_def)
  qed
qed

text \<open>What a callback told to act on approval \<open>a\<close> does.\<close>

definition acted ::
  "('r, 'x) config \<Rightarrow> env \<Rightarrow> Approval \<Rightarrow> http_response result \<Rightarrow> ('r, 'x) world \<Rightarrow> ('r, 'x) world \<Rightarrow> bool" where
  "acted c e a x w w' \<longleftrightarrow>
     (if ap_status a = ''denied'' then w_ext w' = w_ext w
      else w_ext w' = snd (execute_tool (c_tools c) (ap_tool_name a) (ap_arguments a) (w_ext w))) \<and>
     w_slack w' = w_slack w \<and> w_log w' = w_log w \<and>
     ((\<exists>ex. x = Inl ex) \<and> db_rows (w_db w') = db_rows (w_db w) \<and> w_hub w' = w_hub w \<or>
      (\<exists>row ev. db_rows (w_db w') = db_rows (w_db w) @ [row] \<and> w_hub w' = publish (ap_agent_id a) ev (w_hub w) \<and>
         map_of ev ''approval_id'' = Some (JStr (ap_id a)) \<and>
         au_id row = e_row_id e \<and> au_agent_id row = ap_agent_id a \<and> au_role row = ap_role a \<and>
         au_tool_name row = ap_tool_name a \<and> au_approval_id row = Some (ap_id a) \<and>
         au_result_status row =
           (if ap_status a = ''denied'' then ''approval_denied''
            else outcome_label (fst (execute_tool (c_tools c) (ap_tool_name a) (ap_arguments a) (w_ext w)))) \<and>
         x = respond (JObj [(''approval_id'', JStr (ap_id a)),
               (''status'', JStr (if ap_status a = ''denied'' then ''denied'' else ''approved''))]) 200))"

lemma decide_denied_acted:
  assumes "decide_denied c e p a w = (x, w')" "ap_status a = ''denied''"
  shows "acted c e a x w w' \<and> w_redis w' = w_redis w"
  using assms(1) unfolding decide_denied_def Let_def
proof (cases rule: conclude_cases)
  case (written row)
  then show ?thesis
    using assms(2)
    by (auto simp: acted_def event_row_def approval_event_def audit_event_def intro!: exI [of _ row])
next
  case (failed ex)
  then show ?thesis using assms(2) by (auto simp: acted_def)
qed

lemma decide_approved_acted:
  assumes "decide_approved c e p a w = (x, w')" "ap_status a \<noteq> ''denied''"
  shows "acted c e a x w w' \<and> w_redis w' = w_redis w"
proof -
  obtain oc y where ex: "execute_tool (c_tools c) (ap_tool_name a) (ap_arguments a) (w_ext w) = (oc, y)"
    by fastforce
  obtain reason res status extra where
    con: "conclude c e a (approval_event e a (outcome_label oc) reason res) status extra ''approved''
            (w\<lparr>w_ext := y\<rparr>) = (x, w')" and extra: "fst extra \<noteq> ''approval_id''"
    using assms(1) by (cases oc) (force simp: decide_approved_def ex outcome_label_def Let_def)+
  from con show ?thesis
  proof (cases rule: conclude_cases)
    case (written row)
    then show ?thesis
      using assms(2) ex
      by (auto simp: acted_def event_row_def approval_event_def audit_event_def intro!: exI [of _ row])
  next
    case (failed ex1)
    then show ?thesis using assms(2) ex by (auto simp: acted_def)
  qed
qed

lemma decide_endpoint_cases:
  assumes "decide_endpoint c e i req w = (x, w')"
  obtains (refused) "w' = w" "\<nexists>p. verify_signature (c_secret c) (e_now e)
         (header req ''x-slack-request-timestamp'') (req_bytes req) (header req ''x-slack-signature'') = Inr True \<and>
       c_validate c (req_bytes req) = Inr p \<and> dr_decision p \<in> {''approve'', ''deny''}"
  | (judged) p y ms where
      "verify_signature (c_secret c) (e_now e) (header req ''x-slack-request-timestamp'')
         (req_bytes req) (header req ''x-slack-signature'') = Inr True"
      "c_validate c (req_bytes req) = Inr p" "dr_decision p \<in> {''approve'', ''deny''}"
      "decide_approval (c_redis c) (c_fr c) (c_fp c) (e_now e) (e_later e) i (dr_decision p)
         (dr_decided_by p) (w_redis w) (w_metrics w) = (y, w_redis w', ms)"
      "(\<exists>a. y = Inr (Some a, Decided) \<and> acted c e a x w w') \<or>
       (\<forall>a. y \<noteq> Inr (a, Decided)) \<and> w_ext w' = w_ext w \<and> w_db w' = w_db w \<and> w_hub w' = w_hub w \<and>
         w_slack w' = w_slack w \<and> w_log w' = w_log w"
proof -
  let ?v = "verify_signature (c_secret c) (e_now e) (header req ''x-slack-request-timestamp'')
         (req_bytes req) (header req ''x-slack-signature'')"
  show thesis
  proof (cases "\<exists>p. ?v = Inr True \<and> c_validate c (req_bytes req) = Inr p \<and> dr_decision p \<in> {''approve'', ''deny''}")
    case False
    then have "w' = w"
      using assms by (auto simp: decide_endpoint_def decide_payload_def split: sum.splits bool.splits if_splits)
    then show thesis using False by (rule refused)
  next
    case True
    then obtain p where v: "?v = Inr True" "c_validate c (req_bytes req) = Inr p"
      "dr_decision p \<in> {''approve'', ''deny''}" by blast
    obtain y r ms where d: "decide_approval (c_redis c) (c_fr c) (c_fp c) (e_now e) (e_later e) i
        (dr_decision p) (dr_decided_by p) (w_redis w) (w_metrics w) = (y, r, ms)"
      by (metis prod_cases3)
    let ?w1 = "w\<lparr>w_redis := r, w_metrics := ms\<rparr>"
    have dp: "decide_payload c e i p w = (x, w')" using assms v by (simp add: decide_endpoint_def)
    have acted_w1: "acted c e a x ?w1 w' \<longleftrightarrow> acted c e a x w w'" for a by (simp add: acted_def)
    show thesis
    proof (cases "\<exists>a. y = Inr (Some a, Decided)")
      case True
      then obtain a where a: "y = Inr (Some a, Decided)" by blast
      have "(if ap_status a = ''denied'' then decide_denied c e p a ?w1 else decide_approved c e p a ?w1) = (x, w')"
        using dp v(3) d by (auto simp: decide_payload_def a Let_def)
      then have "acted c e a x ?w1 w' \<and> w_redis w' = r"
        using decide_denied_acted [of c e p a ?w1 x w'] decide_approved_acted [of c e p a ?w1 x w']
        by (auto split: if_splits)
      then show thesis using v d a acted_w1 by (intro judged [of p y ms]) auto
    next
      case other: False
      have none: "y \<noteq> Inr (None, Decided)"
        using d by (auto simp: decide_approval_def decide_guard_def decide_write_def Let_def
            split: prod.splits sum.splits option.splits if_splits)
      have "w' = ?w1"
        using dp v(3) d other
        by (auto simp: decide_payload_def Let_def split: sum.splits prod.splits option.splits decide_outcome.splits if_splits)
      moreover have "\<forall>a. y \<noteq> Inr (a, Decided)" using other none by (metis not_None_eq)
      ultimately show thesis using v d by (intro judged [of p y ms]) simp_all
    qed
  qed
qed

text \<open>A callback that decides nothing has read the approval, if it came that far, and says why.\<close>

lemma undecided_endpoint:
  assumes "decide_endpoint c e i req w = (Inr resp, w')"
    and "verify_signature (c_secret c) (e_now e) (header req ''x-slack-request-timestamp'')
         (req_bytes req) (header req ''x-slack-signature'') = Inr True"
    and "c_validate c (req_bytes req) = Inr p" "dr_decision p \<in> {''approve'', ''deny''}"
    and "decide_approval (c_redis c) (c_fr c) (c_fp c) (e_now e) (e_later e) i (dr_decision p)
         (dr_decided_by p) (w_redis w) (w_metrics w) = (y, r, ms)" "\<forall>a. y \<noteq> Inr (a, Decided)"
  shows "\<exists>ao. get_approval (c_redis c) (c_fp c) (e_now e) i (w_redis w) = (Inr ao, r) \<and> w' = w\<lparr>w_redis := r\<rparr> \<and>
    (case ao of None \<Rightarrow> resp_status resp = 410
     | Some a \<Rightarrow> if ap_status a \<noteq> ''pending'' then resp_status resp = 409
                else ap_expires_at a < e_now e \<and> resp_status resp = 410)"
proof -
  have dp: "decide_payload c e i p w = (Inr resp, w')" using assms(1-3) by (simp add: decide_endpoint_def)
  obtain x r1 where g: "get_approval (c_redis c) (c_fp c) (e_now e) i (w_redis w) = (x, r1)" by fastforce
  show ?thesis
  proof (cases x)
    case (Inl ex)
    then show ?thesis using dp assms(4) g by (auto simp: decide_payload_def decide_approval_def)
  next
    case (Inr ao)
    show ?thesis
    proof (cases "decide_guard (e_now e) ao")
      case refused: (Inl out)
      then have "y = Inr out" "r1 = r" "ms = w_metrics w" using assms(5) g Inr by (simp_all add: decide_approval_def)
      with dp assms(4,5) g Inr refused show ?thesis
        by (auto simp: decide_payload_def decide_guard_def Let_def dest!: respond_status
            split: option.splits if_splits)
    next
      case (Inr a)
      then show ?thesis
        using dp assms(4-6) g \<open>x = Inr ao\<close>
        by (auto simp: decide_payload_def decide_approval_def decide_write_def Let_def split: prod.splits sum.splits)
    qed
  qed
qed

section \<open>The application\<close>

text \<open>
  \<open>passed\<close>: the middlewares let the request through, as \<open>req'\<close> (with its identity attached) and
  into the world \<open>w1\<close> (the limiter's check recorded).
\<close>

definition limiter_check ::
  "('r, 'x) config \<Rightarrow> env \<Rightarrow> Agent_data \<Rightarrow> 'r \<Rightarrow> RateLimitResult \<times> 'r" where
  "limiter_check c e a r =
     check (c_redis c) RATE_LIMIT_WINDOW_SECONDS (c_fr c) (ident_str (agent_id a)) (rate_limit_rpm a)
       (e_limit_now e) (e_limit_uuid e) r"

definition passed ::
  "('r, 'x) config \<Rightarrow> env \<Rightarrow> http_request \<Rightarrow> ('r, 'x) world \<Rightarrow> http_request \<Rightarrow> ('r, 'x) world \<Rightarrow> bool" where
  "passed c e req w req' w1 \<longleftrightarrow>
     (is_public (req_path req) \<and> req' = req \<or>
      (\<exists>k a. \<not> is_public (req_path req) \<and> header req ''x-api-key'' = Some k \<and> API_KEYS k = Some a \<and>
         req' = req\<lparr>req_agent := Some a\<rparr>)) \<and>
     (if req_path req \<in> set RATE_LIMITED_PATHS
      then \<exists>a res. req_agent req' = Some a \<and> limiter_check c e a (w_redis w) = (res, w_redis w1) \<and>
             rl_allowed res \<and> w1 = w\<lparr>w_redis := w_redis w1\<rparr>
      else w1 = w)"

text \<open>Turned away by a middleware: only the limiter's entries, the metrics and the log can change.\<close>

definition turned_away :: "('r, 'x) config \<Rightarrow> env \<Rightarrow> ('r, 'x) world \<Rightarrow> ('r, 'x) world \<Rightarrow> bool" where
  "turned_away c e w w' \<longleftrightarrow>
     w_ext w' = w_ext w \<and> w_db w' = w_db w \<and> w_hub w' = w_hub w \<and> w_slack w' = w_slack w \<and>
     (w_redis w' = w_redis w \<or> (\<exists>a res. limiter_check c e a (w_redis w) = (res, w_redis w')))"

definition logged :: "env \<Rightarrow> http_request \<Rightarrow> http_response result \<Rightarrow> ('r, 'x) world \<Rightarrow> ('r, 'x) world" where
  "logged e req x w =
     (case x of
        Inl _ \<Rightarrow> w
      | Inr resp \<Rightarrow> w\<lparr>w_log := w_log w @ [(req_method req, req_path req, resp_status resp, e_elapsed e)]\<rparr>)"

lemma logged_frame [simp]:
  "w_redis (logged e req x w) = w_redis w" "w_db (logged e req x w) = w_db w"
  "w_hub (logged e req x w) = w_hub w" "w_slack (logged e req x w) = w_slack w"
  "w_ext (logged e req x w) = w_ext w"
  by (simp_all add: logged_def split: sum.split)

lemma log_requests_logged: "log_requests e h req w = (let (x, w1) = h req w in (x, logged e req x w1))"
  by (simp add: log_requests_def logged_def split: prod.split sum.split)

lemma rate_limit_cases:
  assumes "rate_limit c e h req w = (x, w')"
  obtains (unlimited) "req_path req \<notin> set RATE_LIMITED_PATHS" "h req w = (x, w')"
  | (away) "turned_away c e w w'" "w_log w' = w_log w" "req_path req \<in> set RATE_LIMITED_PATHS"
      "x = Inl no_agent \<and> w' = w \<or>
       (\<exists>a res. req_agent req = Some a \<and> limiter_check c e a (w_redis w) = (res, w_redis w') \<and>
          \<not> rl_allowed res \<and> x = Inr (too_many res))"
  | (through) a res r y where "req_path req \<in> set RATE_LIMITED_PATHS" "req_agent req = Some a"
      "limiter_check c e a (w_redis w) = (res, r)" "rl_allowed res" "h req (w\<lparr>w_redis := r\<rparr>) = (y, w')"
      "x = (case y of Inl ex \<Rightarrow> Inl ex | Inr resp \<Rightarrow> Inr (quota_headers res resp))"
proof (cases "req_path req \<in> set RATE_LIMITED_PATHS")
  case False
  with assms show thesis by (intro unlimited) (auto simp: rate_limit_def)
next
  case lim: True
  show thesis
  proof (cases "req_agent req")
    case None
    with assms lim show thesis by (intro away) (auto simp: rate_limit_def turned_away_def)
  next
    case (Some a)
    obtain res r where ck: "limiter_check c e a (w_redis w) = (res, r)" by fastforce
    show thesis
    proof (cases "rl_allowed res")
      case False
      with assms lim Some ck show thesis
        by (intro away) (auto simp: rate_limit_def turned_away_def limiter_check_def Let_def)
    next
      case True
      obtain y w0 where "h req (w\<lparr>w_redis := r\<rparr>) = (y, w0)" by fastforce
      with assms lim Some ck True show thesis
        by (intro through [of a res r y]) (auto simp: rate_limit_def limiter_check_def Let_def
            split: sum.splits)
    qed
  qed
qed

lemma app_cases:
  assumes "app c e fi q oth req w = (x, w')"
  obtains (away) "turned_away c e w w'"
      "x = Inl no_agent \<or> x = Inr unauthorized \<or> (\<exists>res. \<not> rl_allowed res \<and> x = Inr (too_many res))"
      "w_log w' = w_log (logged e req x w)"
  | (inside) req' w1 y w2 where "passed c e req w req' w1" "routes c e fi q oth req' w1 = (y, w2)"
      "w' = logged e req x w2" "\<And>ex. x = Inl ex \<longleftrightarrow> y = Inl ex"
      "\<And>r. y = Inr r \<Longrightarrow> \<exists>r'. x = Inr r' \<and> resp_status r' = resp_status r \<and> resp_body r' = resp_body r"
proof -
  let ?h = "rate_limit c e (routes c e fi q oth)"
  obtain w0 where au: "authenticate ?h req w = (x, w0)" and w': "w' = logged e req x w0"
    using assms by (auto simp: app_def log_requests_logged split: prod.splits)
  have go: thesis
    if rl: "?h req' w = (x, w0)" and p: "req_path req' = req_path req"
      and id: "is_public (req_path req) \<and> req' = req \<or>
      (\<exists>k a. \<not> is_public (req_path req) \<and> header req ''x-api-key'' = Some k \<and> API_KEYS k = Some a \<and>
         req' = req\<lparr>req_agent := Some a\<rparr>)" for req'
    using rl
  proof (cases rule: rate_limit_cases)
    case unlimited
    with id p show thesis by (intro inside [of req' w x w0]) (auto simp: passed_def w')
  next
    case a: away
    then show thesis
      by (intro away) (auto simp: turned_away_def w' logged_def split: sum.splits)
  next
    case (through a res r y)
    then show thesis
      using id p by (intro inside [of req' "w\<lparr>w_redis := r\<rparr>" y w0])
        (auto simp: passed_def w' quota_headers_def split: sum.splits)
  qed
  from au show thesis
  proof (cases rule: authenticate_cases [of req ?h w])
    case public
    with au show thesis by (intro go [of req]) auto
  next
    case rejected
    with au show thesis by (intro away) (auto simp: turned_away_def w')
  next
    case (attached k a)
    with au show thesis by (intro go [of "req\<lparr>req_agent := Some a\<rparr>"]) auto
  qed
qed

end
