(* ===== verification/Gateway_Demo.thy ===== *)
theory Gateway_Demo
  imports Gateway_Cases
begin

text \<open>
  A concrete gateway for the closed instances of the gateway's properties: the in-memory Redis, the
  repository's policy, and tools that count their runs.  Bodies are decoded from single letters.
\<close>

definition demo_tool :: "string \<Rightarrow> nat executor" where
  "demo_tool name args n = (Inr [(''tool'', JStr name)], n + 1)"

definition demo_tools :: "(string \<times> nat executor) list" where
  "demo_tools = map (\<lambda>n. (n, demo_tool n))
     [''get_pod_logs'', ''restart_deployment'', ''exec_into_pod'', ''open_ticket'']"

definition tool_body :: "string \<Rightarrow> dict \<Rightarrow> json" where
  "tool_body name args =
     JObj [(''id'', JInt 1), (''method'', JStr ''tools/call''),
           (''params'', JObj [(''name'', JStr name), (''arguments'', JObj args)])]"

definition demo_args :: dict where
  "demo_args = [(''namespace'', JStr ''prod-web''), (''pod_name'', JStr ''web-1'')]"

definition demo_body :: "string \<Rightarrow> body_reply" where
  "demo_body s =
     (if s = ''g'' then JsonBody (tool_body ''get_pod_logs'' demo_args)
      else if s = ''x'' then JsonBody (tool_body ''exec_into_pod'' demo_args)
      else if s = ''k'' then JsonBody (tool_body ''exec_into_pod'' [(''namespace'', JStr ''kube-system'')])
      else BadJson)"

definition demo_config :: "(fake_redis, nat) config" where
  "demo_config =
     \<lparr>c_redis = FakeRedis, c_tools = demo_tools, c_opa = opa_authz, c_fr = whole_repr, c_fp = whole_read,
      c_jsonb = Some, c_secret = ''s'', c_slack_url = [], c_slack_post = (\<lambda>_. SlackOk),
      c_body = demo_body, c_validate = (\<lambda>_. Inl ''invalid'')\<rparr>"

definition demo_env :: env where
  "demo_env =
     \<lparr>e_now = 100, e_later = 101, e_uuid = ''u1'', e_limit_now = 99, e_limit_uuid = ''l1'',
      e_row_id = ''row1'', e_trace = None, e_txn = Commits, e_duration = 5, e_elapsed = 7\<rparr>"

definition demo_world :: "(fake_redis, nat) world" where
  "demo_world =
     \<lparr>w_redis = empty_fake, w_db = empty_db, w_hub = empty_hub, w_slack = [], w_metrics = [],
      w_log = [], w_ext = 0\<rparr>"

definition demo_request :: "string \<Rightarrow> http_request" where
  "demo_request b =
     \<lparr>req_method = ''POST'', req_path = ''/mcp'', req_headers = [(''x-api-key'', ''test_key'')],
      req_bytes = b, req_agent = None\<rparr>"

definition demo_other :: "(fake_redis, nat) world handler" where
  "demo_other req w = (Inr (JSONResponse (JObj [(''detail'', JStr ''Not Found'')]) 404), w)"

definition demo_query :: "http_request \<Rightarrow> http_response + audit_query" where
  "demo_query req = Inl (JSONResponse JNull 422)"

abbreviation demo_app :: "env \<Rightarrow> (fake_redis, nat) world handler" where
  "demo_app e \<equiv> app demo_config e (\<lambda>_. None) demo_query demo_other"

lemmas demo_defs = demo_config_def demo_env_def demo_world_def demo_request_def demo_body_def
  demo_tools_def demo_args_def tool_body_def

definition demo_agent :: Agent_data where "demo_agent = the (API_KEYS ''test_key'')"

definition demo_ctx :: "string \<Rightarrow> rat \<Rightarrow> ToolCallContext" where
  "demo_ctx tool now = \<lparr>ctx_tool_name = JStr tool, ctx_arguments = demo_args, ctx_agent_id = ''agent01'', ctx_role = ''sre1'', ctx_requested_at = now\<rparr>"

lemma demo_agent_simps [simp]: "API_KEYS ''test_key'' = Some demo_agent" "agent_id demo_agent = IdStr ''agent01''"
  "agent_role demo_agent = ''sre1''" "''get_pod_logs'' \<in> set (allowed_tools demo_agent)" "''exec_into_pod'' \<in> set (allowed_tools demo_agent)"
  "rate_limit_rpm demo_agent = 60"
  by (simp_all add: demo_agent_def API_KEYS_def DEFAULT_RATE_LIMIT_RPM_def)

lemma demo_ctx_simps [simp]: "ctx_tool_name (demo_ctx t now) = JStr t" "ctx_arguments (demo_ctx t now) = demo_args"
  "ctx_agent_id (demo_ctx t now) = ''agent01''" "ctx_role (demo_ctx t now) = ''sre1''"
  by (simp_all add: demo_ctx_def)

lemma demo_intercept: "tool \<noteq> [] \<Longrightarrow> 
  intercept_tool_call (JObj [(''name'', JStr tool), (''arguments'', JObj demo_args)]) demo_agent now = Inr (demo_ctx tool now)"
  by (simp add: intercept_tool_call_Inr demo_ctx_def dict_get_def dict_get_or_def)

lemma demo_environment: "context_environment (demo_ctx tool now) = Inr ''prod''"
  by (simp add: context_environment_def demo_ctx_def infer_environment_str demo_args_def dict_get_def dict_get_or_def)

lemma demo_policy:
  "\<exists>reason. evaluate_policy fr opa_authz (demo_ctx ''get_pod_logs'' now) ms =
     (Inr \<lparr>dec_allow = True, dec_require_approval = False, dec_reason = reason\<rparr>, ms)"
  "\<exists>reason. evaluate_policy fr opa_authz (demo_ctx ''exec_into_pod'' now) ms =
     (Inr \<lparr>dec_allow = True, dec_require_approval = True, dec_reason = reason\<rparr>, ms)"
  by (simp_all add: evaluate_policy_def to_opa_input_def demo_environment opa_authz_def read_result_def
      json_get_or_def dict_get_def dict_get_or_def authz_input_of_def json_text_def demo_args_def
      authz_defs data_roles_def destructive_tools_def always_require_approval_tools_def
      kube_system_blocked_tools_def Let_def)

text \<open>The lemmas below hold for every configuration that shares these parts.\<close>

definition demo_like :: "(fake_redis, nat) config \<Rightarrow> bool" where
  "demo_like c \<longleftrightarrow> c_redis c = FakeRedis \<and> c_fr c = whole_repr \<and> c_body c = demo_body \<and>
     c_tools c = demo_tools \<and> c_opa c = opa_authz"

lemma demo_like_config [simp]: "demo_like demo_config"
  by (simp add: demo_like_def demo_config_def)

lemma demo_check:
  assumes "demo_like c"
  shows "\<exists>res. limiter_check c demo_env demo_agent empty_fake =
   (res, fake_zadd (limit_key ''agent01'') (limit_member whole_repr 99 ''l1'') 99 empty_fake) \<and> rl_allowed res"
  using assms
  by (simp add: demo_like_def limiter_check_def check_def demo_env_def Let_def fake_zremrangebyscore_def
      fake_zcard_def empty_fake_def zset_of_def fake_pipe_execute_def fake_expire_def)

lemma demo_mcp:
  assumes "demo_like c" and "b = ''g'' \<and> tool = ''get_pod_logs'' \<or> b = ''x'' \<and> tool = ''exec_into_pod''"
   and "evaluate_policy whole_repr opa_authz (demo_ctx tool (e_now e)) (w_metrics w) = (Inr d, ms)"
  shows "mcp c e ((demo_request b)\<lparr>req_agent := Some demo_agent\<rparr>) w =
     mcp_decided c e (call_of (JInt 1) (demo_ctx tool (e_now e)) tool) d (w\<lparr>w_metrics := ms\<rparr>)"
proof -
  have t: "tool \<noteq> []" "tool \<in> set (allowed_tools demo_agent)" "tool \<in> fst ` set demo_tools"
    using assms(2) by (auto simp: demo_tools_def)
  have b: "demo_body b = JsonBody (tool_body tool demo_args)" using assms(2) by (auto simp: demo_body_def)
  have c: "c_body c = demo_body" "c_tools c = demo_tools" "c_fr c = whole_repr" "c_opa c = opa_authz"
    using assms(1) by (simp_all add: demo_like_def)
  have r: "req_bytes (demo_request b) = b" by (simp add: demo_request_def)
  show ?thesis
    by (simp add: mcp_def c r b tool_body_def mcp_dispatch_def dict_get_def dict_get_or_def py_or_def
        mcp_call_def demo_intercept t demo_environment known_tool_def assms(3) Let_def call_of_def)
qed

definition demo_limited :: "(fake_redis, nat) world" where
  "demo_limited = demo_world\<lparr>w_redis :=
     fake_zadd (limit_key ''agent01'') (limit_member whole_repr 99 ''l1'') 99 empty_fake\<rparr>"

lemma demo_app_mcp:
  assumes "demo_like c"
  shows "\<exists>res y w2. mcp c demo_env ((demo_request b)\<lparr>req_agent := Some demo_agent\<rparr>) demo_limited = (y, w2) \<and>
     app c demo_env (\<lambda>_. None) demo_query demo_other (demo_request b) demo_world =
       (let x = (case y of Inl ex \<Rightarrow> Inl ex | Inr resp \<Rightarrow> Inr (quota_headers res resp))
        in (x, logged demo_env (demo_request b) x w2))"
proof -
  let ?rest = "routes c demo_env (\<lambda>_. None) demo_query demo_other"
    and ?req = "(demo_request b)\<lparr>req_agent := Some demo_agent\<rparr>"
  obtain res where ck: "limiter_check c demo_env demo_agent empty_fake =
      (res, w_redis demo_limited)" "rl_allowed res"
    using demo_check [OF assms] by (auto simp: demo_limited_def)
  obtain y w2 where m: "mcp c demo_env ?req demo_limited = (y, w2)" by fastforce
  have p: "req_path (demo_request b) = ''/mcp''" "req_method (demo_request b) = ''POST''"
    "header (demo_request b) ''x-api-key'' = Some ''test_key''"
    by (simp_all add: demo_request_def header_def)
  have au: "authenticate h (demo_request b) w = h ?req w" for h :: "(fake_redis, nat) world handler" and w
    by (simp add: authenticate_def p mcp_not_public)
  have "demo_limited = demo_world\<lparr>w_redis := w_redis demo_limited\<rparr>" by (simp add: demo_limited_def)
  moreover have "w_redis demo_world = empty_fake" by (simp add: demo_world_def)
  moreover have "route ''POST'' ''/mcp'' = EpMcp" by (simp add: route_def)
  ultimately have "?rest ?req (demo_world\<lparr>w_redis := w_redis demo_limited\<rparr>) = (y, w2)"
    "check (c_redis c) RATE_LIMIT_WINDOW_SECONDS (c_fr c) ''agent01'' 60 (e_limit_now demo_env)
       (e_limit_uuid demo_env) (w_redis demo_world) = (res, w_redis demo_limited)"
    using m ck(1) by (simp_all add: routes_def p limiter_check_def)
  then have "rate_limit c demo_env ?rest ?req demo_world =
      (case y of Inl ex \<Rightarrow> Inl ex | Inr resp \<Rightarrow> Inr (quota_headers res resp), w2)"
    using ck(2) by (auto simp: rate_limit_def RATE_LIMITED_PATHS_def p split: sum.split)
  then show ?thesis
    using m by (intro exI [of _ res] exI [of _ y] exI [of _ w2])
      (simp add: app_def log_requests_logged au Let_def)
qed

text \<open>The run of \<open>get_pod_logs\<close>: the counter goes up.\<close>

lemma demo_get_runs: "w_ext (snd (demo_app demo_env (demo_request ''g'') demo_world)) = 1"
proof -
  obtain res y w2 where m: "mcp demo_config demo_env ((demo_request ''g'')\<lparr>req_agent := Some demo_agent\<rparr>) demo_limited = (y, w2)"
    and a: "w_ext (snd (demo_app demo_env (demo_request ''g'') demo_world)) = w_ext w2"
    using demo_app_mcp [OF demo_like_config, of "''g''"] by (auto simp: Let_def)
  obtain reason where pol: "evaluate_policy whole_repr opa_authz (demo_ctx ''get_pod_logs'' (e_now demo_env)) (w_metrics demo_limited) =
      (Inr \<lparr>dec_allow = True, dec_require_approval = False, dec_reason = reason\<rparr>, w_metrics demo_limited)"
    using demo_policy(1) by blast
  have "mcp_run demo_config demo_env (call_of (JInt 1) (demo_ctx ''get_pod_logs'' (e_now demo_env)) ''get_pod_logs'')
      \<lparr>dec_allow = True, dec_require_approval = False, dec_reason = reason\<rparr> demo_limited = (y, w2)"
    using m demo_mcp [OF demo_like_config _ pol, of "''g''"] by (simp add: mcp_decided_def)
  then have "w_ext w2 = 1"
    by (rule mcp_run_cases) (simp add: execute_tool_def demo_defs demo_tool_def demo_limited_def)
  with a show ?thesis by simp
qed

text \<open>The call of \<open>get_pod_logs\<close> and the call of \<open>exec_into_pod\<close>, past the middlewares.\<close>

definition demo_inner :: "string \<Rightarrow> http_request" where
  "demo_inner b = (demo_request b)\<lparr>req_agent := Some demo_agent\<rparr>"

lemma demo_judged:
  assumes "evaluate_policy whole_repr (c_opa c) (demo_ctx tool (e_now e)) (w_metrics w) = (Inr d, ms)"
    and "b = ''g'' \<and> tool = ''get_pod_logs'' \<or> b = ''x'' \<and> tool = ''exec_into_pod''"
    and "c_body c = demo_body" "c_tools c = demo_tools" "c_fr c = whole_repr"
  shows "judged c e (demo_inner b) w demo_agent (JInt 1) (demo_ctx tool (e_now e)) tool d ms"
proof -
  have "demo_body b = JsonBody (tool_body tool demo_args)" "tool \<noteq> []"
    "tool \<in> set (allowed_tools demo_agent)" "tool \<in> fst ` set demo_tools"
    using assms(2) by (auto simp: demo_body_def demo_tools_def)
  with assms(1,3-5) show ?thesis
    unfolding judged_def
    by (auto simp: tool_body_def dict_get_def dict_get_or_def demo_inner_def demo_request_def py_or_def
        demo_intercept)
qed

lemma demo_audit_ok:
  assumes "c_jsonb c = Some" "e_txn e = Commits" "e_row_id e \<notin> au_id ` set (db_rows (w_db w))"
  shows "\<exists>w'. audit c e ev w = (Inr (), w')"
proof -
  have "\<exists>row. new_row fr Some i tr ev db = Some row" for fr i tr db
    by (auto simp: new_row_def chained_row_def prev_hash_of_def Let_def simp del: json_dumps.simps split: option.split)
  then obtain row where "new_row (c_fr c) Some (e_row_id e) (e_trace e) ev (w_db w) = Some row" by blast
  then show ?thesis
    using assms by (simp add: audit_def record_tool_call_def insert_event_def Let_def)
qed

lemma demo_get_answered:
  "\<exists>resp w'. mcp demo_config demo_env (demo_inner ''g'') demo_world = (Inr resp, w')"
proof -
  obtain reason where pol: "evaluate_policy whole_repr opa_authz (demo_ctx ''get_pod_logs'' (e_now demo_env)) (w_metrics demo_world) =
      (Inr \<lparr>dec_allow = True, dec_require_approval = False, dec_reason = reason\<rparr>, w_metrics demo_world)"
    using demo_policy(1) by blast
  let ?d = "\<lparr>dec_allow = True, dec_require_approval = False, dec_reason = reason\<rparr>"
  let ?k = "call_of (JInt 1) (demo_ctx ''get_pod_logs'' (e_now demo_env)) ''get_pod_logs''"
  have m: "mcp demo_config demo_env (demo_inner ''g'') demo_world = mcp_run demo_config demo_env ?k ?d demo_world"
    using demo_mcp [OF demo_like_config _ pol, of "''g''"] by (simp add: demo_inner_def mcp_decided_def)
  have ex: "execute_tool demo_tools ''get_pod_logs'' demo_args 0 = (Success [(''tool'', JStr ''get_pod_logs'')], 1)"
    by (simp add: execute_tool_def demo_tools_def demo_tool_def)
  obtain w' where "audit demo_config demo_env (call_event demo_env ?k ''allowed'' (Some reason)
      (Some [(''tool'', JStr ''get_pod_logs'')]) None) (demo_world\<lparr>w_ext := 1\<rparr>) = (Inr (), w')"
    using demo_audit_ok [of demo_config demo_env "demo_world\<lparr>w_ext := 1\<rparr>"]
    by (fastforce simp: demo_config_def demo_env_def demo_world_def empty_db_def)
  then have "mcp_run demo_config demo_env ?k ?d demo_world =
      (respond (rpc_result (JInt 1) (JObj [(''tool'', JStr ''get_pod_logs'')])) 200, w')"
    using ex by (simp add: mcp_run_def audit_then_def demo_config_def demo_world_def)
  moreover have "\<exists>resp. respond (rpc_result (JInt 1) (JObj [(''tool'', JStr ''get_pod_logs'')])) 200 = Inr resp"
    by (simp add: respond_def rpc_result_def)
  ultimately show ?thesis using m by auto
qed

text \<open>A signed callback that approves the stored call of \<open>exec_into_pod\<close>.\<close>

definition demo_signed :: "(fake_redis, nat) config" where
  "demo_signed = demo_config\<lparr>c_validate := \<lambda>_. Inr \<lparr>dr_decision = ''approve'', dr_decided_by = ''alice'', dr_note = None\<rparr>\<rparr>"

definition demo_callback :: http_request where
  "demo_callback =
     \<lparr>req_method = ''POST'', req_path = ''/admin/approvals/u1/decide'',
      req_headers = [(''x-slack-request-timestamp'', ''100''),
        (''x-slack-signature'', slack_signature ''s'' ''100'' ''{}'')],
      req_bytes = ''{}'', req_agent = None\<rparr>"

definition demo_held :: "(fake_redis, nat) world" where
  "demo_held = demo_world\<lparr>w_redis := demo_store demo_approval\<rparr>"

lemma demo_callback_verified:
  "verify_signature (c_secret demo_signed) (e_now demo_env) (header demo_callback ''x-slack-request-timestamp'')
     (req_bytes demo_callback) (header demo_callback ''x-slack-signature'') = Inr True"
proof -
  have "py_int ''100'' = Some 100" "\<not> int_too_large 100" by code_simp+
  then show ?thesis
    unfolding verify_signature_iff
    by (simp add: demo_signed_def demo_config_def demo_env_def demo_callback_def header_def REPLAY_TOLERANCE_SECONDS_def)
qed

lemma demo_decided:
  "\<exists>r ms. decide_approval FakeRedis whole_repr whole_read 100 101 ''u1'' ''approve'' ''alice''
     (demo_store demo_approval) ms0 =
     (Inr (Some (resolve 101 ''approve'' ''alice'' demo_approval), Decided), r, ms)"
  by (simp add: decide_approval_def get_approval_def fake_get_def demo_store_def expired_def
      read_approval_text [OF demo_storable] decide_guard_def decide_write_def fake_set_def Let_def)

lemma demo_callback_answered:
  "\<exists>resp w'. decide_endpoint demo_signed demo_env ''u1'' demo_callback demo_held = (Inr resp, w') \<and> w_ext w' = 1"
proof -
  let ?a = "resolve 101 ''approve'' ''alice'' demo_approval"
    and ?p = "\<lparr>dr_decision = ''approve'', dr_decided_by = ''alice'', dr_note = None\<rparr>"
  have tool: "ap_tool_name ?a = ''exec_into_pod''" "ap_id ?a = ''u1''" "ap_status ?a = ''approved''"
    by (simp_all add: demo_approval_def new_approval_def ap_status_resolve)
  obtain r ms where d: "decide_approval FakeRedis whole_repr whole_read 100 101 ''u1'' ''approve'' ''alice''
     (demo_store demo_approval) [] = (Inr (Some ?a, Decided), r, ms)"
    using demo_decided by blast
  let ?w = "demo_held\<lparr>w_redis := r, w_metrics := ms\<rparr>"
  have t: "ap_tool_name demo_approval = ''exec_into_pod''" using tool(1) by simp
  have ex: "execute_tool demo_tools ''exec_into_pod'' (ap_arguments demo_approval) 0 = (Success [(''tool'', JStr ''exec_into_pod'')], 1)"
    by (simp add: execute_tool_def demo_tools_def demo_tool_def)
  have c: "c_redis demo_signed = FakeRedis" "c_fr demo_signed = whole_repr" "c_fp demo_signed = whole_read"
    "c_tools demo_signed = demo_tools" "c_validate demo_signed = (\<lambda>_. Inr ?p)" "c_jsonb demo_signed = Some"
    by (simp_all add: demo_signed_def demo_config_def)
  have e: "e_now demo_env = 100" "e_later demo_env = 101" "e_txn demo_env = Commits" "e_row_id demo_env = ''row1''"
    by (simp_all add: demo_env_def)
  have w: "w_redis demo_held = demo_store demo_approval" "w_metrics demo_held = []" "w_ext demo_held = 0"
    "db_rows (w_db demo_held) = []"
    by (simp_all add: demo_held_def demo_world_def empty_db_def)
  have "decide_endpoint demo_signed demo_env ''u1'' demo_callback demo_held = decide_approved demo_signed demo_env ?p ?a ?w"
    using demo_callback_verified by (simp add: decide_endpoint_def c decide_payload_def d e w tool)
  moreover have "\<exists>resp w'. decide_approved demo_signed demo_env ?p ?a ?w = (Inr resp, w') \<and> w_ext w' = 1"
  proof -
    let ?ev = "approval_event demo_env ?a ''allowed'' (Some ''approved by alice'') (Some [(''tool'', JStr ''exec_into_pod'')])"
    obtain w1 where a: "audit demo_signed demo_env ?ev (?w\<lparr>w_ext := 1\<rparr>) = (Inr (), w1)"
      using demo_audit_ok [of demo_signed demo_env "?w\<lparr>w_ext := 1\<rparr>" ?ev] by (auto simp: c e w)
    have "w_ext w1 = 1" using audit_frame(5) [OF a] by simp
    then show ?thesis
      using a by (simp add: decide_approved_def t ex c w conclude_def publish_to_def respond_def Let_def)
  qed
  ultimately show ?thesis by simp
qed

end
