(* ===== verification/Gateway_Props.thy ===== *)
theory Gateway_Props
  imports Gateway_Demo
begin

text \<open>
  What one request to the gateway guarantees: complete mediation of the systems behind the tools,
  the audit trail, and what happens when the policy engine, Redis or Postgres fail.
\<close>

section \<open>Routing\<close>

lemma route_EpMcp: "route m p = EpMcp \<longleftrightarrow> m = ''POST'' \<and> p = ''/mcp''"
  by (auto simp: route_def split: option.splits)

lemma route_EpDecide: "route m p = EpDecide i \<Longrightarrow> m = ''POST'' \<and> approval_path ''decide'' p = Some i \<and> p \<noteq> ''/mcp''"
  by (auto simp: route_def split: option.splits if_splits)

lemma passed_frame [frame]:
  assumes "passed c e req w req' w1"
  shows "w_ext w1 = w_ext w" "w_db w1 = w_db w" "w_hub w1 = w_hub w" "w_slack w1 = w_slack w"
    "w_log w1 = w_log w" "w_metrics w1 = w_metrics w"
    "req_method req' = req_method req" "req_path req' = req_path req"
    "req_headers req' = req_headers req" "req_bytes req' = req_bytes req"
  using assms unfolding passed_def
  by (auto split: if_splits) (metis world.select_convs world.update_convs(1) world.surjective)+

lemma passed_mcp:
  assumes "passed c e req w req' w1" "req_path req = ''/mcp''"
  obtains k a where "header req ''x-api-key'' = Some k" "API_KEYS k = Some a" "req_agent req' = Some a"
  using assms mcp_not_public by (auto simp: passed_def)

lemma passed_unlimited: "passed c e req w req' w1 \<Longrightarrow> req_path req \<noteq> ''/mcp'' \<Longrightarrow> w1 = w"
  by (simp add: passed_def RATE_LIMITED_PATHS_def)

lemma header_cong [simp]: "header (req\<lparr>req_agent := a\<rparr>) n = header req n"
  by (simp add: header_def)

lemma passed_header [frame]: "passed c e req w req' w1 \<Longrightarrow> header req' n = header req n"
  by (auto simp: passed_def)

lemma decide_approval_status:
  assumes "decide_approval C fr fp t t' i d b r ms = (Inr (Some a, Decided), r', ms')"
  shows "ap_status a = (if d = ''approve'' then ''approved'' else ''denied'')"
  using assms
  by (auto simp: decide_approval_def decide_write_def decide_guard_def ap_status_resolve Let_def
      split: prod.splits sum.splits option.splits if_splits)

section \<open>Complete mediation\<close>

text \<open>
  \<open>cleared_call\<close>: an agent of the registry called a registered tool it may call, and the policy
  answered \<open>allow\<close> without asking for approval; the tool ran once, with those arguments.
  \<open>cleared_approval\<close>: a signed callback approved a pending approval, and the stored call ran once.
\<close>

definition cleared_call ::
  "('r, 'x) config \<Rightarrow> env \<Rightarrow> http_request \<Rightarrow> ('r, 'x) world \<Rightarrow> ('r, 'x) world \<Rightarrow> bool" where
  "cleared_call c e req w w' \<longleftrightarrow>
     (\<exists>k a body ctx tool d ms.
        req_method req = ''POST'' \<and> req_path req = ''/mcp'' \<and>
        header req ''x-api-key'' = Some k \<and> API_KEYS k = Some a \<and>
        c_body c (req_bytes req) = JsonBody (JObj body) \<and> dict_get body ''method'' = JStr ''tools/call'' \<and>
        intercept_tool_call (py_or (dict_get body ''params'') (JObj [])) a (e_now e) = Inr ctx \<and>
        ctx_tool_name ctx = JStr tool \<and> tool \<in> fst ` set (c_tools c) \<and> tool \<in> set (allowed_tools a) \<and>
        evaluate_policy (c_fr c) (c_opa c) ctx (w_metrics w) = (Inr d, ms) \<and>
        dec_allow d \<and> \<not> dec_require_approval d \<and>
        w_ext w' = snd (execute_tool (c_tools c) tool (ctx_arguments ctx) (w_ext w)))"

definition cleared_approval ::
  "('r, 'x) config \<Rightarrow> env \<Rightarrow> http_request \<Rightarrow> ('r, 'x) world \<Rightarrow> ('r, 'x) world \<Rightarrow> bool" where
  "cleared_approval c e req w w' \<longleftrightarrow>
     (\<exists>i p a ms.
        req_method req = ''POST'' \<and> approval_path ''decide'' (req_path req) = Some i \<and>
        verify_signature (c_secret c) (e_now e) (header req ''x-slack-request-timestamp'')
          (req_bytes req) (header req ''x-slack-signature'') = Inr True \<and>
        c_validate c (req_bytes req) = Inr p \<and> dr_decision p = ''approve'' \<and>
        decide_approval (c_redis c) (c_fr c) (c_fp c) (e_now e) (e_later e) i ''approve''
          (dr_decided_by p) (w_redis w) (w_metrics w) = (Inr (Some a, Decided), w_redis w', ms) \<and>
        w_ext w' = snd (execute_tool (c_tools c) (ap_tool_name a) (ap_arguments a) (w_ext w)))"

lemma mcp_effect:
  assumes "mcp c e req w = (x, w')" "w_ext w' \<noteq> w_ext w"
  obtains a i ctx tool d ms where "judged c e req w a i ctx tool d ms" "dec_allow d" "\<not> dec_require_approval d"
    "w_ext w' = snd (execute_tool (c_tools c) tool (ctx_arguments ctx) (w_ext w))"
  using assms(1)
proof (cases rule: mcp_cases)
  case early
  with assms(2) show thesis by (simp add: only_metrics_frame)
next
  case (decided a i ctx tool d ms)
  let ?w = "w\<lparr>w_metrics := ms\<rparr>"
  have "\<not> dec_require_approval d"
  proof
    assume "dec_require_approval d"
    then have "mcp_hold c e (call_of i ctx tool) d ?w = (x, w')"
      using decided(2) by (simp add: mcp_decided_def)
    then show False by (rule mcp_hold_cases) (use assms(2) in simp)
  qed
  moreover have "dec_allow d"
  proof (rule ccontr)
    assume "\<not> dec_allow d"
    with calculation have "mcp_deny c e (call_of i ctx tool) d ?w = (x, w')"
      using decided(2) by (simp add: mcp_decided_def)
    then show False by (rule mcp_deny_cases) (use assms(2) in simp)
  qed
  ultimately have "mcp_run c e (call_of i ctx tool) d ?w = (x, w')"
    using decided(2) by (simp add: mcp_decided_def)
  then have "w_ext w' = snd (execute_tool (c_tools c) tool (ctx_arguments ctx) (w_ext w))"
    by (rule mcp_run_cases) simp
  with decided(1) \<open>dec_allow d\<close> \<open>\<not> dec_require_approval d\<close> show thesis by (rule that)
qed

lemma external_effect_clearance:
  assumes "app c e fi q oth req w = (x, w')" and "\<forall>r v. w_ext (snd (oth r v)) = w_ext v"
    and "w_ext w' \<noteq> w_ext w"
  shows "cleared_call c e req w w' \<or> cleared_approval c e req w w'"
  using assms(1)
proof (cases rule: app_cases)
  case away
  with assms(3) show ?thesis by (simp add: turned_away_def)
next
  case (inside req' w1 y w2)
  note fr = passed_frame [OF inside(1)] passed_header [OF inside(1)]
  have ext: "w_ext w2 \<noteq> w_ext w1" "w_ext w' = w_ext w2" "w_redis w' = w_redis w2"
    using assms(3) fr(1) by (simp_all add: inside(3))
  show ?thesis
  proof (cases "route (req_method req') (req_path req')")
    case EpMcp
    have m: "mcp c e req' w1 = (y, w2)" using inside(2) by (simp add: routes_def EpMcp)
    have rt: "req_method req = ''POST''" "req_path req = ''/mcp''"
      using EpMcp by (simp_all add: route_EpMcp fr(7,8))
    obtain k b where k: "header req ''x-api-key'' = Some k" "API_KEYS k = Some b" "req_agent req' = Some b"
      using passed_mcp [OF inside(1) rt(2)] .
    from m ext(1) obtain a i ctx tool d ms where j: "judged c e req' w1 a i ctx tool d ms" "dec_allow d"
      "\<not> dec_require_approval d" "w_ext w2 = snd (execute_tool (c_tools c) tool (ctx_arguments ctx) (w_ext w1))"
      by (rule mcp_effect)
    have "a = b" using judged_context(3) [OF j(1)] k(3) by simp
    with j k rt have "cleared_call c e req w w'"
      unfolding cleared_call_def judged_def fr ext(2) by blast
    then show ?thesis ..
  next
    case (EpDecide i)
    have m: "decide_endpoint c e i req' w1 = (y, w2)" using inside(2) by (simp add: routes_def EpDecide)
    have rt: "req_method req = ''POST''" "approval_path ''decide'' (req_path req) = Some i"
      and w1: "w1 = w"
      using route_EpDecide [OF EpDecide] passed_unlimited [OF inside(1)] by (simp_all add: fr(7,8))
    from m show ?thesis
    proof (cases rule: decide_endpoint_cases)
      case refused
      with ext show ?thesis by simp
    next
      case (judged p z ms)
      with ext(1) obtain a where a: "z = Inr (Some a, Decided)" "acted c e a y w1 w2" by auto
      then have nd: "ap_status a \<noteq> ''denied''"
        "w_ext w2 = snd (execute_tool (c_tools c) (ap_tool_name a) (ap_arguments a) (w_ext w1))"
        using ext(1) by (auto simp: acted_def split: if_splits)
      have "dr_decision p = ''approve''"
        using decide_approval_status [OF judged(4) [unfolded a(1)]] nd(1) by (auto split: if_splits)
      with judged rt nd a have "cleared_approval c e req w w'"
        unfolding cleared_approval_def fr ext(2,3) w1 by metis
      then show ?thesis ..
    qed
  next
    case (EpStatus i)
    with inside(2) ext(1) show ?thesis
      by (auto simp: routes_def approval_status_def split: prod.splits sum.splits option.splits)
  next
    case EpAudit
    with inside(2) ext(1) show ?thesis
      by (auto simp: routes_def get_audit_log_def Let_def split: prod.splits sum.splits)
  next
    case EpHealth
    with inside(2) ext(1) show ?thesis by (auto simp: routes_def health_def)
  next
    case EpOther
    with inside(2) have "w2 = snd (oth req' w1)" by (simp add: routes_def)
    with assms(2) ext(1) show ?thesis by simp
  qed
qed


text \<open>
  C1: complete mediation.  Whatever arrives at the gateway, the systems behind the tools change
  only when an authenticated agent calls one of its own tools and the policy allows it without
  approval, or when a Slack callback with a valid signature approves an approval that was still
  pending: and then by exactly one run of that tool with those arguments.  (\<open>oth\<close> answers what
  is not a handler of the program: streams, the framework's pages.)
\<close>

theorem external_effect_needs_clearance:
  assumes "app c e fi q oth req w = (x, w')" and "\<forall>r v. w_ext (snd (oth r v)) = w_ext v"
    and "w_ext w' \<noteq> w_ext w"
  shows "cleared_call c e req w w' \<or> cleared_approval c e req w w'"
  using external_effect_clearance [OF assms] .

lemma demo_other_keeps: "\<forall>r v. w_ext (snd (demo_other r v)) = w_ext v" "\<forall>r v. w_log (snd (demo_other r v)) = w_log v"
  by (simp_all add: demo_other_def)

theorem external_effect_needs_clearance_witness:
  "cleared_call demo_config demo_env (demo_request ''g'') demo_world
     (snd (demo_app demo_env (demo_request ''g'') demo_world)) \<or>
   cleared_approval demo_config demo_env (demo_request ''g'') demo_world
     (snd (demo_app demo_env (demo_request ''g'') demo_world))"
  by (rule external_effect_needs_clearance [OF prod.collapse [symmetric] demo_other_keeps(1)])
    (simp only: demo_get_runs, simp add: demo_world_def)

section \<open>With the repository's policy\<close>

lemma direct_run_within_policy:
  assumes "c_opa c = opa_authz" "app c e fi q oth req w = (x, w')"
    and "\<forall>r v. w_ext (snd (oth r v)) = w_ext v" "req_path req = ''/mcp''" "w_ext w' \<noteq> w_ext w"
  shows "\<exists>k a rc tool args env.
    header req ''x-api-key'' = Some k \<and> API_KEYS k = Some a \<and> data_roles (agent_role a) = Some rc \<and>
    w_ext w' = snd (execute_tool (c_tools c) tool args (w_ext w)) \<and>
    tool \<in> set (allowed_tools a) \<and> tool \<in> set (rc_tools rc) \<and> infer_environment args = Inr env \<and>
    (env = ''unknown'' \<or> env \<in> set (rc_environments rc)) \<and>
    tool \<notin> set always_require_approval_tools \<and> (tool \<notin> set destructive_tools \<or> env \<noteq> ''prod'') \<and>
    (tool \<notin> set kube_system_blocked_tools \<or> dict_get args ''namespace'' \<noteq> JStr ''kube-system'')"
proof -
  have "\<not> cleared_approval c e req w w'"
    using assms(4) by (auto simp: cleared_approval_def approval_path_def)
  then have "cleared_call c e req w w'"
    using external_effect_clearance [OF assms(2,3,5)] by blast
  then obtain k a ctx tool d ms i where k: "header req ''x-api-key'' = Some k" "API_KEYS k = Some a"
    and ctx: "intercept_tool_call i a (e_now e) = Inr ctx" "ctx_tool_name ctx = JStr tool"
    and tool: "tool \<in> set (allowed_tools a)"
    and d: "evaluate_policy (c_fr c) opa_authz ctx (w_metrics w) = (Inr d, ms)" "dec_allow d" "\<not> dec_require_approval d"
    and ext: "w_ext w' = snd (execute_tool (c_tools c) tool (ctx_arguments ctx) (w_ext w))"
    unfolding cleared_call_def assms(1) by blast
  obtain doc where doc: "to_opa_input ctx = Inr doc" "authz_allow (authz_input_of doc)"
    "\<not> authz_require_approval (authz_input_of doc)"
    using rego.ungated_is_not_gated [OF d] by blast
  obtain env where env: "infer_environment (ctx_arguments ctx) = Inr env"
    "authz_input_of doc = \<lparr>in_role = ctx_role ctx, in_tool = ctx_tool_name ctx,
      in_namespace = dict_get (ctx_arguments ctx) ''namespace'', in_environment = env\<rparr>"
    using authz_input_of_context [OF doc(1)] by blast
  have role: "ctx_role ctx = agent_role a" using ctx(1) by (auto simp: intercept_tool_call_Inr)
  note al = doc(2) [unfolded env(2)] and na = doc(3) [unfolded env(2)]
  obtain rc where rc: "data_roles (agent_role a) = Some rc" "tool \<in> set (rc_tools rc)"
    using authz_allow_tool [OF al] by (auto simp: role ctx(2))
  have "env = ''unknown'' \<or> env \<in> set (rc_environments rc)"
    using al rc(1) by (auto simp: authz_allow_def environment_allowed_def role)
  moreover have "tool \<notin> set always_require_approval_tools"
    using authz_always_approval [OF _ _ al] na ctx(2) by auto
  moreover have "tool \<notin> set destructive_tools \<or> env \<noteq> ''prod''"
    using authz_destructive_prod [OF _ _ _ al] na ctx(2) by auto
  moreover have "tool \<notin> set kube_system_blocked_tools \<or> dict_get (ctx_arguments ctx) ''namespace'' \<noteq> JStr ''kube-system''"
    using authz_kube_system [of "authz_input_of doc" tool] doc(2) ctx(2) by (auto simp: env(2))
  ultimately show ?thesis using k rc tool ext env(1) by blast
qed

lemma unknown_environment:
  assumes "infer_environment args = Inr ''unknown''" "dict_get args ''namespace'' = JStr ns"
  shows "list_all (\<lambda>p. \<not> startswith ns p) ENVIRONMENT_PREFIXES"
  using assms by (cases "ns = []")
    (auto simp: infer_environment_def ENVIRONMENT_PREFIXES_def py_or_def startswith_def split: if_splits)

text \<open>
  C4: what the repository's policy lets run without a human.  If OPA serves the repository's
  policy, a request to \<open>/mcp\<close> changes the systems behind the tools only through a tool of the
  agent's role; if the namespace of the call names an environment by its prefix, that environment is
  one of the role's (a call without a namespace, or whose namespace begins with none of
  \<open>prod\<close>, \<open>staging\<close> and \<open>dev\<close>, passes as of unknown environment); never through a tool that
  always needs approval, never through a destructive tool in production, and never through a
  blocked tool in \<open>kube-system\<close>.
\<close>

theorem policy_bounds_direct_runs:
  assumes "c_opa c = opa_authz" "app c e fi q oth req w = (x, w')"
    and "\<forall>r v. w_ext (snd (oth r v)) = w_ext v" "req_path req = ''/mcp''" "w_ext w' \<noteq> w_ext w"
  shows "\<exists>k a rc tool args env.
    header req ''x-api-key'' = Some k \<and> API_KEYS k = Some a \<and> data_roles (agent_role a) = Some rc \<and>
    w_ext w' = snd (execute_tool (c_tools c) tool args (w_ext w)) \<and>
    tool \<in> set (allowed_tools a) \<and> tool \<in> set (rc_tools rc) \<and> infer_environment args = Inr env \<and>
    (env \<in> set (rc_environments rc) \<or> env = ''unknown'' \<and>
       (\<forall>ns. dict_get args ''namespace'' = JStr ns \<longrightarrow> list_all (\<lambda>p. \<not> startswith ns p) ENVIRONMENT_PREFIXES)) \<and>
    tool \<notin> set always_require_approval_tools \<and> (tool \<notin> set destructive_tools \<or> env \<noteq> ''prod'') \<and>
    (tool \<notin> set kube_system_blocked_tools \<or> dict_get args ''namespace'' \<noteq> JStr ''kube-system'')"
  using direct_run_within_policy [OF assms] unknown_environment by blast

theorem policy_bounds_direct_runs_witness:
  "\<exists>k a rc tool args env.
    header (demo_request ''g'') ''x-api-key'' = Some k \<and> API_KEYS k = Some a \<and> data_roles (agent_role a) = Some rc \<and>
    w_ext (snd (demo_app demo_env (demo_request ''g'') demo_world)) =
      snd (execute_tool (c_tools demo_config) tool args (w_ext demo_world)) \<and>
    tool \<in> set (allowed_tools a) \<and> tool \<in> set (rc_tools rc) \<and> infer_environment args = Inr env \<and>
    (env \<in> set (rc_environments rc) \<or> env = ''unknown'' \<and>
       (\<forall>ns. dict_get args ''namespace'' = JStr ns \<longrightarrow> list_all (\<lambda>p. \<not> startswith ns p) ENVIRONMENT_PREFIXES)) \<and>
    tool \<notin> set always_require_approval_tools \<and> (tool \<notin> set destructive_tools \<or> env \<noteq> ''prod'') \<and>
    (tool \<notin> set kube_system_blocked_tools \<or> dict_get args ''namespace'' \<noteq> JStr ''kube-system'')"
  by (rule policy_bounds_direct_runs [OF _ prod.collapse [symmetric] demo_other_keeps(1)])
    (simp add: demo_config_def, simp add: demo_request_def, simp only: demo_get_runs, simp add: demo_world_def)

section \<open>The audit trail of a call\<close>

lemma judged_mcp:
  assumes "judged c e req w a i ctx tool d ms"
  shows "mcp c e req w = mcp_decided c e (call_of i ctx tool) d (w\<lparr>w_metrics := ms\<rparr>)"
proof -
  from assms obtain body where b: "c_body c (req_bytes req) = JsonBody (JObj body)" "i = dict_get body ''id''"
    "dict_get body ''method'' = JStr ''tools/call''" "req_agent req = Some a"
    "intercept_tool_call (py_or (dict_get body ''params'') (JObj [])) a (e_now e) = Inr ctx"
    and t: "ctx_tool_name ctx = JStr tool" "tool \<in> fst ` set (c_tools c)" "tool \<in> set (allowed_tools a)"
    and ev: "evaluate_policy (c_fr c) (c_opa c) ctx (w_metrics w) = (Inr d, ms)"
    by (auto simp: judged_def)
  obtain env where "context_environment ctx = Inr env"
    using ev by (cases "context_environment ctx") (auto simp: evaluate_policy_def to_opa_input_def)
  with b t ev show ?thesis
    by (simp add: mcp_def mcp_dispatch_def mcp_call_def known_tool_def call_of_def)
qed

text \<open>The verdict on a call: the audit status and the HTTP status it must leave.\<close>

definition verdict ::
  "('r, 'x) config \<Rightarrow> PolicyDecision \<Rightarrow> string \<Rightarrow> dict \<Rightarrow> 'x \<Rightarrow> string \<times> int" where
  "verdict c d tool args x =
     (if dec_require_approval d then (''pending_approval'', 202)
      else if \<not> dec_allow d then (''denied'', 403)
      else (let oc = fst (execute_tool (c_tools c) tool args x) in (outcome_label oc, outcome_status oc)))"

text \<open>
  C16: one row per call.  When a call that reached the policy is answered, exactly one audit row
  has been written, with the agent, role and tool of the call, and its status and the HTTP status
  are the ones the verdict prescribes: held, denied, or the outcome of the run.
\<close>

theorem answered_call_audited_once:
  assumes "judged c e req w a i ctx tool d ms" and "mcp c e req w = (Inr resp, w')"
  shows "\<exists>row. db_rows (w_db w') = db_rows (w_db w) @ [row] \<and> au_id row = e_row_id e \<and>
    au_agent_id row = ident_str (agent_id a) \<and> au_role row = agent_role a \<and> au_tool_name row = tool \<and>
    (au_result_status row, resp_status resp) = verdict c d tool (ctx_arguments ctx) (w_ext w)"
proof -
  note k = judged_context [OF assms(1)]
  have dec: "mcp_decided c e (call_of i ctx tool) d (w\<lparr>w_metrics := ms\<rparr>) = (Inr resp, w')"
    using judged_mcp [OF assms(1)] assms(2) by simp
  note ev = event_row_def call_event_def audit_event_def
  show ?thesis
  proof (cases "dec_require_approval d")
    case True
    then have "mcp_hold c e (call_of i ctx tool) d (w\<lparr>w_metrics := ms\<rparr>) = (Inr resp, w')"
      using dec by (simp add: mcp_decided_def)
    then show ?thesis
      by (rule mcp_hold_cases) (use True k in \<open>auto simp: ev verdict_def dest: respond_status [OF sym]\<close>)
  next
    case hold: False
    show ?thesis
    proof (cases "dec_allow d")
      case False
      then have "mcp_deny c e (call_of i ctx tool) d (w\<lparr>w_metrics := ms\<rparr>) = (Inr resp, w')"
        using dec hold by (simp add: mcp_decided_def)
      then show ?thesis
        by (rule mcp_deny_cases) (use False hold k in \<open>auto simp: ev verdict_def\<close>)
    next
      case True
      then have "mcp_run c e (call_of i ctx tool) d (w\<lparr>w_metrics := ms\<rparr>) = (Inr resp, w')"
        using dec hold by (simp add: mcp_decided_def)
      then show ?thesis
        by (rule mcp_run_cases) (use True hold k in \<open>auto simp: verdict_def Let_def\<close>)
    qed
  qed
qed

theorem answered_call_audited_once_witness:
  "\<exists>resp w' d. mcp demo_config demo_env (demo_inner ''g'') demo_world = (Inr resp, w') \<and>
    (\<exists>row. db_rows (w_db w') = db_rows (w_db demo_world) @ [row] \<and> au_id row = e_row_id demo_env \<and>
      au_agent_id row = ident_str (agent_id demo_agent) \<and> au_role row = agent_role demo_agent \<and>
      au_tool_name row = ''get_pod_logs'' \<and>
      (au_result_status row, resp_status resp) =
        verdict demo_config d ''get_pod_logs'' (ctx_arguments (demo_ctx ''get_pod_logs'' (e_now demo_env)))
          (w_ext demo_world))"
proof -
  obtain resp w' where m: "mcp demo_config demo_env (demo_inner ''g'') demo_world = (Inr resp, w')"
    using demo_get_answered by blast
  obtain d where "evaluate_policy whole_repr (c_opa demo_config) (demo_ctx ''get_pod_logs'' (e_now demo_env))
      (w_metrics demo_world) = (Inr d, w_metrics demo_world)"
    using demo_policy(1) by (fastforce simp: demo_config_def)
  then have "judged demo_config demo_env (demo_inner ''g'') demo_world demo_agent (JInt 1)
      (demo_ctx ''get_pod_logs'' (e_now demo_env)) ''get_pod_logs'' d (w_metrics demo_world)"
    by (rule demo_judged) (simp_all add: demo_config_def)
  from answered_call_audited_once [OF this m] m show ?thesis by blast
qed

text \<open>
  C35: a call that runs but cannot be audited.  If the audit transaction does not commit, an
  allowed call has already changed the systems behind the tools, no row records it, and the agent
  gets an exception instead of the result.
\<close>

theorem effect_without_audit:
  assumes "judged c e req w a i ctx tool d ms" "dec_allow d" "\<not> dec_require_approval d"
    and "e_txn e \<noteq> Commits"
  shows "w_ext (snd (mcp c e req w)) = snd (execute_tool (c_tools c) tool (ctx_arguments ctx) (w_ext w)) \<and>
    db_rows (w_db (snd (mcp c e req w))) = db_rows (w_db w) \<and> (\<exists>ex. fst (mcp c e req w) = Inl ex)"
proof -
  obtain x w' where m: "mcp c e req w = (x, w')" by fastforce
  have run: "mcp_run c e (call_of i ctx tool) d (w\<lparr>w_metrics := ms\<rparr>) = (x, w')"
    using m judged_mcp [OF assms(1)] assms(2,3) by (simp add: mcp_decided_def)
  then show ?thesis
    by (rule mcp_run_cases) (use assms(4) m in auto)
qed

theorem effect_without_audit_witness:
  "w_ext (snd (mcp demo_config (demo_env\<lparr>e_txn := RolledBack\<rparr>) (demo_inner ''g'') demo_world)) =
     snd (execute_tool (c_tools demo_config) ''get_pod_logs'' demo_args (w_ext demo_world)) \<and>
   db_rows (w_db (snd (mcp demo_config (demo_env\<lparr>e_txn := RolledBack\<rparr>) (demo_inner ''g'') demo_world))) =
     db_rows (w_db demo_world) \<and>
   (\<exists>ex. fst (mcp demo_config (demo_env\<lparr>e_txn := RolledBack\<rparr>) (demo_inner ''g'') demo_world) = Inl ex)"
proof -
  let ?e = "demo_env\<lparr>e_txn := RolledBack\<rparr>"
  obtain reason where "evaluate_policy whole_repr (c_opa demo_config) (demo_ctx ''get_pod_logs'' (e_now ?e))
      (w_metrics demo_world) = (Inr \<lparr>dec_allow = True, dec_require_approval = False, dec_reason = reason\<rparr>, w_metrics demo_world)"
    using demo_policy(1) by (fastforce simp: demo_config_def)
  then have "judged demo_config ?e (demo_inner ''g'') demo_world demo_agent (JInt 1)
      (demo_ctx ''get_pod_logs'' (e_now ?e)) ''get_pod_logs''
      \<lparr>dec_allow = True, dec_require_approval = False, dec_reason = reason\<rparr> (w_metrics demo_world)"
    by (rule demo_judged) (simp_all add: demo_config_def)
  from effect_without_audit [OF this] show ?thesis by simp
qed

section \<open>Failures\<close>

text \<open>
  C18: the gateway fails closed.  While OPA gives no decoded answer (unreachable, an error status,
  a body that is not JSON), \<open>/mcp\<close> runs nothing, holds nothing and notifies nobody; what it writes
  is at most one audit row, and that row says \<open>denied\<close>.
\<close>

theorem policy_down_fails_closed:
  assumes "\<forall>doc b. c_opa c doc \<noteq> OpaBody b" "mcp c e req w = (x, w')"
  shows "w_ext w' = w_ext w \<and> w_redis w' = w_redis w \<and> w_slack w' = w_slack w \<and> w_hub w' = w_hub w \<and>
    (db_rows (w_db w') = db_rows (w_db w) \<or>
     (\<exists>row. db_rows (w_db w') = db_rows (w_db w) @ [row] \<and> au_result_status row = ''denied''))"
  using assms(2)
proof (cases rule: mcp_cases)
  case early
  then show ?thesis by (simp add: only_metrics_frame)
next
  case (decided a i ctx tool d ms)
  have "\<not> (dec_allow d \<or> dec_require_approval d)"
    using decided(1) assms(1) evaluate_policy_lets_through [of "c_fr c" "c_opa c" ctx "w_metrics w" d ms]
    unfolding judged_def by blast
  then have "mcp_deny c e (call_of i ctx tool) d (w\<lparr>w_metrics := ms\<rparr>) = (x, w')"
    using decided(2) by (simp add: mcp_decided_def)
  then show ?thesis
    by (rule mcp_deny_cases) (auto simp: event_row_def call_event_def audit_event_def)
qed


definition demo_opa_down :: "(fake_redis, nat) config" where
  "demo_opa_down = demo_config\<lparr>c_opa := \<lambda>_. OpaHTTPError ''connection refused''\<rparr>"

theorem policy_down_fails_closed_witness:
  "\<exists>x w'. mcp demo_opa_down demo_env (demo_inner ''g'') demo_world = (x, w') \<and>
    w_ext w' = w_ext demo_world \<and> w_redis w' = w_redis demo_world \<and> w_slack w' = w_slack demo_world \<and>
    w_hub w' = w_hub demo_world \<and>
    (db_rows (w_db w') = db_rows (w_db demo_world) \<or>
     (\<exists>row. db_rows (w_db w') = db_rows (w_db demo_world) @ [row] \<and> au_result_status row = ''denied''))"
proof -
  obtain x w' where m: "mcp demo_opa_down demo_env (demo_inner ''g'') demo_world = (x, w')" by fastforce
  with policy_down_fails_closed [OF _ m] show ?thesis by (simp add: demo_opa_down_def)
qed

section \<open>What the middlewares turn away\<close>

text \<open>The quota of the identity a request carries is used up.\<close>

definition over_quota :: "('r, 'x) config \<Rightarrow> env \<Rightarrow> Agent_data \<Rightarrow> ('r, 'x) world \<Rightarrow> bool" where
  "over_quota c e a w \<longleftrightarrow> \<not> rl_allowed (fst (limiter_check c e a (w_redis w)))"

text \<open>
  C19: authentication and quota come before the handlers.  On a path that is not public (the two
  health checks are, and the paths that begin with \<open>/admin/approvals/\<close> or \<open>/admin/audit\<close>) a request
  without a registered key is answered 401 and changes nothing but the log.  A request of a registered agent to \<open>/mcp\<close>, the one path with a quota,
  that is over the quota is answered 429 with the quota's headers and changes, beside the log, only
  the limiter's entries in Redis and, by one, the counter of refused requests.  In neither case does
  a handler run.
\<close>

theorem turned_away_before_the_handler:
  assumes "app c e fi q oth req w = (x, w')" and "\<not> is_public (req_path req)"
    and "case Option.bind (header req ''x-api-key'') API_KEYS of
           None \<Rightarrow> True | Some a \<Rightarrow> req_path req = ''/mcp'' \<and> over_quota c e a w"
  shows "w_ext w' = w_ext w \<and> w_db w' = w_db w \<and> w_hub w' = w_hub w \<and> w_slack w' = w_slack w \<and>
    (case Option.bind (header req ''x-api-key'') API_KEYS of
       None \<Rightarrow> x = Inr unauthorized \<and> w_redis w' = w_redis w \<and> w_metrics w' = w_metrics w \<and>
         w_log w' = w_log w @ [(req_method req, req_path req, 401, e_elapsed e)]
     | Some a \<Rightarrow> x = Inr (too_many (fst (limiter_check c e a (w_redis w)))) \<and>
         w_redis w' = snd (limiter_check c e a (w_redis w)) \<and>
         w_metrics w' = w_metrics w @ [rate_limit_hits_total (ident_str (agent_id a))] \<and>
         w_log w' = w_log w @ [(req_method req, ''/mcp'', 429, e_elapsed e)])"
proof (cases "Option.bind (header req ''x-api-key'') API_KEYS")
  case None
  then have "authenticate h req w = (Inr unauthorized, w)" for h :: "('a, 'b) world handler"
    using assms(2) by (simp add: authenticate_rejects)
  with assms(1) None show ?thesis
    by (auto simp: app_def log_requests_def unauthorized_def)
next
  case (Some a)
  then obtain k where k: "header req ''x-api-key'' = Some k" "API_KEYS k = Some a"
    by (auto simp: bind_eq_Some_conv)
  let ?res = "limiter_check c e a (w_redis w)"
  have p: "req_path req = ''/mcp''" and full: "\<not> rl_allowed (fst ?res)"
    using assms(3) Some by (simp_all add: over_quota_def)
  have "rate_limit c e h (req\<lparr>req_agent := Some a\<rparr>) w =
      (Inr (too_many (fst ?res)),
       w\<lparr>w_redis := snd ?res, w_metrics := w_metrics w @ [rate_limit_hits_total (ident_str (agent_id a))]\<rparr>)"
    for h :: "('a, 'b) world handler"
    using full by (cases ?res) (simp add: rate_limit_def RATE_LIMITED_PATHS_def p limiter_check_def)
  with assms(1) Some k show ?thesis
    by (auto simp: app_def authenticate_attaches [OF assms(2) k] log_requests_def too_many_def p)
qed

theorem turned_away_before_the_handler_witness:
  "\<exists>x w'. app demo_config demo_env (\<lambda>_. None) demo_query demo_other
       ((demo_request ''g'')\<lparr>req_headers := []\<rparr>) demo_world = (x, w') \<and>
     w_ext w' = 0 \<and> x = Inr unauthorized \<and> w_log w' = [(''POST'', ''/mcp'', 401, 7)]"
proof -
  let ?req = "(demo_request ''g'')\<lparr>req_headers := []\<rparr>"
  obtain x w' where a: "demo_app demo_env ?req demo_world = (x, w')" by fastforce
  have n: "Option.bind (header ?req ''x-api-key'') API_KEYS = None" by (simp add: header_def)
  from turned_away_before_the_handler [OF a] a n show ?thesis
    by (simp add: demo_request_def mcp_not_public demo_world_def demo_env_def)
qed

section \<open>The request log\<close>

lemma mcp_log:
  assumes "mcp c e req w = (x, w')"
  shows "w_log w' = w_log w"
  using assms
proof (cases rule: mcp_cases)
  case early
  then show ?thesis by (simp add: only_metrics_frame)
next
  case (decided a i ctx tool d ms)
  let ?k = "call_of i ctx tool" and ?w = "w\<lparr>w_metrics := ms\<rparr>"
  consider "mcp_hold c e ?k d ?w = (x, w')" | "mcp_deny c e ?k d ?w = (x, w')" | "mcp_run c e ?k d ?w = (x, w')"
    using decided(2) by (auto simp: mcp_decided_def split: if_splits)
  then show ?thesis
  proof cases
    case 1
    then show ?thesis by (rule mcp_hold_cases) simp
  next
    case 2
    then show ?thesis by (rule mcp_deny_cases) simp
  next
    case 3
    then show ?thesis by (rule mcp_run_cases) simp
  qed
qed

lemma decide_endpoint_log:
  assumes "decide_endpoint c e i req w = (x, w')"
  shows "w_log w' = w_log w"
  using assms by (cases rule: decide_endpoint_cases) (auto simp: acted_def)

lemma routes_log:
  assumes "routes c e fi q oth req w = (x, w')" "\<forall>r v. w_log (snd (oth r v)) = w_log v"
  shows "w_log w' = w_log w"
proof (cases "route (req_method req) (req_path req)")
  case EpMcp
  with assms(1) show ?thesis by (intro mcp_log [of c e req w x]) (simp add: routes_def)
next
  case (EpDecide i)
  with assms(1) show ?thesis by (intro decide_endpoint_log [of c e i req w x]) (simp add: routes_def)
next
  case EpOther
  with assms(1) have "w' = snd (oth req w)" by (simp add: routes_def)
  with assms(2) show ?thesis by simp
qed (use assms(1) in \<open>auto simp: routes_def approval_status_def get_audit_log_def health_def Let_def
      split: prod.splits sum.splits option.splits\<close>)

text \<open>
  The request log.  Every answered request, whoever answers it, leaves exactly one line with
  its method, path and status; a request whose handler raises leaves none.
\<close>

theorem one_log_line_per_answer:
  assumes "app c e fi q oth req w = (x, w')" and "\<forall>r v. w_log (snd (oth r v)) = w_log v"
  shows "w_log w' =
    (case x of
       Inl _ \<Rightarrow> w_log w
     | Inr resp \<Rightarrow> w_log w @ [(req_method req, req_path req, resp_status resp, e_elapsed e)])"
  using assms(1)
proof (cases rule: app_cases)
  case away
  then show ?thesis by (simp add: logged_def split: sum.split)
next
  case (inside req' w1 y w2)
  have "w_log w2 = w_log w"
    using routes_log [OF inside(2) assms(2)] passed_frame [OF inside(1)] by simp
  then show ?thesis by (simp add: inside(3) logged_def split: sum.split)
qed

theorem one_log_line_per_answer_witness:
  "w_log (snd (demo_app demo_env (demo_request ''x'') demo_world)) =
    (case fst (demo_app demo_env (demo_request ''x'') demo_world) of
       Inl _ \<Rightarrow> w_log demo_world
     | Inr resp \<Rightarrow> w_log demo_world @ [(req_method (demo_request ''x''), req_path (demo_request ''x''),
         resp_status resp, e_elapsed demo_env)])"
  by (rule one_log_line_per_answer [OF prod.collapse [symmetric] demo_other_keeps(2)])

section \<open>The decision callback\<close>

text \<open>
  C20: what a callback does.  A callback that is answered did one of three things.  Without a good
  signature and a valid body it is answered 400 or 401 and nothing at all has changed.  If there is
  no open approval to decide, it has only read: 409 for one that was decided before, 410 for one that
  is not there or past its deadline, and nothing but the Redis client has moved on.  Otherwise it
  decided a pending approval: a denial runs nothing, an approval runs the stored call once; one audit
  row names the approval and its agent; and the agent's open streams, and no others, get one event
  that names it.
\<close>

theorem callback_effects:
  assumes "decide_endpoint c e i req w = (Inr resp, w')"
  shows "w' = w \<and> resp_status resp \<in> {400, 401} \<and>
      (\<nexists>p. verify_signature (c_secret c) (e_now e) (header req ''x-slack-request-timestamp'')
         (req_bytes req) (header req ''x-slack-signature'') = Inr True \<and>
         c_validate c (req_bytes req) = Inr p \<and> dr_decision p \<in> {''approve'', ''deny''}) \<or>
    (\<exists>ao r. get_approval (c_redis c) (c_fp c) (e_now e) i (w_redis w) = (Inr ao, r) \<and> w' = w\<lparr>w_redis := r\<rparr> \<and>
       (case ao of None \<Rightarrow> resp_status resp = 410
        | Some a \<Rightarrow> if ap_status a \<noteq> ''pending'' then resp_status resp = 409
                   else ap_expires_at a < e_now e \<and> resp_status resp = 410)) \<or>
    (\<exists>p a ms row ev.
       verify_signature (c_secret c) (e_now e) (header req ''x-slack-request-timestamp'')
         (req_bytes req) (header req ''x-slack-signature'') = Inr True \<and>
       c_validate c (req_bytes req) = Inr p \<and>
       decide_approval (c_redis c) (c_fr c) (c_fp c) (e_now e) (e_later e) i (dr_decision p)
         (dr_decided_by p) (w_redis w) (w_metrics w) = (Inr (Some a, Decided), w_redis w', ms) \<and>
       w_ext w' =
         (if dr_decision p = ''approve''
          then snd (execute_tool (c_tools c) (ap_tool_name a) (ap_arguments a) (w_ext w)) else w_ext w) \<and>
       db_rows (w_db w') = db_rows (w_db w) @ [row] \<and> au_agent_id row = ap_agent_id a \<and>
       au_tool_name row = ap_tool_name a \<and> au_approval_id row = Some (ap_id a) \<and>
       au_result_status row =
         (if dr_decision p = ''approve''
          then outcome_label (fst (execute_tool (c_tools c) (ap_tool_name a) (ap_arguments a) (w_ext w)))
          else ''approval_denied'') \<and>
       w_hub w' = publish (ap_agent_id a) ev (w_hub w) \<and>
       map_of ev ''approval_id'' = Some (JStr (ap_id a)) \<and> resp_status resp = 200)"
  using assms
proof (cases rule: decide_endpoint_cases)
  case refused
  then have "resp_status resp \<in> {400, 401}"
    using assms by (auto simp: decide_endpoint_def decide_payload_def dest: respond_status
        split: sum.splits bool.splits if_splits)
  with refused show ?thesis by simp
next
  case (judged p y ms)
  show ?thesis
  proof (cases "\<exists>a. y = Inr (Some a, Decided) \<and> acted c e a (Inr resp) w w'")
    case True
    then obtain a where y: "y = Inr (Some a, Decided)" and a: "acted c e a (Inr resp) w w'" by blast
    have st: "ap_status a = ''denied'' \<longleftrightarrow> dr_decision p \<noteq> ''approve''"
      using decide_approval_status [OF judged(4) [unfolded y]] by (simp split: if_splits)
    from a obtain row ev where r: "db_rows (w_db w') = db_rows (w_db w) @ [row]"
      "w_hub w' = publish (ap_agent_id a) ev (w_hub w)" "map_of ev ''approval_id'' = Some (JStr (ap_id a))"
      "au_agent_id row = ap_agent_id a" "au_tool_name row = ap_tool_name a" "au_approval_id row = Some (ap_id a)"
      "au_result_status row = (if ap_status a = ''denied'' then ''approval_denied''
         else outcome_label (fst (execute_tool (c_tools c) (ap_tool_name a) (ap_arguments a) (w_ext w))))"
      "resp_status resp = 200"
      unfolding acted_def by (auto dest: respond_status [OF sym])
    have "w_ext w' = (if dr_decision p = ''approve''
          then snd (execute_tool (c_tools c) (ap_tool_name a) (ap_arguments a) (w_ext w)) else w_ext w)"
      using a st by (auto simp: acted_def)
    with r judged(1,2,4) y st show ?thesis
      by (intro disjI2 exI [of _ p] exI [of _ a] exI [of _ ms] exI [of _ row] exI [of _ ev]) simp
  next
    case False
    with judged(5) have "\<forall>a. y \<noteq> Inr (a, Decided)" by blast
    from undecided_endpoint [OF assms judged(1-4) this] show ?thesis by blast
  qed
qed

theorem callback_effects_witness:
  "\<exists>resp w' row. decide_endpoint demo_signed demo_env ''u1'' demo_callback demo_held = (Inr resp, w') \<and>
     w_ext w' = 1 \<and> db_rows (w_db w') = [row] \<and> au_approval_id row = Some ''u1'' \<and> resp_status resp = 200"
proof -
  obtain resp w' where d: "decide_endpoint demo_signed demo_env ''u1'' demo_callback demo_held = (Inr resp, w')"
    and ext: "w_ext w' = 1"
    using demo_callback_answered by blast
  have h: "w_ext demo_held = 0" "db_rows (w_db demo_held) = []"
    by (simp_all add: demo_held_def demo_world_def empty_db_def)
  have dec: "\<exists>r ms. decide_approval (c_redis demo_signed) (c_fr demo_signed) (c_fp demo_signed) (e_now demo_env)
      (e_later demo_env) ''u1'' ''approve'' ''alice'' (w_redis demo_held) ms0 =
      (Inr (Some (resolve 101 ''approve'' ''alice'' demo_approval), Decided), r, ms)" for ms0
    using demo_decided by (simp add: demo_signed_def demo_config_def demo_env_def demo_held_def)
  have v: "c_validate demo_signed b = Inr p \<longleftrightarrow> p = \<lparr>dr_decision = ''approve'', dr_decided_by = ''alice'', dr_note = None\<rparr>"
    for b p by (auto simp: demo_signed_def)
  have quiet: "w' \<noteq> demo_held" "w' \<noteq> demo_held\<lparr>w_redis := r\<rparr>" for r using ext h(1) by auto
  from callback_effects [OF d] quiet obtain p a ms row where
    "c_validate demo_signed (req_bytes demo_callback) = Inr p"
    "decide_approval (c_redis demo_signed) (c_fr demo_signed) (c_fp demo_signed) (e_now demo_env) (e_later demo_env)
       ''u1'' (dr_decision p) (dr_decided_by p) (w_redis demo_held) (w_metrics demo_held) =
       (Inr (Some a, Decided), w_redis w', ms)"
    "db_rows (w_db w') = db_rows (w_db demo_held) @ [row]" "au_approval_id row = Some (ap_id a)" "resp_status resp = 200"
    by auto
  with d ext h(2) dec [of "w_metrics demo_held"] show ?thesis by (auto simp: v)
qed

end
