(* ===== verification/Redis_Shared.thy ===== *)
theory Redis_Shared
  imports Rate_Limit Approvals
begin

text \<open>
  One Redis behind the limiter and the approval store.  The gateway hands the same client to both,
  so their guarantees meet only if the operations on one key leave the other keys alone: the
  locale \<open>redis_shared\<close> joins the two contracts and adds that, and the in-memory client is shown
  to keep it.
\<close>

definition same_off ::
  "string \<Rightarrow> ('r \<Rightarrow> rat \<Rightarrow> string \<Rightarrow> 'e) \<Rightarrow> rat \<Rightarrow> 'r \<Rightarrow> 'r \<Rightarrow> bool" where
  "same_off k view t r r' \<longleftrightarrow> (\<forall>t' \<ge> t. \<forall>k'. k' \<noteq> k \<longrightarrow> view r' t' k' = view r t' k')"

lemma same_off_refl [simp, intro]: "same_off k view t r r"
  by (simp add: same_off_def)

lemma same_off_trans: "same_off k view t r s \<Longrightarrow> same_off k view t s u \<Longrightarrow> same_off k view t r u"
  by (simp add: same_off_def)

lemma keys_apart [simp]:
  "limit_key g \<noteq> approval_key i" "approval_key i \<noteq> limit_key g"
  by (simp_all add: limit_key_def approval_key_def)

locale redis_shared = redis_zset C ents invar + redis_kv C val invar
  for C :: "'r redis_client" and ents and val and invar +
  assumes zrem_off: "invar r \<Longrightarrow> zremrangebyscore C k lo hi t r = (x1, r') \<Longrightarrow> same_off k val t r r'"
    and zcard_off: "invar r \<Longrightarrow> zcard C k t r = (x2, r') \<Longrightarrow> same_off k val t r r'"
    and zrange_off: "invar r \<Longrightarrow> zrange_withscores C k 0 0 t r = (x3, r') \<Longrightarrow> same_off k val t r r'"
    and zadd_off: "invar r \<Longrightarrow> pipe_execute C [PipeZadd k m s, PipeExpire k secs] t r = (x4, r') \<Longrightarrow>
      same_off k val t r r'"
    and set_ex_off: "invar r \<Longrightarrow> set_ex C k v secs t r = (x5, r') \<Longrightarrow> same_off k ents t r r'"
    and set_keepttl_off: "invar r \<Longrightarrow> set_keepttl C k v t r = (x6, r') \<Longrightarrow> same_off k ents t r r'"
    and get_off: "invar r \<Longrightarrow> redis_get C k t r = (x7, r') \<Longrightarrow> same_off k ents t r r'"
begin

lemma check_off:
  assumes "invar r" "0 < w" "check C w fr g l t u r = (res, r')"
  shows "same_off (limit_key g) val t r r'" "invar r'"
proof -
  let ?k = "limit_key g"
  obtain x1 r1 where 1: "zremrangebyscore C ?k 0 (t - of_int w) t r = (x1, r1)" by fastforce
  obtain x2 r2 where 2: "zcard C ?k t r1 = (x2, r2)" by fastforce
  obtain x3 r3 where 3: "zrange_withscores C ?k 0 0 t r2 = (x3, r3)" by fastforce
  obtain x4 r4 where 4: "pipe_execute C [PipeZadd ?k (limit_member fr t u) t, PipeExpire ?k w] t r2 = (x4, r4)"
    by fastforce
  have i1: "invar r1" using zrem [OF assms(1) 1] by simp
  have i2: "invar r2" using zcard [OF i1 2] by simp
  have "invar r3" "invar r4" using zrange_first [OF i2 3] zadd_expire [OF i2 assms(2) 4] by auto
  note inv = i1 i2 this
  have s1: "same_off ?k val t r r1" by (rule zrem_off [OF assms(1) 1])
  have s2: "same_off ?k val t r r2" by (rule same_off_trans [OF s1 zcard_off [OF i1 2]])
  have s3: "same_off ?k val t r r3" by (rule same_off_trans [OF s2 zrange_off [OF i2 3]])
  have s4: "same_off ?k val t r r4" by (rule same_off_trans [OF s2 zadd_off [OF i2 4]])
  have "r' \<in> {r1, r2, r3, r4}"
    using assms(3) by (auto simp: check_def Let_def 1 2 3 4 split: sum.splits if_splits)
  with s1 s2 s3 s4 inv show "same_off ?k val t r r'" "invar r'" by auto
qed

text \<open>So a check of the limiter is invisible to the approval store.\<close>

lemma check_keeps_entries:
  assumes "invar r" "0 < w" "check C w fr g l t u r = (res, r')" "entries_ok val fr' fp h t r"
  shows "entries_ok val fr' fp h t r'"
  using check_off(1) [OF assms(1-3)] assms(4) by (simp add: entries_ok_def same_off_def)

text \<open>And an operation of the approval store is invisible to the limiter.\<close>

lemma get_approval_off:
  assumes "invar r" "get_approval C fp t i r = (x, r')"
  shows "same_off (approval_key i) ents t r r'"
proof -
  obtain y r1 where "redis_get C (approval_key i) t r = (y, r1)" by fastforce
  then show ?thesis
    using get_off [OF assms(1)] assms(2)
    by (auto simp: get_approval_def split: sum.splits option.splits)
qed

lemma create_off:
  assumes "invar r" "create_pending_approval C fr t i ag ro to ar re r ms = (x, r', ms')"
  shows "same_off (approval_key i) ents t r r'"
proof -
  let ?a = "new_approval t i ag ro to ar re"
  obtain y r1 where s: "set_ex C (approval_key (ap_id ?a)) (approval_text fr ?a) APPROVAL_TTL_SECONDS t r = (y, r1)"
    by fastforce
  have "ap_id ?a = i" by (simp add: new_approval_def)
  with set_ex_off [OF assms(1) s] s assms(2) show ?thesis
    by (auto simp: create_pending_approval_def Let_def split: sum.splits)
qed

lemma decide_off:
  assumes "invar r" "t \<le> t'" "decide_approval C fr fp t t' i d b r ms = (x, r', ms')"
  shows "same_off (approval_key i) ents t' r r'"
proof -
  obtain g r1 where get: "get_approval C fp t i r = (g, r1)" by fastforce
  have "same_off (approval_key i) ents t r r1" and inv: "invar r1"
    using get_approval_off [OF assms(1) get] get_approval_spec [OF assms(1) get] by auto
  then have s1: "same_off (approval_key i) ents t' r r1"
    using assms(2) by (auto simp: same_off_def)
  have "r' = r1 \<or> (\<exists>v y. set_keepttl C (approval_key i) v t' r1 = (y, r'))"
    using assms(3) get
    by (auto simp: decide_approval_def decide_write_def Let_def split: sum.splits prod.splits)
  then show ?thesis
  proof (elim disjE exE)
    fix v y
    assume "set_keepttl C (approval_key i) v t' r1 = (y, r')"
    from same_off_trans [OF s1 set_keepttl_off [OF inv this]] show ?thesis .
  qed (simp add: s1)
qed

end

interpretation fake_shared: redis_shared FakeRedis fake_ents fake_val fake_invar
proof unfold_locales
  fix r :: fake_redis and t t' k v
  assume "t \<le> t'" "fake_val r t' k = Some v"
  then show "fake_val r t k = Some v" by (rule fake_kv.val_shrink [OF TrueI])
qed (auto simp: fake_val_def expired_def same_from_def same_off_def fake_get_def fake_set_def Let_def fake_ents_def
      fake_zremrangebyscore_def fake_zcard_def fake_zrange_def fake_pipe_execute_def fake_zadd_def fake_expire_def
      fake_invar_def zset_of_def
      split: option.splits if_splits prod.splits)

end
