(* ===== verification/Gateway_Run.thy ===== *)
theory Gateway_Run
  imports Gateway_Props Redis_Shared
begin

text \<open>
  Runs of the whole application: requests one after the other through the middleware stack, over
  one Redis.  A step is a request with its environment, the world before, the answer and the world
  after.  The proofs project each step to at most one limiter check and at most one operation of
  the approval store, and carry the invariants of both along the run.
\<close>

section \<open>Runs\<close>

record ('r, 'x) app_step =
  st_env :: env
  st_req :: http_request
  st_before :: "('r, 'x) world"
  st_answer :: "http_response result"
  st_after :: "('r, 'x) world"

fun run_app ::
  "('r, 'x) config \<Rightarrow> (string \<Rightarrow> int option) \<Rightarrow> (http_request \<Rightarrow> http_response + audit_query)
     \<Rightarrow> ('r, 'x) world handler \<Rightarrow> (env \<times> http_request) list \<Rightarrow> ('r, 'x) world \<Rightarrow> ('r, 'x) app_step list" where
  "run_app c fi q oth [] w = []"
| "run_app c fi q oth ((e, req) # rs) w =
     (let (x, w') = app c e fi q oth req w in
      \<lparr>st_env = e, st_req = req, st_before = w, st_answer = x, st_after = w'\<rparr> # run_app c fi q oth rs w')"

text \<open>The clocks of the requests follow one another.\<close>

fun clocks_ok :: "rat \<Rightarrow> (env \<times> http_request) list \<Rightarrow> bool" where
  "clocks_ok t0 [] = True"
| "clocks_ok t0 ((e, _) # rs) \<longleftrightarrow>
     t0 \<le> e_limit_now e \<and> e_limit_now e \<le> e_now e \<and> e_now e \<le> e_later e \<and> clocks_ok (e_later e) rs"

text \<open>What a request may write to the approval store reads back.\<close>

definition request_storable :: "('r, 'x) config \<Rightarrow> env \<times> http_request \<Rightarrow> bool" where
  "request_storable c er \<longleftrightarrow>
     (case c_body c (req_bytes (snd er)) of JsonBody v \<Rightarrow> dumpable (c_fr c) (c_fp c) v | _ \<Rightarrow> True) \<and>
     dumpable (c_fr c) (c_fp c) (JFloat (Fin (e_now (fst er)))) \<and>
     dumpable (c_fr c) (c_fp c) (JFloat (Fin (e_now (fst er) + of_int APPROVAL_TTL_SECONDS))) \<and>
     dumpable (c_fr c) (c_fp c) (JFloat (Fin (e_later (fst er))))"

text \<open>
  A step of the run that was held for approval: the policy asked for approval of this agent's call
  of this tool with these arguments.
\<close>

definition held_call :: "('r, 'x) config \<Rightarrow> ('r, 'x) app_step \<Rightarrow> string \<Rightarrow> string \<Rightarrow> dict \<Rightarrow> bool" where
  "held_call c s agent tool args \<longleftrightarrow>
     (\<exists>k a i ctx d ms.
        header (st_req s) ''x-api-key'' = Some k \<and> API_KEYS k = Some a \<and>
        judged c (st_env s) ((st_req s)\<lparr>req_agent := Some a\<rparr>) (st_before s) a i ctx tool d ms \<and>
        dec_require_approval d \<and> agent = ctx_agent_id ctx \<and> args = ctx_arguments ctx)"

definition approves :: "('r, 'x) config \<Rightarrow> string \<Rightarrow> ('r, 'x) app_step \<Rightarrow> bool" where
  "approves c i s \<longleftrightarrow>
     approval_path ''decide'' (req_path (st_req s)) = Some i \<and>
     cleared_approval c (st_env s) (st_req s) (st_before s) (st_after s)"

section \<open>A step as an operation of the store\<close>

definition store_event_of :: "env \<Rightarrow> store_op \<Rightarrow> store_event" where
  "store_event_of e opn = (e_now e, e_later e, opn)"

text \<open>The operation goes with the step: a creation is a held call, an approval a decision.\<close>

definition matches :: "('r, 'x) config \<Rightarrow> ('r, 'x) app_step \<Rightarrow> store_op \<Rightarrow> store_res \<Rightarrow> bool" where
  "matches c s opn res \<longleftrightarrow>
     (\<forall>i ag ro to ar re. opn = CreateOp i ag ro to ar re \<longrightarrow>
        i = e_uuid (st_env s) \<and> held_call c s ag to ar \<and>
        (request_storable c (st_env s, st_req s) \<longrightarrow> dumpable (c_fr c) (c_fp c) (JObj ar))) \<and>
     (\<forall>i. approves c i s \<longrightarrow>
        (\<exists>b a. opn = DecideOp i ''approve'' b \<and> res = Resolved (Inr (Some a, Decided)) \<and>
           w_ext (st_after s) =
             snd (execute_tool (c_tools c) (ap_tool_name a) (ap_arguments a) (w_ext (st_before s)))))"

definition limiter_ran :: "('r, 'x) config \<Rightarrow> env \<Rightarrow> 'r \<Rightarrow> 'r \<Rightarrow> bool" where
  "limiter_ran c e r r1 \<longleftrightarrow> r1 = r \<or> (\<exists>a res. limiter_check c e a r = (res, r1))"

lemma dumpable_lookup:
  assumes "dumpable fr fp (JObj d)"
  shows "dumpable fr fp (dict_get d k)"
  using assms by (auto simp: dict_get_def dict_get_or_def dest!: map_of_SomeD split: option.split)

lemma intercepted_args_dumpable:
  assumes "intercept_tool_call (py_or (dict_get body ''params'') (JObj [])) a t = Inr ctx"
    and "dumpable fr fp (JObj body)"
  shows "dumpable fr fp (JObj (ctx_arguments ctx))"
proof -
  have "dumpable fr fp (py_or (dict_get body ''params'') (JObj []))"
    using assms(2) dumpable_lookup by (auto simp: py_or_def)
  moreover obtain p where "py_or (dict_get body ''params'') (JObj []) = JObj p"
    "dict_get p ''arguments'' = JObj (ctx_arguments ctx) \<or> ctx_arguments ctx = []"
    using assms(1) by (auto simp: intercept_tool_call_Inr)
  ultimately show ?thesis
    using dumpable_lookup [of fr fp p "''arguments''"] by (auto simp del: dumpable.simps)
      (simp add: dumpable.simps)
qed

lemma judged_args_dumpable:
  assumes "judged c e req w a i ctx tool d ms" "request_storable c (e, req)"
  shows "dumpable (c_fr c) (c_fp c) (JObj (ctx_arguments ctx))"
proof -
  obtain body where b: "c_body c (req_bytes req) = JsonBody (JObj body)"
    "intercept_tool_call (py_or (dict_get body ''params'') (JObj [])) a (e_now e) = Inr ctx"
    using assms(1) by (auto simp: judged_def)
  then have "dumpable (c_fr c) (c_fp c) (JObj body)" using assms(2) by (simp add: request_storable_def)
  with b(2) show ?thesis by (rule intercepted_args_dumpable)
qed

lemma judged_cong:
  "w_metrics w1 = w_metrics w \<Longrightarrow> judged c e req w1 a i ctx tool d ms \<longleftrightarrow> judged c e req w a i ctx tool d ms"
  by (simp add: judged_def)


text \<open>The callback path is public and not limited.\<close>

lemma approval_path_public:
  assumes "approval_path act p = Some i"
  shows "is_public p" "p \<noteq> ''/mcp''"
proof -
  have "split_on (CHR ''/'') p = [[], ''admin'', ''approvals'', i, act]"
    using assms by (auto simp: approval_path_def split: list.splits if_splits)
  then have p: "p = ''/admin/approvals/'' @ i @ ''/'' @ act"
    using join_split_on [of "CHR ''/''" p] by simp
  then show "is_public p" by (simp add: is_public_def PUBLIC_PATH_PREFIXES_def startswith_def)
  show "p \<noteq> ''/mcp''" by (simp add: p)
qed

lemma approves_inside:
  assumes "approves c i \<lparr>st_env = e, st_req = req, st_before = w, st_answer = x, st_after = w'\<rparr>"
    and "app c e fi q oth req w = (x, w')"
  shows "\<exists>w2. decide_endpoint c e i req w = (x, w2) \<and> w' = logged e req x w2"
proof -
  have p: "req_method req = ''POST''" "approval_path ''decide'' (req_path req) = Some i"
    using assms(1) by (auto simp: approves_def cleared_approval_def)
  note pub = approval_path_public [OF p(2)]
  have "route ''POST'' (req_path req) = EpDecide i" using p(2) pub(2) by (simp add: route_def)
  then show ?thesis
    using assms(2) pub p(1)
    by (auto simp: app_def log_requests_logged authenticate_def rate_limit_def RATE_LIMITED_PATHS_def routes_def
        split: prod.splits)
qed

lemma decide_projects:
  assumes "decide_endpoint c e i req w = (x, w2)"
  obtains (quiet) "w_redis w2 = w_redis w"
      "\<And>w'. w_redis w' = w_redis w2 \<Longrightarrow> \<not> cleared_approval c e req w w' \<or> approval_path ''decide'' (req_path req) \<noteq> Some i"
  | (stored) p :: ApprovalDecisionRequest and y ms where
      "store_step (c_redis c) (c_fr c) (c_fp c) (store_event_of e (DecideOp i (dr_decision p) (dr_decided_by p)))
         (w_redis w) (w_metrics w) = (Resolved y, w_redis w2, ms)"
      "\<And>w' j. w_redis w' = w_redis w2 \<Longrightarrow> w_ext w' = w_ext w2 \<Longrightarrow> approval_path ''decide'' (req_path req) = Some j \<Longrightarrow>
         cleared_approval c e req w w' \<Longrightarrow> j = i \<Longrightarrow>
         dr_decision p = ''approve'' \<and> (\<exists>a. y = Inr (Some a, Decided) \<and>
           w_ext w' = snd (execute_tool (c_tools c) (ap_tool_name a) (ap_arguments a) (w_ext w)))"
  using assms
proof (cases rule: decide_endpoint_cases)
  case refused
  then show thesis by (intro quiet) (auto simp: cleared_approval_def)
next
  case (judged p y ms)
  show thesis
  proof (rule stored [of p y ms])
    show "store_step (c_redis c) (c_fr c) (c_fp c) (store_event_of e (DecideOp i (dr_decision p) (dr_decided_by p)))
         (w_redis w) (w_metrics w) = (Resolved y, w_redis w2, ms)"
      using judged(4) by (simp add: store_event_of_def)
  next
    fix w' j
    assume "cleared_approval c e req w w'" and j: "approval_path ''decide'' (req_path req) = Some j" "j = i"
    then obtain p' a ms' where a: "c_validate c (req_bytes req) = Inr p'" "dr_decision p' = ''approve''"
      "decide_approval (c_redis c) (c_fr c) (c_fp c) (e_now e) (e_later e) i ''approve''
          (dr_decided_by p') (w_redis w) (w_metrics w) = (Inr (Some a, Decided), w_redis w', ms')"
      "w_ext w' = snd (execute_tool (c_tools c) (ap_tool_name a) (ap_arguments a) (w_ext w))"
      unfolding cleared_approval_def by auto
    moreover have "p' = p" using a(1) judged(2) by simp
    ultimately show "dr_decision p = ''approve'' \<and> (\<exists>a. y = Inr (Some a, Decided) \<and>
           w_ext w' = snd (execute_tool (c_tools c) (ap_tool_name a) (ap_arguments a) (w_ext w)))"
      using judged(4) by auto
  qed
qed

lemma mcp_projects:
  assumes "mcp c e req w = (x, w2)"
  obtains (quiet) "w_redis w2 = w_redis w"
  | (stored) a i ctx tool d ms y ms' where "judged c e req w a i ctx tool d ms" "dec_require_approval d"
      "store_step (c_redis c) (c_fr c) (c_fp c) (store_event_of e
         (CreateOp (e_uuid e) (ctx_agent_id ctx) (ctx_role ctx) tool (ctx_arguments ctx) (dec_reason d)))
         (w_redis w) ms = (Created y, w_redis w2, ms')"
  using assms
proof (cases rule: mcp_cases)
  case early
  then show thesis by (intro quiet) (simp add: only_metrics_frame)
next
  case (decided a i ctx tool d ms)
  let ?k = "call_of i ctx tool" and ?w = "w\<lparr>w_metrics := ms\<rparr>"
  show thesis
  proof (cases "dec_require_approval d")
    case True
    then have "mcp_hold c e ?k d ?w = (x, w2)" using decided(2) by (simp add: mcp_decided_def)
    then obtain y ms' where "create_pending_approval (c_redis c) (c_fr c) (e_now e) (e_uuid e) (ctx_agent_id ctx)
        (ctx_role ctx) tool (ctx_arguments ctx) (dec_reason d) (w_redis w) ms = (y, w_redis w2, ms')"
      by (rule mcp_hold_cases) simp
    then show thesis by (intro stored [OF decided(1) True]) (simp add: store_event_of_def)
  next
    case False
    then consider "mcp_deny c e ?k d ?w = (x, w2)" | "mcp_run c e ?k d ?w = (x, w2)"
      using decided(2) by (auto simp: mcp_decided_def split: if_splits)
    then have "w_redis w2 = w_redis w"
    proof cases
      case 1
      then show ?thesis by (rule mcp_deny_cases) simp
    next
      case 2
      then show ?thesis by (rule mcp_run_cases) simp
    qed
    then show thesis by (rule quiet)
  qed
qed

lemma passed_limiter: "passed c e req w req' w1 \<Longrightarrow> limiter_ran c e (w_redis w) (w_redis w1)"
  by (auto simp: passed_def limiter_ran_def split: if_splits)

text \<open>
  Every step: the limiter may check, then at most one operation of the store runs, and it goes
  with what the step did.
\<close>

lemma step_projects:
  fixes w :: "('r, 'x) world"
  assumes step: "app c e fi q oth req w = (x, w')"
    and oth: "\<forall>r v. w_redis (snd (oth r v)) = w_redis v"
  defines "s \<equiv> \<lparr>st_env = e, st_req = req, st_before = w, st_answer = x, st_after = w'\<rparr>"
  obtains (quiet) "limiter_ran c e (w_redis w) (w_redis w')" "\<And>i. \<not> approves c i s"
  | (stored) r1 opn res ms ms' where "limiter_ran c e (w_redis w) r1"
      "store_step (c_redis c) (c_fr c) (c_fp c) (store_event_of e opn) r1 ms = (res, w_redis w', ms')"
      "matches c s opn res"
proof (cases "\<exists>i. approves c i s")
  case True
  then obtain i where ap: "approves c i s" by blast
  then obtain w2 where d: "decide_endpoint c e i req w = (x, w2)" and w': "w' = logged e req x w2"
    using approves_inside [OF _ step] by (auto simp: s_def)
  have path: "approval_path ''decide'' (req_path req) = Some i" and cl: "cleared_approval c e req w w'"
    using ap by (auto simp: approves_def s_def)
  from d show thesis
  proof (cases rule: decide_projects)
    case quiet
    with path cl w' show thesis by (metis logged_frame(1))
  next
    case st: (stored p y ms)
    from st(2) [of w' i] path cl have y: "dr_decision p = ''approve''" "\<exists>a. y = Inr (Some a, Decided) \<and>
        w_ext w' = snd (execute_tool (c_tools c) (ap_tool_name a) (ap_arguments a) (w_ext w))"
      by (simp_all add: w')
    show thesis
    proof (rule stored [of "w_redis w"])
      show "store_step (c_redis c) (c_fr c) (c_fp c) (store_event_of e (DecideOp i (dr_decision p) (dr_decided_by p)))
          (w_redis w) (w_metrics w) = (Resolved y, w_redis w', ms)"
        using st(1) by (simp add: w')
      show "matches c s (DecideOp i (dr_decision p) (dr_decided_by p)) (Resolved y)"
        using y path by (auto simp: matches_def approves_def s_def)
    qed (simp add: limiter_ran_def)
  qed
next
  case False
  then have na: "\<not> approves c i s" for i by blast
  show thesis
    using step
  proof (cases rule: app_cases)
    case away
    then show thesis using na by (intro quiet) (auto simp: turned_away_def limiter_ran_def)
  next
    case (inside req' w1 y w2)
    note lim = passed_limiter [OF inside(1)]
    have red: "w_redis w' = w_redis w2" by (simp add: inside(3))
    have still: thesis if "w_redis w2 = w_redis w1" by (rule quiet) (use lim red that na in auto)
    show thesis
    proof (cases "route (req_method req') (req_path req')")
      case EpMcp
      then have m: "mcp c e req' w1 = (y, w2)" using inside(2) by (simp add: routes_def)
      have "req_path req = ''/mcp''"
        using EpMcp by (simp add: route_EpMcp passed_frame(8) [OF inside(1)])
      then obtain k b where k: "header req ''x-api-key'' = Some k" "API_KEYS k = Some b" "req' = req\<lparr>req_agent := Some b\<rparr>"
        using inside(1) mcp_not_public by (auto simp: passed_def)
      from m show thesis
      proof (cases rule: mcp_projects)
        case quiet
        then show thesis by (rule still)
      next
        case st: (stored a i ctx tool d ms z ms')
        obtain ms0 where j: "judged c e req' w a i ctx tool d ms0"
          using st(1) passed_frame(6) [OF inside(1)] judged_cong [of w1 w] by metis
        have "a = b" using judged_context(3) [OF j] k(3) by simp
        have held: "held_call c s (ctx_agent_id ctx) tool (ctx_arguments ctx)"
          unfolding held_call_def s_def using k j st(2) \<open>a = b\<close> by auto
        have du: "dumpable (c_fr c) (c_fp c) (JObj (ctx_arguments ctx))" if "request_storable c (e, req)"
          using judged_args_dumpable [OF j] that k(3) by (simp add: request_storable_def)
        show thesis
        proof (rule stored [OF lim])
          show "store_step (c_redis c) (c_fr c) (c_fp c) (store_event_of e
             (CreateOp (e_uuid e) (ctx_agent_id ctx) (ctx_role ctx) tool (ctx_arguments ctx) (dec_reason d)))
             (w_redis w1) ms = (Created z, w_redis w', ms')"
            using st(3) red by simp
          show "matches c s (CreateOp (e_uuid e) (ctx_agent_id ctx) (ctx_role ctx) tool (ctx_arguments ctx)
              (dec_reason d)) (Created z)"
            using held du na by (auto simp: matches_def s_def)
        qed
      qed
    next
      case (EpDecide i)
      then have "decide_endpoint c e i req' w1 = (y, w2)" using inside(2) by (simp add: routes_def)
      then show thesis
      proof (cases rule: decide_projects)
        case quiet
        then show thesis by (intro still)
      next
        case st: (stored p z ms)
        show thesis
          by (rule stored [OF lim, of "DecideOp i (dr_decision p) (dr_decided_by p)" "w_metrics w1" "Resolved z" ms])
            (use st(1) red na in \<open>auto simp: matches_def\<close>)
      qed
    next
      case (EpStatus i)
      obtain g r where g: "get_approval (c_redis c) (c_fp c) (e_now e) i (w_redis w1) = (g, r)" by fastforce
      then have "w_redis w2 = r"
        using inside(2) EpStatus by (auto simp: routes_def approval_status_def split: sum.splits option.splits)
      then show thesis
        using g red na
        by (intro stored [OF lim, of "GetOp i" "[]" "Got g" "[]"])
          (auto simp: store_event_of_def matches_def)
    next
      case EpAudit
      then show thesis
        using inside(2) by (intro still) (auto simp: routes_def get_audit_log_def Let_def split: prod.splits sum.splits)
    next
      case EpHealth
      then show thesis using inside(2) by (intro still) (auto simp: routes_def health_def)
    next
      case EpOther
      then have "w2 = snd (oth req' w1)" using inside(2) by (simp add: routes_def)
      then show thesis using oth by (intro still) simp
    qed
  qed
qed

section \<open>The invariant of a run\<close>

text \<open>The request a decided record goes back to.\<close>

lemma requests_create:
  assumes "requests ev a"
  shows "\<exists>tc tc' ro re. ev = (tc, tc', CreateOp (ap_id a) (ap_agent_id a) ro (ap_tool_name a) (ap_arguments a) re) \<and>
    ap_expires_at a = tc + of_int APPROVAL_TTL_SECONDS"
  using assms
  by (cases "(ev, a)" rule: requests.cases) (cases a; auto simp: new_approval_def)+

text \<open>
  \<open>traced\<close>: an approval executed by step \<open>s\<close> goes back to an earlier held call of the run, at most
  900 seconds before, whose tool and arguments are what ran.
\<close>

definition traced :: "('r, 'x) config \<Rightarrow> ('r, 'x) app_step list \<Rightarrow> ('r, 'x) app_step \<Rightarrow> string \<Rightarrow> bool" where
  "traced c earlier s i \<longleftrightarrow>
     (\<exists>s0 \<in> set earlier. \<exists>agent tool args.
        held_call c s0 agent tool args \<and> e_uuid (st_env s0) = i \<and>
        e_now (st_env s) \<le> e_now (st_env s0) + 900 \<and>
        w_ext (st_after s) = snd (execute_tool (c_tools c) tool args (w_ext (st_before s))))"

definition run_inv ::
  "('r \<Rightarrow> rat \<Rightarrow> string \<Rightarrow> string option) \<Rightarrow> ('r \<Rightarrow> bool) \<Rightarrow> ('r, 'x) config \<Rightarrow> (store_event \<times> store_res) list
     \<Rightarrow> ('r, 'x) app_step list \<Rightarrow> rat \<Rightarrow> 'r \<Rightarrow> bool" where
  "run_inv val invar c h earlier t r \<longleftrightarrow>
     invar r \<and> history_ok h \<and> entries_ok val (c_fr c) (c_fp c) h t r \<and>
     (\<forall>tc tc' i ag ro to ar re. (tc, tc', CreateOp i ag ro to ar re) \<in> fst ` set h \<longrightarrow>
        (\<exists>s \<in> set earlier. e_now (st_env s) = tc \<and> e_uuid (st_env s) = i \<and> held_call c s ag to ar)) \<and>
     (\<forall>i. length (filter (approves c i) earlier) \<le> length (decisions i h))"

lemma run_inv_create:
  assumes "run_inv val invar c h earlier t r" "(tc, tc', CreateOp i ag ro to ar re) \<in> fst ` set h"
  shows "\<exists>s \<in> set earlier. e_now (st_env s) = tc \<and> e_uuid (st_env s) = i \<and> held_call c s ag to ar"
  using assms unfolding run_inv_def by blast

lemma run_inv_count:
  "run_inv val invar c h earlier t r \<Longrightarrow> length (filter (approves c i) earlier) \<le> length (decisions i h)"
  by (simp add: run_inv_def)

lemma run_inv_quiet:
  assumes "run_inv val invar c h earlier t r" "invar r'" "entries_ok val (c_fr c) (c_fp c) h t' r'"
    and "\<And>i. \<not> approves c i s"
  shows "run_inv val invar c h (earlier @ [s]) t' r'"
proof -
  have "filter (approves c i) (earlier @ [s]) = filter (approves c i) earlier" for i
    using assms(4) by simp
  then show ?thesis using assms(1-3) unfolding run_inv_def set_append bex_Un by simp
qed

lemma created_ids_event:
  "i \<in> set (created_ids evs) \<Longrightarrow> \<exists>tc tc' ag ro to ar re. (tc, tc', CreateOp i ag ro to ar re) \<in> set evs"
proof (induction evs)
  case (Cons ev evs)
  obtain t t' opn where "ev = (t, t', opn)" by (metis prod_cases3)
  with Cons show ?case by (cases opn) (auto, blast+)
qed simp

lemma run_inv_created:
  assumes "run_inv val invar c h earlier t r"
  shows "set (created_ids (map fst h)) \<subseteq> (\<lambda>s. e_uuid (st_env s)) ` set earlier"
proof
  fix i
  assume "i \<in> set (created_ids (map fst h))"
  then obtain tc tc' ag ro to ar re where "(tc, tc', CreateOp i ag ro to ar re) \<in> fst ` set h"
    using created_ids_event by (metis set_map)
  with assms show "i \<in> (\<lambda>s. e_uuid (st_env s)) ` set earlier" unfolding run_inv_def by blast
qed

context redis_shared
begin

lemma limiter_ran_keeps:
  assumes "c_redis c = C" "limiter_ran c e r r1" "invar r" "entries_ok val fr fp h t r" "t \<le> e_limit_now e"
  shows "invar r1 \<and> entries_ok val fr fp h (e_limit_now e) r1"
proof -
  have old: "entries_ok val fr fp h (e_limit_now e) r"
    using entries_ok_later [OF assms(3,5,4)] .
  show ?thesis
  proof (cases "r1 = r")
    case False
    then obtain a :: Agent_data and res where "check C RATE_LIMIT_WINDOW_SECONDS (c_fr c) (ident_str (agent_id a)) (rate_limit_rpm a)
        (e_limit_now e) (e_limit_uuid e) r = (res, r1)"
      using assms(1,2) by (auto simp: limiter_ran_def limiter_check_def)
    then show ?thesis
      using check_off(2) check_keeps_entries old assms(3) by (metis RATE_LIMIT_WINDOW_SECONDS_def zero_less_numeral)
  qed (use assms(3) old in simp)
qed

lemma traced_decision:
  assumes inv: "run_inv val invar c h earlier t r"
    and ok: "history_ok (h @ [((e_now (st_env s), t', DecideOp i ''approve'' b), Resolved (Inr (Some a, Decided)))])"
    and ext: "w_ext (st_after s) = snd (execute_tool (c_tools c) (ap_tool_name a) (ap_arguments a) (w_ext (st_before s)))"
  shows "traced c earlier s i"
proof -
  let ?x = "((e_now (st_env s), t', DecideOp i ''approve'' b), Resolved (Inr (Some a, Decided)))"
  obtain L where L: "L = map fst (h @ [?x])" by simp
  have "sound_decision L ?x" unfolding L by (rule history_ok_sound [OF ok]) simp
  then obtain ev where a: "ap_id a = i" "e_now (st_env s) \<le> ap_expires_at a"
    and mem: "ev \<in> set L" and req: "requests ev a" by (auto split: option.splits)
  have ev: "ev \<in> fst ` set h \<or> ev = fst ?x" using mem by (auto simp: L)
  obtain tc tc' ro re where c: "ev = (tc, tc', CreateOp i (ap_agent_id a) ro (ap_tool_name a) (ap_arguments a) re)"
    "ap_expires_at a = tc + of_int APPROVAL_TTL_SECONDS"
    using requests_create [OF req] a(1) by blast
  with ev have "(tc, tc', CreateOp i (ap_agent_id a) ro (ap_tool_name a) (ap_arguments a) re) \<in> fst ` set h"
    by auto
  then obtain s0 where s0: "s0 \<in> set earlier" "e_now (st_env s0) = tc" "e_uuid (st_env s0) = i"
    "held_call c s0 (ap_agent_id a) (ap_tool_name a) (ap_arguments a)"
    using inv unfolding run_inv_def by blast
  then show ?thesis
    using a(2) c(2) ext unfolding traced_def by (auto simp: APPROVAL_TTL_SECONDS_def)
qed

lemma run_step:
  fixes w :: "('r, 'x) world"
  defines "s \<equiv> \<lambda>e req w x w'. \<lparr>st_env = e, st_req = req, st_before = w, st_answer = x, st_after = w'\<rparr> :: ('r, 'x) app_step"
  assumes C: "c_redis c = C" and oth: "\<forall>r v. w_redis (snd (oth r v)) = w_redis v"
    and inv: "run_inv val invar c h earlier t0 (w_redis w)"
    and time: "t0 \<le> e_limit_now e" "e_limit_now e \<le> e_now e" "e_now e \<le> e_later e"
    and fresh: "e_uuid e \<notin> (\<lambda>s. e_uuid (st_env s)) ` set earlier"
    and sto: "request_storable c (e, req)"
    and step: "app c e fi q oth req w = (x, w')"
  shows "(\<exists>h'. run_inv val invar c h' (earlier @ [s e req w x w']) (e_later e) (w_redis w')) \<and>
    (\<forall>i. approves c i (s e req w x w') \<longrightarrow> traced c earlier (s e req w x w') i)"
proof -
  let ?s = "s e req w x w'" and ?fr = "c_fr c" and ?fp = "c_fp c"
  have old: "invar (w_redis w)" "history_ok h" "entries_ok val ?fr ?fp h t0 (w_redis w)"
    using inv by (simp_all add: run_inv_def)
  from step oth show ?thesis
  proof (cases rule: step_projects)
    case quiet
    have na: "\<not> approves c i ?s" for i using quiet(2) by (simp add: s_def)
    have "invar (w_redis w') \<and> entries_ok val ?fr ?fp h (e_limit_now e) (w_redis w')"
      by (rule limiter_ran_keeps [OF C quiet(1) old(1,3) time(1)])
    then have "invar (w_redis w') \<and> entries_ok val ?fr ?fp h (e_later e) (w_redis w')"
      using entries_ok_later time(2,3) by (meson order_trans)
    then have "run_inv val invar c h (earlier @ [?s]) (e_later e) (w_redis w')"
      using run_inv_quiet [OF inv] na by blast
    with na show ?thesis by blast
  next
    case (stored r1 opn res ms ms')
    let ?ev = "store_event_of e opn" and ?h = "h @ [(store_event_of e opn, res)]"
    have m: "matches c ?s opn res" using stored(3) by (simp add: s_def)
    have env: "st_env ?s = e" "st_req ?s = req" "w_ext (st_before ?s) = w_ext w" by (simp_all add: s_def)
    have r1: "invar r1" "entries_ok val ?fr ?fp h (e_limit_now e) r1"
      using limiter_ran_keeps [OF C stored(1) old(1,3) time(1)] by auto
    have ord: "in_order (e_limit_now e) [?ev]" using time(2,3) by (simp add: store_event_of_def)
    have sok: "event_storable ?fr ?fp ?ev"
    proof (cases opn)
      case (CreateOp i ag ro to ar re)
      then have "dumpable ?fr ?fp (JObj ar)" using m sto env by (auto simp: matches_def)
      then show ?thesis
        using sto by (simp add: store_event_of_def CreateOp storable_iff new_approval_def request_storable_def)
    qed (use sto in \<open>simp_all add: store_event_of_def request_storable_def\<close>)
    have new_ids: "set (created_ids [?ev]) \<subseteq> {e_uuid e}"
      using m env by (cases opn) (auto simp: store_event_of_def matches_def)
    then have disj: "set (created_ids (map fst h)) \<inter> set (created_ids [?ev]) = {}"
      using run_inv_created [OF inv] fresh by blast
    have st: "store_step C ?fr ?fp ?ev r1 ms = (res, w_redis w', ms')" using stored(2) C by simp
    have kept: "invar (w_redis w') \<and> history_ok ?h \<and> entries_ok val ?fr ?fp ?h (e_later e) (w_redis w')"
      using step_keeps [OF r1 old(2) ord sok disj st] by (simp add: store_event_of_def)
    have appr: "\<exists>b a. ?ev = (e_now e, e_later e, DecideOp i ''approve'' b) \<and> res = Resolved (Inr (Some a, Decided)) \<and>
        w_ext (st_after ?s) = snd (execute_tool (c_tools c) (ap_tool_name a) (ap_arguments a) (w_ext (st_before ?s)))"
      if "approves c i ?s" for i
      using that m by (auto simp: matches_def store_event_of_def)
    have "traced c earlier ?s i" if ap: "approves c i ?s" for i
    proof -
      obtain b a where d: "?ev = (e_now e, e_later e, DecideOp i ''approve'' b)" "res = Resolved (Inr (Some a, Decided))"
        "w_ext (st_after ?s) = snd (execute_tool (c_tools c) (ap_tool_name a) (ap_arguments a) (w_ext (st_before ?s)))"
        using appr [OF ap] by blast
      then have "history_ok (h @ [((e_now (st_env ?s), e_later e, DecideOp i ''approve'' b), Resolved (Inr (Some a, Decided)))])"
        using kept env(1) by simp
      from traced_decision [OF inv this d(3)] show ?thesis .
    qed
    moreover have "run_inv val invar c ?h (earlier @ [?s]) (e_later e) (w_redis w')"
      unfolding run_inv_def
    proof (intro conjI allI impI)
      fix tc tc' i ag ro to ar re
      assume "(tc, tc', CreateOp i ag ro to ar re) \<in> fst ` set ?h"
      then consider "(tc, tc', CreateOp i ag ro to ar re) \<in> fst ` set h" | "?ev = (tc, tc', CreateOp i ag ro to ar re)"
        by auto
      then show "\<exists>s \<in> set (earlier @ [?s]). e_now (st_env s) = tc \<and> e_uuid (st_env s) = i \<and> held_call c s ag to ar"
      proof cases
        case 1
        from run_inv_create [OF inv this] show ?thesis by auto
      next
        case 2
        then have "e_now (st_env ?s) = tc \<and> e_uuid (st_env ?s) = i \<and> held_call c ?s ag to ar"
          using m env by (auto simp: store_event_of_def matches_def)
        then show ?thesis by simp
      qed
    next
      fix i
      have "decides i (?ev, res)" if "approves c i ?s"
        using appr [OF that] by (elim exE conjE) simp
      then show "length (filter (approves c i) (earlier @ [?s])) \<le> length (decisions i ?h)"
        using run_inv_count [OF inv, of i] by (simp add: decisions_snoc)
    qed (use kept in auto)
    ultimately show ?thesis by blast
  qed
qed

lemma run_traced:
  assumes "c_redis c = C" "\<forall>r v. w_redis (snd (oth r v)) = w_redis v"
    and "run_inv val invar c h earlier t0 (w_redis w)" "clocks_ok t0 rs"
    and "distinct (map (\<lambda>r. e_uuid (fst r)) rs)"
    and "(\<lambda>s. e_uuid (st_env s)) ` set earlier \<inter> (\<lambda>r. e_uuid (fst r)) ` set rs = {}"
    and "\<forall>r \<in> set rs. request_storable c r"
  shows "(\<forall>pre s post i. run_app c fi q oth rs w = pre @ s # post \<longrightarrow> approves c i s \<longrightarrow>
      traced c (earlier @ pre) s i) \<and>
    (\<forall>i. length (filter (approves c i) (earlier @ run_app c fi q oth rs w)) \<le> 1)"
  using assms
proof (induction rs arbitrary: w h earlier t0)
  case Nil
  have "length (decisions i h) \<le> 1" for i using Nil.prems(3) by (simp add: run_inv_def history_ok_def)
  with run_inv_count [OF Nil.prems(3)] show ?case by (auto intro: order_trans)
next
  case (Cons r rs)
  obtain e req where r: "r = (e, req)" by fastforce
  obtain x w' where a: "app c e fi q oth req w = (x, w')" by fastforce
  let ?s = "\<lparr>st_env = e, st_req = req, st_before = w, st_answer = x, st_after = w'\<rparr>"
  have run: "run_app c fi q oth (r # rs) w = ?s # run_app c fi q oth rs w'" by (simp add: r a)
  have cl: "t0 \<le> e_limit_now e" "e_limit_now e \<le> e_now e" "e_now e \<le> e_later e" "clocks_ok (e_later e) rs"
    using Cons.prems(4) by (simp_all add: r)
  have step: "(\<exists>h'. run_inv val invar c h' (earlier @ [?s]) (e_later e) (w_redis w')) \<and>
      (\<forall>i. approves c i ?s \<longrightarrow> traced c earlier ?s i)"
    by (rule run_step [OF Cons.prems(1-3) cl(1-3) _ _ a]) (use Cons.prems(6,7) r in auto)
  then obtain h' where h': "run_inv val invar c h' (earlier @ [?s]) (e_later e) (w_redis w')" by blast
  have "(\<lambda>s. e_uuid (st_env s)) ` set (earlier @ [?s]) \<inter> (\<lambda>r. e_uuid (fst r)) ` set rs = {}"
    using Cons.prems(5,6) r by auto
  note IH = Cons.IH [OF Cons.prems(1,2) h' cl(4) _ this]
  have ih: "(\<forall>pre s post i. run_app c fi q oth rs w' = pre @ s # post \<longrightarrow> approves c i s \<longrightarrow>
      traced c ((earlier @ [?s]) @ pre) s i) \<and>
    (\<forall>i. length (filter (approves c i) ((earlier @ [?s]) @ run_app c fi q oth rs w')) \<le> 1)"
    by (rule IH) (use Cons.prems(5,7) in auto)
  have "traced c (earlier @ pre) s i"
    if "run_app c fi q oth (r # rs) w = pre @ s # post" "approves c i s" for pre s post i
  proof (cases pre)
    case Nil
    with that run step show ?thesis by simp
  next
    case (Cons p pre')
    with that run ih show ?thesis by auto
  qed
  then show ?case using ih run by simp
qed

lemma run_from_empty:
  assumes "c_redis c = C" "\<forall>r v. w_redis (snd (oth r v)) = w_redis v"
    and "invar (w_redis w)" "\<forall>i. val (w_redis w) t0 (approval_key i) = None" "clocks_ok t0 rs"
    and "distinct (map (\<lambda>r. e_uuid (fst r)) rs)" "\<forall>r \<in> set rs. request_storable c r"
  shows "(\<forall>pre s post i. run_app c fi q oth rs w = pre @ s # post \<longrightarrow> approves c i s \<longrightarrow> traced c pre s i) \<and>
    (\<forall>i. length (filter (approves c i) (run_app c fi q oth rs w)) \<le> 1)"
proof -
  have "run_inv val invar c [] [] t0 (w_redis w)"
    using assms(3,4) by (simp add: run_inv_def history_ok_def entries_ok_def decisions_def)
  from run_traced [OF assms(1,2) this assms(5,6) _ assms(7)] show ?thesis by simp
qed

end

section \<open>Guarantees of a run\<close>

lemma run_app_step:
  "s \<in> set (run_app c fi q oth rs w) \<Longrightarrow>
   app c (st_env s) fi q oth (st_req s) (st_before s) = (st_answer s, st_after s)"
  by (induction rs arbitrary: w) (auto simp: Let_def split: prod.splits)

text \<open>An effect through the callback path is an approval of the id in the path.\<close>

lemma effect_approves:
  assumes "s \<in> set (run_app c fi q oth rs w)" "\<forall>r v. w_ext (snd (oth r v)) = w_ext v"
    and "w_ext (st_after s) \<noteq> w_ext (st_before s)"
  shows "cleared_call c (st_env s) (st_req s) (st_before s) (st_after s) \<or> (\<exists>i. approves c i s)"
  using external_effect_clearance [OF run_app_step [OF assms(1)] assms(2,3)]
  by (auto simp: approves_def cleared_approval_def)

lemma callback_is_no_call:
  "approval_path act (req_path req) = Some i \<Longrightarrow> \<not> cleared_call c e req w w'"
  using approval_path_public(2) by (auto simp: cleared_call_def)

text \<open>A held call of \<open>exec_into_pod\<close> and, 100 seconds later, the signed callback that approves it.\<close>

definition demo_env2 :: env where
  "demo_env2 =
     \<lparr>e_now = 200, e_later = 201, e_uuid = ''u2'', e_limit_now = 199, e_limit_uuid = ''l2'',
      e_row_id = ''row2'', e_trace = None, e_txn = Commits, e_duration = 5, e_elapsed = 7\<rparr>"

definition demo_callback2 :: http_request where
  "demo_callback2 =
     \<lparr>req_method = ''POST'', req_path = ''/admin/approvals/u1/decide'',
      req_headers = [(''x-slack-request-timestamp'', ''200''),
        (''x-slack-signature'', slack_signature ''s'' ''200'' ''{}'')],
      req_bytes = ''{}'', req_agent = None\<rparr>"

definition demo_run :: "(env \<times> http_request) list" where
  "demo_run = [(demo_env, demo_request ''x''), (demo_env2, demo_callback2)]"

lemma demo_like_signed [simp]: "demo_like demo_signed"
  by (simp add: demo_like_def demo_signed_def demo_config_def)

lemma demo_signed_simps:
  "c_redis demo_signed = FakeRedis" "c_fr demo_signed = whole_repr" "c_fp demo_signed = whole_read"
  "c_tools demo_signed = demo_tools" "c_body demo_signed = demo_body" "c_secret demo_signed = ''s''"
  "c_validate demo_signed = (\<lambda>_. Inr \<lparr>dr_decision = ''approve'', dr_decided_by = ''alice'', dr_note = None\<rparr>)"
  "c_slack_url demo_signed = []"
  by (simp_all add: demo_signed_def demo_config_def)

definition demo_request_of :: "string \<Rightarrow> Approval" where
  "demo_request_of reason = new_approval 100 ''u1'' ''agent01'' ''sre1'' ''exec_into_pod'' demo_args reason"

lemma demo_dumpable:
  "t \<in> {100, 101, 200, 201, 1000, 1100} \<Longrightarrow> dumpable whole_repr whole_read (JFloat (Fin t))"
  "dumpable whole_repr whole_read (JObj demo_args)"
  "dumpable whole_repr whole_read (tool_body ''exec_into_pod'' demo_args)"
proof -
  have "dumpable whole_repr whole_read (JFloat (Fin 100))" "dumpable whole_repr whole_read (JFloat (Fin 101))"
    "dumpable whole_repr whole_read (JFloat (Fin 200))" "dumpable whole_repr whole_read (JFloat (Fin 201))"
    "dumpable whole_repr whole_read (JFloat (Fin 1000))" "dumpable whole_repr whole_read (JFloat (Fin 1100))"
    by code_simp+
  then show "t \<in> {100, 101, 200, 201, 1000, 1100} \<Longrightarrow> dumpable whole_repr whole_read (JFloat (Fin t))"
    by blast
  show "dumpable whole_repr whole_read (JObj demo_args)" by code_simp
  show "dumpable whole_repr whole_read (tool_body ''exec_into_pod'' demo_args)" by code_simp
qed

lemma demo_held_app:
  "\<exists>x w1 reason. app demo_signed demo_env (\<lambda>_. None) demo_query demo_other (demo_request ''x'') demo_world = (x, w1) \<and>
     w_ext w1 = 0 \<and>
     kv (w_redis w1) (approval_key ''u1'') = Some (approval_text whole_repr (demo_request_of reason), Some 1000)"
proof -
  obtain res y w2 where m: "mcp demo_signed demo_env ((demo_request ''x'')\<lparr>req_agent := Some demo_agent\<rparr>) demo_limited = (y, w2)"
    and a: "app demo_signed demo_env (\<lambda>_. None) demo_query demo_other (demo_request ''x'') demo_world =
      (let x = (case y of Inl ex \<Rightarrow> Inl ex | Inr resp \<Rightarrow> Inr (quota_headers res resp))
        in (x, logged demo_env (demo_request ''x'') x w2))"
    using demo_app_mcp [OF demo_like_signed] by blast
  obtain reason where pol: "evaluate_policy whole_repr opa_authz (demo_ctx ''exec_into_pod'' (e_now demo_env)) (w_metrics demo_limited) =
      (Inr \<lparr>dec_allow = True, dec_require_approval = True, dec_reason = reason\<rparr>, w_metrics demo_limited)"
    using demo_policy(2) by blast
  let ?k = "call_of (JInt 1) (demo_ctx ''exec_into_pod'' (e_now demo_env)) ''exec_into_pod''"
  have "mcp_hold demo_signed demo_env ?k \<lparr>dec_allow = True, dec_require_approval = True, dec_reason = reason\<rparr>
      demo_limited = (y, w2)"
    using m demo_mcp [OF demo_like_signed _ pol, of "''x''"] by (simp add: mcp_decided_def)
  then obtain z ms where cr: "create_pending_approval FakeRedis whole_repr 100 ''u1'' ''agent01'' ''sre1''
      ''exec_into_pod'' demo_args reason (w_redis demo_limited) (w_metrics demo_limited) = (z, w_redis w2, ms)"
    and ext: "w_ext w2 = 0"
    by (rule mcp_hold_cases) (simp add: demo_signed_simps demo_env_def demo_limited_def demo_world_def)
  have "kv (w_redis w2) (approval_key ''u1'') = Some (approval_text whole_repr (demo_request_of reason), Some 1000)"
  proof -
    have "w_redis w2 = fst (snd (create_pending_approval FakeRedis whole_repr 100 ''u1'' ''agent01'' ''sre1''
      ''exec_into_pod'' demo_args reason (w_redis demo_limited) (w_metrics demo_limited)))"
      by (simp add: cr)
    then show ?thesis
      by (simp add: create_pending_approval_def new_approval_def demo_request_of_def fake_set_def Let_def
          APPROVAL_TTL_SECONDS_def)
  qed
  then show ?thesis using ext by (auto simp: a Let_def)
qed

lemma demo_path: "approval_path ''decide'' ''/admin/approvals/u1/decide'' = Some ''u1''"
  by code_simp

lemma demo_approve_app:
  assumes "kv (w_redis w) (approval_key ''u1'') = Some (approval_text whole_repr (demo_request_of reason), Some 1000)"
    and "w_ext w = 0"
  shows "w_ext (snd (app demo_signed demo_env2 (\<lambda>_. None) demo_query demo_other demo_callback2 w)) = 1"
proof -
  let ?a = "demo_request_of reason" and ?p = "\<lparr>dr_decision = ''approve'', dr_decided_by = ''alice'', dr_note = None\<rparr>"
  have "storable whole_repr whole_read ?a"
    unfolding storable_iff demo_request_of_def new_approval_def
    using demo_dumpable(1) [of 100] demo_dumpable(1) [of 1000] demo_dumpable(2)
    by (simp add: APPROVAL_TTL_SECONDS_def)
  then have rd: "read_approval whole_read (approval_text whole_repr ?a) = Inr ?a" by (rule read_approval_text)
  have st: "ap_status ?a = ''pending''" "ap_expires_at ?a = 1000" "ap_tool_name ?a = ''exec_into_pod''"
    by (simp_all add: demo_request_of_def new_approval_def APPROVAL_TTL_SECONDS_def)
  obtain r ms where dec: "decide_approval FakeRedis whole_repr whole_read 200 201 ''u1'' ''approve'' ''alice''
      (w_redis w) (w_metrics w) = (Inr (Some (resolve 201 ''approve'' ''alice'' ?a), Decided), r, ms)"
    using assms(1)
    by (simp add: decide_approval_def get_approval_def fake_get_def expired_def rd decide_guard_def st
        decide_write_def fake_set_def Let_def)
  have "py_int ''200'' = Some 200" "\<not> int_too_large 200" by code_simp+
  then have ver: "verify_signature ''s'' 200 (header demo_callback2 ''x-slack-request-timestamp'')
      (req_bytes demo_callback2) (header demo_callback2 ''x-slack-signature'') = Inr True"
    unfolding verify_signature_iff by (simp add: demo_callback2_def header_def REPLAY_TOLERANCE_SECONDS_def)
  obtain x w' where d: "decide_endpoint demo_signed demo_env2 ''u1'' demo_callback2 w = (x, w')" by fastforce
  then have "w_ext w' = 1"
  proof (cases rule: decide_endpoint_cases)
    case refused
    then show ?thesis using ver by (auto simp: demo_signed_simps demo_env2_def)
  next
    case (judged p y ms')
    then have "y = Inr (Some (resolve 201 ''approve'' ''alice'' ?a), Decided)"
      using dec by (auto simp: demo_signed_simps demo_env2_def)
    with judged(5) assms(2) show ?thesis
      by (auto simp: acted_def demo_signed_simps st execute_tool_def demo_tools_def demo_tool_def ap_status_resolve)
  qed
  moreover have p: "req_method demo_callback2 = ''POST''" "req_path demo_callback2 = ''/admin/approvals/u1/decide''"
    by (simp_all add: demo_callback2_def)
  have "approval_path ''decide'' (req_path demo_callback2) = Some ''u1''" unfolding p by (rule demo_path)
  note pub = approval_path_public [OF this] and this
  then have "route ''POST'' (req_path demo_callback2) = EpDecide ''u1''" by (simp add: route_def)
  then have "app demo_signed demo_env2 (\<lambda>_. None) demo_query demo_other demo_callback2 w =
      (x, logged demo_env2 demo_callback2 x w')"
    using pub d p(1) by (simp add: app_def log_requests_logged authenticate_def rate_limit_def RATE_LIMITED_PATHS_def routes_def)
  ultimately show ?thesis by simp
qed

lemma demo_run_ok:
  "clocks_ok 0 demo_run" "distinct (map (\<lambda>r. e_uuid (fst r)) demo_run)"
  "\<forall>r \<in> set demo_run. request_storable demo_signed r"
  "\<forall>i. fake_val (w_redis demo_world) 0 (approval_key i) = None" "fake_invar (w_redis demo_world)"
  "\<forall>r v. w_redis (snd (demo_other r v)) = w_redis v"
proof -
  have b: "demo_body ''x'' = JsonBody (tool_body ''exec_into_pod'' demo_args)" "demo_body ''{}'' = BadJson"
    by (simp_all add: demo_body_def)
  show "\<forall>r \<in> set demo_run. request_storable demo_signed r"
    using demo_dumpable(1) [of 100] demo_dumpable(1) [of 101] demo_dumpable(1) [of 200] demo_dumpable(1) [of 201]
      demo_dumpable(1) [of 1000] demo_dumpable(1) [of 1100] demo_dumpable(3)
    by (simp add: demo_run_def request_storable_def demo_signed_simps demo_request_def demo_callback2_def b
        demo_env_def demo_env2_def APPROVAL_TTL_SECONDS_def)
qed (simp_all add: demo_run_def demo_env_def demo_env2_def demo_world_def fake_val_def empty_fake_def
    fake_invar_empty [unfolded empty_fake_def] demo_other_def)

text \<open>
  C2: every effect is accounted for.  Take any run of the gateway from a Redis without approvals,
  through any client that keeps the contract, failures included.  Whenever the systems behind the
  tools change, either the policy had allowed that very call without approval, or an earlier
  request of the run was held for approval, at most 900 seconds before, the callback approved that
  id, and what ran is the tool with the arguments of the held call.
\<close>

theorem every_effect_cleared_or_held_before:
  assumes "redis_shared (c_redis c) ents val invar" "invar (w_redis w)"
    and "\<forall>i. val (w_redis w) t0 (approval_key i) = None" "clocks_ok t0 rs"
    and "distinct (map (\<lambda>r. e_uuid (fst r)) rs)" "\<forall>r \<in> set rs. request_storable c r"
    and "\<forall>r v. w_redis (snd (oth r v)) = w_redis v" "\<forall>r v. w_ext (snd (oth r v)) = w_ext v"
    and "run_app c fi q oth rs w = pre @ s # post" "w_ext (st_after s) \<noteq> w_ext (st_before s)"
  shows "cleared_call c (st_env s) (st_req s) (st_before s) (st_after s) \<or>
    (\<exists>s0 \<in> set pre. \<exists>agent tool args.
       held_call c s0 agent tool args \<and>
       approval_path ''decide'' (req_path (st_req s)) = Some (e_uuid (st_env s0)) \<and>
       e_now (st_env s) \<le> e_now (st_env s0) + 900 \<and>
       w_ext (st_after s) = snd (execute_tool (c_tools c) tool args (w_ext (st_before s))))"
proof -
  have "s \<in> set (run_app c fi q oth rs w)" using assms(9) by simp
  from effect_approves [OF this assms(8,10)] show ?thesis
  proof
    assume "\<exists>i. approves c i s"
    then obtain i where ap: "approves c i s" by blast
    then have "traced c pre s i"
      using redis_shared.run_from_empty [OF assms(1) refl assms(7,2,3,4,5,6)] assms(9) by blast
    with ap show ?thesis by (auto simp: traced_def approves_def)
  qed blast
qed

lemma disj_imp_left: "A \<or> B \<Longrightarrow> \<not> A \<Longrightarrow> B"
  by blast

theorem every_effect_cleared_or_held_before_witness:
  "\<exists>pre s. run_app demo_signed (\<lambda>_. None) demo_query demo_other demo_run demo_world = pre @ [s] \<and>
    w_ext (st_after s) = 1 \<and>
    (\<exists>s0 \<in> set pre. \<exists>agent tool args.
       held_call demo_signed s0 agent tool args \<and>
       approval_path ''decide'' (req_path (st_req s)) = Some (e_uuid (st_env s0)) \<and>
       e_now (st_env s) \<le> e_now (st_env s0) + 900 \<and>
       w_ext (st_after s) = snd (execute_tool (c_tools demo_signed) tool args (w_ext (st_before s))))"
proof -
  let ?app = "app demo_signed"
  obtain x w1 reason where a1: "?app demo_env (\<lambda>_. None) demo_query demo_other (demo_request ''x'') demo_world = (x, w1)"
    and w1: "w_ext w1 = 0"
      "kv (w_redis w1) (approval_key ''u1'') = Some (approval_text whole_repr (demo_request_of reason), Some 1000)"
    using demo_held_app by blast
  obtain y w2 where a2: "?app demo_env2 (\<lambda>_. None) demo_query demo_other demo_callback2 w1 = (y, w2)" by fastforce
  have w2: "w_ext w2 = 1" using demo_approve_app [OF w1(2,1)] a2 by simp
  let ?p = "\<lparr>st_env = demo_env, st_req = demo_request ''x'', st_before = demo_world, st_answer = x, st_after = w1\<rparr>"
    and ?q = "\<lparr>st_env = demo_env2, st_req = demo_callback2, st_before = w1, st_answer = y, st_after = w2\<rparr>"
  have run: "run_app demo_signed (\<lambda>_. None) demo_query demo_other demo_run demo_world = [?p] @ ?q # []"
    by (simp add: demo_run_def a1 a2)
  have path: "approval_path ''decide'' (req_path demo_callback2) = Some ''u1''"
    by (simp add: demo_callback2_def demo_path)
  have sh: "redis_shared (c_redis demo_signed) fake_ents fake_val fake_invar"
    using fake_shared.redis_shared_axioms by (simp add: demo_signed_simps)
  have "w_ext (st_after ?q) \<noteq> w_ext (st_before ?q)" using w1(1) w2 by simp
  note e = every_effect_cleared_or_held_before [OF sh demo_run_ok(5,4,1,2,3,6) demo_other_keeps(1) run this]
  have "\<not> cleared_call demo_signed (st_env ?q) (st_req ?q) (st_before ?q) (st_after ?q)"
    using callback_is_no_call [OF path] by simp
  from e and this have tr: "\<exists>s0 \<in> set [?p]. \<exists>agent tool args.
       held_call demo_signed s0 agent tool args \<and>
       approval_path ''decide'' (req_path (st_req ?q)) = Some (e_uuid (st_env s0)) \<and>
       e_now (st_env ?q) \<le> e_now (st_env s0) + 900 \<and>
       w_ext (st_after ?q) = snd (execute_tool (c_tools demo_signed) tool args (w_ext (st_before ?q)))"
    by (rule disj_imp_left)
  show ?thesis
    by (rule exI [of _ "[?p]"], rule exI [of _ ?q], intro conjI) (rule run, simp add: w2, rule tr)
qed

text \<open>
  C5: an approval runs once, when requests are served one after the other.  In any such run, however
  often callbacks for an id are sent, decided or replayed, at most one request to the callback path
  of that id changes the systems behind the tools.  (\<open>Overlap_Props\<close> shows that two callbacks that
  overlap can both run it.)
\<close>

theorem approval_runs_at_most_once:
  assumes "redis_shared (c_redis c) ents val invar" "invar (w_redis w)"
    and "\<forall>i. val (w_redis w) t0 (approval_key i) = None" "clocks_ok t0 rs"
    and "distinct (map (\<lambda>r. e_uuid (fst r)) rs)" "\<forall>r \<in> set rs. request_storable c r"
    and "\<forall>r v. w_redis (snd (oth r v)) = w_redis v" "\<forall>r v. w_ext (snd (oth r v)) = w_ext v"
  shows "length (filter (\<lambda>s. approval_path ''decide'' (req_path (st_req s)) = Some i \<and>
      w_ext (st_after s) \<noteq> w_ext (st_before s)) (run_app c fi q oth rs w)) \<le> 1"
proof -
  let ?run = "run_app c fi q oth rs w"
  have "approves c i s" if "s \<in> set ?run" "approval_path ''decide'' (req_path (st_req s)) = Some i"
    "w_ext (st_after s) \<noteq> w_ext (st_before s)" for s
    using effect_approves [OF that(1) assms(8) that(3)] callback_is_no_call [OF that(2)] that(2)
    by (auto simp: approves_def)
  then have "length (filter (\<lambda>s. approval_path ''decide'' (req_path (st_req s)) = Some i \<and>
      w_ext (st_after s) \<noteq> w_ext (st_before s)) ?run) \<le> length (filter (approves c i) ?run)"
    by (intro length_filter_mono) auto
  also have "\<dots> \<le> 1"
    using redis_shared.run_from_empty [OF assms(1) refl assms(7,2,3,4,5,6)] by blast
  finally show ?thesis .
qed

theorem approval_runs_at_most_once_witness:
  "length (filter (\<lambda>s. approval_path ''decide'' (req_path (st_req s)) = Some ''u1'' \<and>
      w_ext (st_after s) \<noteq> w_ext (st_before s))
     (run_app demo_signed (\<lambda>_. None) demo_query demo_other demo_run demo_world)) \<le> 1"
proof -
  have "redis_shared (c_redis demo_signed) fake_ents fake_val fake_invar"
    using fake_shared.redis_shared_axioms by (simp add: demo_signed_simps)
  from approval_runs_at_most_once [OF this demo_run_ok(5,4,1,2,3,6) demo_other_keeps(1)] show ?thesis .
qed

end
