(* ===== verification/Limiter_Overlap.thy ===== *)
theory Limiter_Overlap
  imports Rate_Limit
begin

text \<open>
  Overlapping calls of \<open>SlidingWindowRateLimiter.check\<close>.  Each \<open>await\<close> of a command lets other
  requests run, so a check is not one step: between reading the count and adding its own entry,
  other checks of the same agent can read the same count.
\<close>

section \<open>A check in two turns\<close>

text \<open>Up to the count.\<close>

definition check_count ::
  "'r redis_client \<Rightarrow> int \<Rightarrow> string \<Rightarrow> rat \<Rightarrow> 'r \<Rightarrow> (string + nat) \<times> 'r" where
  "check_count C window agent now r =
     (case zremrangebyscore C (limit_key agent) 0 (now - of_int window) now r of
        (Inl m, r1) \<Rightarrow> (Inl m, r1)
      | (Inr _, r1) \<Rightarrow> zcard C (limit_key agent) now r1)"

text \<open>From the comparison on.\<close>

definition check_decide ::
  "'r redis_client \<Rightarrow> int \<Rightarrow> (rat \<Rightarrow> string) \<Rightarrow> string \<Rightarrow> int \<Rightarrow> rat \<Rightarrow> string \<Rightarrow> nat \<Rightarrow> 'r
     \<Rightarrow> RateLimitResult \<times> 'r" where
  "check_decide C window fr agent limit now uuid count r =
     (let key = limit_key agent in
      if limit \<le> int count
      then (case zrange_withscores C key 0 0 now r of
              (Inl _, r1) \<Rightarrow> (fail_open window limit now, r1)
            | (Inr oldest, r1) \<Rightarrow>
                (let reset_at = (case oldest of e # _ \<Rightarrow> snd e + of_int window | [] \<Rightarrow> now + of_int window)
                 in (\<lparr>rl_allowed = False, rl_limit = limit, rl_remaining = 0, rl_reset = trunc_rat reset_at,
                      rl_retry_after = Some (max 1 (trunc_rat (reset_at - now)))\<rparr>, r1)))
      else (case pipe_execute C [PipeZadd key (limit_member fr now uuid) now, PipeExpire key window] now r of
              (Inl _, r1) \<Rightarrow> (fail_open window limit now, r1)
            | (Inr _, r1) \<Rightarrow>
                (\<lparr>rl_allowed = True, rl_limit = limit, rl_remaining = max 0 (limit - int count - 1),
                  rl_reset = trunc_rat (now + of_int window), rl_retry_after = None\<rparr>, r1)))"

text \<open>One after the other, the two turns are the check.\<close>

lemma check_turns:
  "check C window fr agent limit now uuid r =
     (case check_count C window agent now r of
        (Inl _, r1) \<Rightarrow> (fail_open window limit now, r1)
      | (Inr count, r1) \<Rightarrow> check_decide C window fr agent limit now uuid count r1)"
  by (auto simp: check_def check_count_def check_decide_def Let_def split: prod.split sum.split)

section \<open>A burst\<close>









end
