(* ===== verification/Gateway_Turns.thy ===== *)
theory Gateway_Turns
  imports Gateway_Cases Limiter_Overlap
begin

text \<open>
  Requests served at the same time.  The gateway is one \<open>asyncio\<close> loop: a handler runs alone from
  one \<open>await\<close> to the next, and there any other request may go on.  Here the middlewares and the two
  handlers that act (\<open>/mcp\<close> and the decision callback) are cut at their awaits into turns; a
  \<open>task\<close> says where a request stands and what its handler holds there.  A command sent to Redis
  or to the database takes effect at the start of the turn that resumes with its reply.  The audit
  transaction is one turn, made under the advisory lock that \<open>Gateway_Overlap\<close> makes it wait for;
  \<open>Audit_Writers\<close> shows that overlapping transactions are as if serial.

  Turn by turn without interruption a request is served exactly as by \<open>app\<close>, and every request is
  answered after at most eight turns of its own.
\<close>

section \<open>Where a request stands\<close>

datatype stage =
    Admitted                                        \<comment> \<open>before its handler\<close>
  | Asking json ToolCallContext string              \<comment> \<open>OPA is asked: request id, context, tool\<close>
  | Storing call PolicyDecision                     \<comment> \<open>the pending approval is being stored\<close>
  | Notifying call PolicyDecision Approval          \<comment> \<open>and announced\<close>
  | Recording AuditEvent "http_response result"     \<comment> \<open>the row is being written, then this answer\<close>
  | Reading string ApprovalDecisionRequest          \<comment> \<open>a callback reads its approval\<close>
  | Resolving string ApprovalDecisionRequest Approval   \<comment> \<open>writes its decision\<close>
  | Resuming ApprovalDecisionRequest Approval       \<comment> \<open>is about to act on it\<close>
  | Concluding Approval AuditEvent string "string \<times> json" string

datatype task =
    Arrived
  | Limiting Agent_data rat                         \<comment> \<open>the limiter counts, with its \<open>now\<close>\<close>
  | Counted Agent_data rat nat                      \<comment> \<open>and has the count\<close>
  | Serving "RateLimitResult option" http_request stage
  | Answered "http_response result"

fun turns_left_stage :: "stage \<Rightarrow> nat" where
  "turns_left_stage Admitted = 5"
| "turns_left_stage (Asking _ _ _) = 4"
| "turns_left_stage (Reading _ _) = 4"
| "turns_left_stage (Storing _ _) = 3"
| "turns_left_stage (Resolving _ _ _) = 3"
| "turns_left_stage (Notifying _ _ _) = 2"
| "turns_left_stage (Resuming _ _) = 2"
| "turns_left_stage _ = 1"

fun turns_left :: "task \<Rightarrow> nat" where
  "turns_left Arrived = 8"
| "turns_left (Limiting _ _) = 7"
| "turns_left (Counted _ _ _) = 6"
| "turns_left (Serving _ _ st) = turns_left_stage st"
| "turns_left (Answered _) = 0"

section \<open>The handlers up to their first await\<close>

text \<open>\<open>/mcp\<close> until it asks the policy: an answer, or the call to ask about.\<close>

definition call_front ::
  "('r, 'x) config \<Rightarrow> env \<Rightarrow> Agent_data \<Rightarrow> json \<Rightarrow> json
     \<Rightarrow> http_response result + (json \<times> ToolCallContext \<times> string)" where
  "call_front c e agent rpc_id params =
     (case intercept_tool_call params agent (e_now e) of
        Inl (MissingParamError field msg) \<Rightarrow>
          Inl (invalid_params rpc_id [(''field'', JStr field), (''error'', JStr msg)])
      | Inl ex \<Rightarrow> Inl (Inl ex)
      | Inr ctx \<Rightarrow>
          (case context_environment ctx of
             Inl ex \<Rightarrow> Inl (Inl ex)
           | Inr _ \<Rightarrow>
               (case known_tool (c_tools c) (ctx_tool_name ctx) of
                  Inl ex \<Rightarrow> Inl (Inl ex)
                | Inr None \<Rightarrow>
                    Inl (invalid_params rpc_id
                       [(''field'', JStr ''name''),
                        (''error'', JStr (''unknown tool '' @ quoted (py_str (c_fr c) (ctx_tool_name ctx))))])
                | Inr (Some tool) \<Rightarrow>
                    if tool \<notin> set (allowed_tools agent)
                    then Inl (forbidden_tool rpc_id (ident_str (agent_id agent)) tool)
                    else Inr (rpc_id, ctx, tool))))"

definition mcp_front ::
  "('r, 'x) config \<Rightarrow> env \<Rightarrow> http_request \<Rightarrow> http_response result + (json \<times> ToolCallContext \<times> string)" where
  "mcp_front c e req =
     (case c_body c (req_bytes req) of
        BadJson \<Rightarrow> Inl (respond (rpc_error JNull (-32700) ''Parse error'' None) 400)
      | BadEncoding m \<Rightarrow> Inl (Inl (PyError ValueError m))
      | JsonBody (JObj body) \<Rightarrow>
          (let rpc_id = dict_get body ''id''; meth = dict_get body ''method'';
               params = py_or (dict_get body ''params'') (JObj []) in
           if \<not> truthy meth
           then Inl (respond (rpc_error rpc_id (-32600) ''Invalid Request: missing method'' None) 400)
           else
             (case req_agent req of
                None \<Rightarrow> Inl (Inl no_agent)
              | Some agent \<Rightarrow>
                  if meth = JStr ''tools/list'' then Inl (tools_list c agent rpc_id)
                  else if meth = JStr ''tools/call'' then call_front c e agent rpc_id params
                  else Inl (method_not_found c rpc_id meth)))
      | JsonBody _ \<Rightarrow> Inl (respond (rpc_error JNull (-32600) ''Invalid Request'' None) 400))"

text \<open>The callback until it reads the approval.\<close>

definition decide_front ::
  "('r, 'x) config \<Rightarrow> env \<Rightarrow> http_request \<Rightarrow> http_response result + ApprovalDecisionRequest" where
  "decide_front c e req =
     (case verify_signature (c_secret c) (e_now e) (header req ''x-slack-request-timestamp'')
             (req_bytes req) (header req ''x-slack-signature'') of
        Inl ex \<Rightarrow> Inl (Inl ex)
      | Inr False \<Rightarrow> Inl (respond (JObj [(''error'', JStr ''invalid or missing Slack signature'')]) 401)
      | Inr True \<Rightarrow>
          (case c_validate c (req_bytes req) of
             Inl m \<Rightarrow> Inl (respond (JObj [(''error'', JStr (''invalid request body: '' @ m))]) 400)
           | Inr p \<Rightarrow>
               if dr_decision p \<notin> {''approve'', ''deny''}
               then Inl (respond (JObj [(''error'', JStr (''decision must be '' @ quoted ''approve'' @ '' or '' @ quoted ''deny''))]) 400)
               else Inr p))"


section \<open>A turn of a handler\<close>

text \<open>The executor runs in the turn that decides to run it; an answer or the next stage remains.\<close>

type_synonym progress = "http_response result + stage"

definition run_turn ::
  "('r, 'x) config \<Rightarrow> env \<Rightarrow> call \<Rightarrow> PolicyDecision \<Rightarrow> ('r, 'x) world \<Rightarrow> progress \<times> ('r, 'x) world" where
  "run_turn c e k d w =
     (let (outcome, x) = execute_tool (c_tools c) (ca_tool k) (ca_args k) (w_ext w) in
      (case outcome of
         Executor_error t m \<Rightarrow>
           (case ERROR_TYPE_STATUS t of
              None \<Rightarrow> Inl (Inl (PyError KeyError (quoted t)))
            | Some status \<Rightarrow>
                Inr (Recording (call_event e k (decision_label t) (Some m) None None)
                  (respond (executor_error_body (ca_rpc_id k) (''Executor error: '' @ m) m t) status)))
       | Unhandled_error m \<Rightarrow>
           Inr (Recording (call_event e k ''error'' (Some m) None None)
             (respond (executor_error_body (ca_rpc_id k) ''Executor error'' m ''upstream_error'') 500))
       | Success result \<Rightarrow>
           Inr (Recording (call_event e k ''allowed'' (Some (dec_reason d)) (Some result) None)
             (respond (rpc_result (ca_rpc_id k) (JObj result)) 200)), w\<lparr>w_ext := x\<rparr>))"

definition decided_turn ::
  "('r, 'x) config \<Rightarrow> env \<Rightarrow> call \<Rightarrow> PolicyDecision \<Rightarrow> ('r, 'x) world \<Rightarrow> progress \<times> ('r, 'x) world" where
  "decided_turn c e k d w =
     (if dec_require_approval d then (Inr (Storing k d), w)
      else if \<not> dec_allow d
      then (Inr (Recording (call_event e k ''denied'' (Some (dec_reason d)) None None)
              (respond (rpc_error (ca_rpc_id k) (-32603) ''Tool call denied by policy''
                 (Some (JObj [(''reason'', JStr (dec_reason d)), (''policy_decision'', JStr ''deny'')]))) 403)), w)
      else run_turn c e k d w)"

definition storing_turn ::
  "('r, 'x) config \<Rightarrow> env \<Rightarrow> call \<Rightarrow> PolicyDecision \<Rightarrow> ('r, 'x) world \<Rightarrow> progress \<times> ('r, 'x) world" where
  "storing_turn c e k d w =
     (let (x, r, ms) = create_pending_approval (c_redis c) (c_fr c) (e_now e) (e_uuid e) (ca_agent_id k)
                         (ca_role k) (ca_tool k) (ca_args k) (dec_reason d) (w_redis w) (w_metrics w)
      in (case x of Inl ex \<Rightarrow> Inl (Inl ex) | Inr a \<Rightarrow> Inr (Notifying k d a),
          w\<lparr>w_redis := r, w_metrics := ms\<rparr>))"

definition notifying_turn ::
  "('r, 'x) config \<Rightarrow> env \<Rightarrow> call \<Rightarrow> PolicyDecision \<Rightarrow> Approval \<Rightarrow> ('r, 'x) world
     \<Rightarrow> progress \<times> ('r, 'x) world" where
  "notifying_turn c e k d a w =
     (let (x, sent) = send_approval_request (c_fr c) (c_slack_url c) (c_slack_post c) a (w_slack w)
      in (case x of
            Inl ex \<Rightarrow> Inl (Inl ex)
          | Inr _ \<Rightarrow>
              Inr (Recording (call_event e k ''pending_approval'' (Some (dec_reason d)) None (Some (ap_id a)))
                (respond (pending_body (ca_rpc_id k) a) 202)), w\<lparr>w_slack := sent\<rparr>))"

text \<open>The two answers of a callback that does not decide.\<close>

definition undecided_answer :: "Approval option \<times> decide_outcome \<Rightarrow> http_response result" where
  "undecided_answer out =
     (case out of
        (Some a, AlreadyDecided) \<Rightarrow>
          respond (JObj [(''error'', JStr ''approval already decided''), (''status'', JStr (ap_status a))]) 409
      | _ \<Rightarrow> respond (JObj [(''error'', JStr ''approval not found or expired'')]) 410)"

definition reading_turn ::
  "('r, 'x) config \<Rightarrow> env \<Rightarrow> string \<Rightarrow> ApprovalDecisionRequest \<Rightarrow> ('r, 'x) world
     \<Rightarrow> progress \<times> ('r, 'x) world" where
  "reading_turn c e i p w =
     (let (x, r) = get_approval (c_redis c) (c_fp c) (e_now e) i (w_redis w)
      in (case x of
            Inl ex \<Rightarrow> Inl (Inl ex)
          | Inr ao \<Rightarrow>
              (case decide_guard (e_now e) ao of
                 Inl out \<Rightarrow> Inl (undecided_answer out)
               | Inr a \<Rightarrow> Inr (Resolving i p a)), w\<lparr>w_redis := r\<rparr>))"

definition resolving_turn ::
  "('r, 'x) config \<Rightarrow> env \<Rightarrow> string \<Rightarrow> ApprovalDecisionRequest \<Rightarrow> Approval \<Rightarrow> ('r, 'x) world
     \<Rightarrow> progress \<times> ('r, 'x) world" where
  "resolving_turn c e i p a w =
     (let (x, r, ms) = decide_write (c_redis c) (c_fr c) (e_later e) i (dr_decision p) (dr_decided_by p) a
                         (w_redis w) (w_metrics w)
      in (case x of
            Inl ex \<Rightarrow> Inl (Inl ex)
          | Inr (Some a', Decided) \<Rightarrow> Inr (Resuming p a')
          | Inr out \<Rightarrow> Inl (undecided_answer out), w\<lparr>w_redis := r, w_metrics := ms\<rparr>))"

definition resuming_turn ::
  "('r, 'x) config \<Rightarrow> env \<Rightarrow> ApprovalDecisionRequest \<Rightarrow> Approval \<Rightarrow> ('r, 'x) world
     \<Rightarrow> progress \<times> ('r, 'x) world" where
  "resuming_turn c e p a w =
     (if ap_status a = ''denied''
      then (Inr (Concluding a (approval_event e a ''approval_denied'' (Some (denial_reason p)) None)
              ''denied'' (''reason'', JStr (denial_reason p)) ''denied''), w)
      else
        (let (outcome, x) = execute_tool (c_tools c) (ap_tool_name a) (ap_arguments a) (w_ext w)
         in (Inr (case outcome of
               Success result \<Rightarrow>
                 Concluding a (approval_event e a ''allowed'' (Some (''approved by '' @ dr_decided_by p)) (Some result))
                   ''approved'' (''result'', JObj result) ''approved''
             | Executor_error t m \<Rightarrow>
                 Concluding a (approval_event e a (decision_label t) (Some m) None)
                   ''error'' (''error'', JStr m) ''approved''
             | Unhandled_error m \<Rightarrow>
                 Concluding a (approval_event e a ''error'' (Some m) None)
                   ''error'' (''error'', JStr m) ''approved''), w\<lparr>w_ext := x\<rparr>)))"

definition handler_turn ::
  "('r, 'x) config \<Rightarrow> env \<Rightarrow> (string \<Rightarrow> int option) \<Rightarrow> (http_request \<Rightarrow> http_response + audit_query)
     \<Rightarrow> ('r, 'x) world handler \<Rightarrow> http_request \<Rightarrow> stage \<Rightarrow> ('r, 'x) world \<Rightarrow> progress \<times> ('r, 'x) world" where
  "handler_turn c e fromiso query other req st w =
     (case st of
        Admitted \<Rightarrow>
          (case route (req_method req) (req_path req) of
             EpMcp \<Rightarrow>
               (case mcp_front c e req of
                  Inl x \<Rightarrow> (Inl x, w) | Inr (i, ctx, tool) \<Rightarrow> (Inr (Asking i ctx tool), w))
           | EpDecide i \<Rightarrow>
               (case decide_front c e req of Inl x \<Rightarrow> (Inl x, w) | Inr p \<Rightarrow> (Inr (Reading i p), w))
           | _ \<Rightarrow> apfst Inl (routes c e fromiso query other req w))
      | Asking i ctx tool \<Rightarrow>
          (case evaluate_policy (c_fr c) (c_opa c) ctx (w_metrics w) of
             (Inl ex, ms) \<Rightarrow> (Inl (Inl ex), w\<lparr>w_metrics := ms\<rparr>)
           | (Inr d, ms) \<Rightarrow> decided_turn c e (call_of i ctx tool) d (w\<lparr>w_metrics := ms\<rparr>))
      | Storing k d \<Rightarrow> storing_turn c e k d w
      | Notifying k d a \<Rightarrow> notifying_turn c e k d a w
      | Recording ev x \<Rightarrow> apfst Inl (audit_then c e ev x w)
      | Reading i p \<Rightarrow> reading_turn c e i p w
      | Resolving i p a \<Rightarrow> resolving_turn c e i p a w
      | Resuming p a \<Rightarrow> resuming_turn c e p a w
      | Concluding a ev status extra answer \<Rightarrow> apfst Inl (conclude c e a ev status extra answer w))"

section \<open>A turn of a request\<close>

text \<open>The answer on its way out: the quota headers, then the log line.\<close>

definition with_quota :: "RateLimitResult option \<Rightarrow> http_response result \<Rightarrow> http_response result" where
  "with_quota quota x =
     (case (quota, x) of (Some res, Inr resp) \<Rightarrow> Inr (quota_headers res resp) | _ \<Rightarrow> x)"

definition answer_with ::
  "env \<Rightarrow> http_request \<Rightarrow> RateLimitResult option \<Rightarrow> http_response result \<Rightarrow> ('r, 'x) world
     \<Rightarrow> task \<times> ('r, 'x) world" where
  "answer_with e req quota x w =
     (let y = with_quota quota x in (Answered y, logged e req y w))"

text \<open>The limiter's verdict: go on, or 429.\<close>

definition limited_turn ::
  "env \<Rightarrow> http_request \<Rightarrow> Agent_data \<Rightarrow> RateLimitResult \<Rightarrow> ('r, 'x) world \<Rightarrow> task \<times> ('r, 'x) world" where
  "limited_turn e req agent res w =
     (if rl_allowed res then (Serving (Some res) (req\<lparr>req_agent := Some agent\<rparr>) Admitted, w)
      else answer_with e req None (Inr (too_many res))
             (w\<lparr>w_metrics := w_metrics w @ [rate_limit_hits_total (ident_str (agent_id agent))]\<rparr>))"

definition arrived_turn ::
  "env \<Rightarrow> http_request \<Rightarrow> ('r, 'x) world \<Rightarrow> task \<times> ('r, 'x) world" where
  "arrived_turn e req w =
     (if is_public (req_path req) then (Serving None req Admitted, w)
      else
        (case Option.bind (header req ''x-api-key'') API_KEYS of
           None \<Rightarrow> answer_with e req None (Inr unauthorized) w
         | Some agent \<Rightarrow>
             if req_path req \<in> set RATE_LIMITED_PATHS then (Limiting agent (e_limit_now e), w)
             else (Serving None (req\<lparr>req_agent := Some agent\<rparr>) Admitted, w)))"

definition task_turn ::
  "('r, 'x) config \<Rightarrow> env \<Rightarrow> (string \<Rightarrow> int option) \<Rightarrow> (http_request \<Rightarrow> http_response + audit_query)
     \<Rightarrow> ('r, 'x) world handler \<Rightarrow> http_request \<Rightarrow> task \<Rightarrow> ('r, 'x) world \<Rightarrow> task \<times> ('r, 'x) world" where
  "task_turn c e fromiso query other req tk w =
     (case tk of
        Arrived \<Rightarrow> arrived_turn e req w
      | Limiting agent now \<Rightarrow>
          (case check_count (c_redis c) RATE_LIMIT_WINDOW_SECONDS (ident_str (agent_id agent)) now (w_redis w) of
             (Inl _, r) \<Rightarrow>
               limited_turn e req agent (fail_open RATE_LIMIT_WINDOW_SECONDS (rate_limit_rpm agent) now)
                 (w\<lparr>w_redis := r\<rparr>)
           | (Inr n, r) \<Rightarrow> (Counted agent now n, w\<lparr>w_redis := r\<rparr>))
      | Counted agent now n \<Rightarrow>
          (case check_decide (c_redis c) RATE_LIMIT_WINDOW_SECONDS (c_fr c) (ident_str (agent_id agent))
                  (rate_limit_rpm agent) now (e_limit_uuid e) n (w_redis w) of
             (res, r) \<Rightarrow> limited_turn e req agent res (w\<lparr>w_redis := r\<rparr>))
      | Serving quota req' st \<Rightarrow>
          (case handler_turn c e fromiso query other req' st w of
             (Inl x, w') \<Rightarrow> answer_with e req quota x w'
           | (Inr st', w') \<Rightarrow> (Serving quota req' st', w'))
      | Answered x \<Rightarrow> (Answered x, w))"


section \<open>Without interruption\<close>

text \<open>What remains of a handler at a stage, in terms of the handlers of \<open>Gateway\<close> and \<open>Endpoints\<close>.\<close>

definition act_on ::
  "('r, 'x) config \<Rightarrow> env \<Rightarrow> ApprovalDecisionRequest \<Rightarrow> Approval \<Rightarrow> ('r, 'x) world
     \<Rightarrow> http_response result \<times> ('r, 'x) world" where
  "act_on c e p a w = (if ap_status a = ''denied'' then decide_denied c e p a w else decide_approved c e p a w)"

definition announce ::
  "('r, 'x) config \<Rightarrow> env \<Rightarrow> call \<Rightarrow> PolicyDecision \<Rightarrow> Approval \<Rightarrow> ('r, 'x) world
     \<Rightarrow> http_response result \<times> ('r, 'x) world" where
  "announce c e k d a w =
     (case send_approval_request (c_fr c) (c_slack_url c) (c_slack_post c) a (w_slack w) of
        (Inl ex, sent) \<Rightarrow> (Inl ex, w\<lparr>w_slack := sent\<rparr>)
      | (Inr _, sent) \<Rightarrow>
          audit_then c e (call_event e k ''pending_approval'' (Some (dec_reason d)) None (Some (ap_id a)))
            (respond (pending_body (ca_rpc_id k) a) 202) (w\<lparr>w_slack := sent\<rparr>))"

definition resolve_rest ::
  "('r, 'x) config \<Rightarrow> env \<Rightarrow> string \<Rightarrow> ApprovalDecisionRequest \<Rightarrow> Approval \<Rightarrow> ('r, 'x) world
     \<Rightarrow> http_response result \<times> ('r, 'x) world" where
  "resolve_rest c e i p a w =
     (case decide_write (c_redis c) (c_fr c) (e_later e) i (dr_decision p) (dr_decided_by p) a
             (w_redis w) (w_metrics w) of
        (Inl ex, r, ms) \<Rightarrow> (Inl ex, w\<lparr>w_redis := r, w_metrics := ms\<rparr>)
      | (Inr (Some a', Decided), r, ms) \<Rightarrow> act_on c e p a' (w\<lparr>w_redis := r, w_metrics := ms\<rparr>)
      | (Inr out, r, ms) \<Rightarrow> (undecided_answer out, w\<lparr>w_redis := r, w_metrics := ms\<rparr>))"

definition rest_of ::
  "('r, 'x) config \<Rightarrow> env \<Rightarrow> (string \<Rightarrow> int option) \<Rightarrow> (http_request \<Rightarrow> http_response + audit_query)
     \<Rightarrow> ('r, 'x) world handler \<Rightarrow> http_request \<Rightarrow> stage \<Rightarrow> ('r, 'x) world
     \<Rightarrow> http_response result \<times> ('r, 'x) world" where
  "rest_of c e fi q oth req st w =
     (case st of
        Admitted \<Rightarrow> routes c e fi q oth req w
      | Asking i ctx tool \<Rightarrow>
          (case evaluate_policy (c_fr c) (c_opa c) ctx (w_metrics w) of
             (Inl ex, ms) \<Rightarrow> (Inl ex, w\<lparr>w_metrics := ms\<rparr>)
           | (Inr d, ms) \<Rightarrow> mcp_decided c e (call_of i ctx tool) d (w\<lparr>w_metrics := ms\<rparr>))
      | Storing k d \<Rightarrow> mcp_hold c e k d w
      | Notifying k d a \<Rightarrow> announce c e k d a w
      | Recording ev x \<Rightarrow> audit_then c e ev x w
      | Reading i p \<Rightarrow> decide_payload c e i p w
      | Resolving i p a \<Rightarrow> resolve_rest c e i p a w
      | Resuming p a \<Rightarrow> act_on c e p a w
      | Concluding a ev status extra answer \<Rightarrow> conclude c e a ev status extra answer w)"

lemma call_front_mcp_call:
  "mcp_call c e agent i params w =
     (case call_front c e agent i params of
        Inl x \<Rightarrow> (x, w)
      | Inr (i, ctx, tool) \<Rightarrow> rest_of c e fi q oth req (Asking i ctx tool) w)"
  unfolding mcp_call_def call_front_def rest_of_def call_of_def
  by (simp split: sum.split exn.split option.split)

lemma mcp_front_mcp:
  "mcp c e req w =
     (case mcp_front c e req of
        Inl x \<Rightarrow> (x, w)
      | Inr (i, ctx, tool) \<Rightarrow> rest_of c e fi q oth req (Asking i ctx tool) w)"
  by (simp add: mcp_def mcp_dispatch_def mcp_front_def Let_def
      call_front_mcp_call [of c e _ _ _ w fi q oth req] split: body_reply.split json.split option.split)

lemma decide_front_endpoint:
  "decide_endpoint c e i req w =
     (case decide_front c e req of
        Inl x \<Rightarrow> (x, w)
      | Inr p \<Rightarrow> decide_payload c e i p w)"
  by (simp add: decide_endpoint_def decide_front_def decide_payload_def split: sum.split bool.split)

lemma rest_run_turn:
  "run_turn c e k d w = (y, w') \<Longrightarrow>
     mcp_run c e k d w = (case y of Inl x \<Rightarrow> (x, w') | Inr st \<Rightarrow> rest_of c e fi q oth req st w')"
  by (auto simp: run_turn_def mcp_run_def rest_of_def Let_def split: prod.splits ExecutionOutcome.splits option.splits)

lemma rest_decided_turn:
  "decided_turn c e k d w = (y, w') \<Longrightarrow>
     mcp_decided c e k d w = (case y of Inl x \<Rightarrow> (x, w') | Inr st \<Rightarrow> rest_of c e fi q oth req st w')"
  using rest_run_turn [of c e k d w y w' fi q oth req]
  by (auto simp: decided_turn_def mcp_decided_def mcp_deny_def rest_of_def split: if_splits)

lemma rest_storing_turn:
  "storing_turn c e k d w = (y, w') \<Longrightarrow>
     mcp_hold c e k d w = (case y of Inl x \<Rightarrow> (x, w') | Inr st \<Rightarrow> rest_of c e fi q oth req st w')"
  by (auto simp: storing_turn_def mcp_hold_def rest_of_def announce_def Let_def split: prod.splits sum.splits)

lemma rest_notifying_turn:
  "notifying_turn c e k d a w = (y, w') \<Longrightarrow>
     announce c e k d a w = (case y of Inl x \<Rightarrow> (x, w') | Inr st \<Rightarrow> rest_of c e fi q oth req st w')"
  by (auto simp: notifying_turn_def rest_of_def announce_def Let_def split: prod.splits sum.splits)

lemma decide_payload_turns:
  assumes "dr_decision p \<in> {''approve'', ''deny''}"
  shows "decide_payload c e i p w =
    (case reading_turn c e i p w of
       (Inl x, w') \<Rightarrow> (x, w')
     | (Inr st, w') \<Rightarrow> rest_of c e fi q oth req st w')"
proof -
  have guard: "\<And>ao out. decide_guard (e_now e) ao = Inl out \<Longrightarrow>
      (\<exists>a. out = (Some a, AlreadyDecided)) \<or> snd out = NotFound"
    by (auto simp: decide_guard_def split: option.splits if_splits)
  have wr: "\<And>r ms a ao oc r' ms'. decide_write (c_redis c) (c_fr c) (e_later e) i (dr_decision p) (dr_decided_by p) a r ms
      = (Inr (ao, oc), r', ms') \<Longrightarrow> \<exists>a'. ao = Some a' \<and> oc = Decided"
    by (auto simp: decide_write_def Let_def split: prod.splits sum.splits)
  obtain x r where g: "get_approval (c_redis c) (c_fp c) (e_now e) i (w_redis w) = (x, r)" by fastforce
  note turn = reading_turn_def decide_payload_def decide_approval_def Let_def
  show ?thesis
  proof (cases x)
    case (Inl ex)
    then show ?thesis using g assms by (auto simp: turn)
  next
    case (Inr ao)
    show ?thesis
    proof (cases "decide_guard (e_now e) ao")
      case refused: (Inl out)
      then have "(\<exists>a. out = (Some a, AlreadyDecided)) \<or> snd out = NotFound" by (rule guard)
      then show ?thesis using g Inr refused assms
        by (cases out) (auto simp: turn undecided_answer_def split: option.splits)
    next
      case found: (Inr a)
      have "reading_turn c e i p w = (Inr (Resolving i p a), w\<lparr>w_redis := r\<rparr>)"
        using g Inr found by (simp add: reading_turn_def)
      then show ?thesis using g Inr found assms
        by (auto simp: decide_payload_def decide_approval_def rest_of_def resolve_rest_def undecided_answer_def
            act_on_def Let_def split: prod.splits sum.splits option.splits decide_outcome.splits dest: wr)
    qed
  qed
qed


text \<open>A turn leaves the rest of the handler as it was, and fewer turns.\<close>

fun stage_wf :: "stage \<Rightarrow> bool" where
  "stage_wf (Reading i p) \<longleftrightarrow> dr_decision p \<in> {''approve'', ''deny''}"
| "stage_wf _ \<longleftrightarrow> True"

lemma decide_front_decision:
  "decide_front c e req = Inr p \<Longrightarrow> dr_decision p \<in> {''approve'', ''deny''}"
  by (auto simp: decide_front_def split: sum.splits bool.splits if_splits)

lemma handler_turn_fewer:
  assumes "handler_turn c e fi q oth req st w = (Inr st', w')"
  shows "turns_left_stage st' < turns_left_stage st"
  using assms
  by (cases st) (auto simp: handler_turn_def decided_turn_def run_turn_def storing_turn_def notifying_turn_def
      reading_turn_def resolving_turn_def resuming_turn_def Let_def apfst_def map_prod_def
      split: endpoint.splits sum.splits prod.splits ExecutionOutcome.splits option.splits decide_outcome.splits if_splits)

lemma handler_turn_wf:
  assumes "handler_turn c e fi q oth req st w = (Inr st', w')"
  shows "stage_wf st'"
  using assms
  by (cases st) (auto simp: handler_turn_def decided_turn_def run_turn_def storing_turn_def notifying_turn_def
      reading_turn_def resolving_turn_def resuming_turn_def Let_def apfst_def map_prod_def
      dest: decide_front_decision
      split: endpoint.splits sum.splits prod.splits ExecutionOutcome.splits option.splits decide_outcome.splits if_splits)

lemma handler_turn_rest:
  assumes "handler_turn c e fi q oth req st w = (y, w')" "stage_wf st"
  shows "rest_of c e fi q oth req st w =
    (case y of Inl x \<Rightarrow> (x, w') | Inr st' \<Rightarrow> rest_of c e fi q oth req st' w')"
proof (cases st)
  case Admitted
  show ?thesis
  proof (cases "route (req_method req) (req_path req)")
    case EpMcp
    then have "rest_of c e fi q oth req st w = mcp c e req w" by (simp add: Admitted rest_of_def routes_def)
    then show ?thesis
      using assms(1) EpMcp
      by (auto simp: Admitted handler_turn_def mcp_front_mcp [of c e req w fi q oth] split: sum.splits prod.splits)
  next
    case (EpDecide i)
    then have "rest_of c e fi q oth req st w = decide_endpoint c e i req w"
      by (simp add: Admitted rest_of_def routes_def)
    then show ?thesis
      using assms(1) EpDecide
      by (auto simp: Admitted handler_turn_def decide_front_endpoint rest_of_def split: sum.splits)
  qed (use assms(1) in \<open>auto simp: Admitted handler_turn_def rest_of_def apfst_def map_prod_def split: prod.splits\<close>)
next
  case (Asking i ctx tool)
  show ?thesis
  proof (cases "evaluate_policy (c_fr c) (c_opa c) ctx (w_metrics w)")
    case (Pair a ms)
    show ?thesis
    proof (cases a)
      case (Inr d)
      with assms(1) Pair have "decided_turn c e (call_of i ctx tool) d (w\<lparr>w_metrics := ms\<rparr>) = (y, w')"
        by (simp add: Asking handler_turn_def)
      from rest_decided_turn [OF this, of fi q oth req] show ?thesis
        by (simp add: Asking rest_of_def [of _ _ _ _ _ _ "Asking _ _ _"] Pair Inr)
    qed (use assms(1) Pair in \<open>auto simp: Asking handler_turn_def rest_of_def\<close>)
  qed
next
  case (Storing k d)
  with assms(1) rest_storing_turn [of c e k d w y w' fi q oth req] show ?thesis
    by (simp add: handler_turn_def rest_of_def [of _ _ _ _ _ _ "Storing _ _"])
next
  case (Notifying k d a)
  with assms(1) rest_notifying_turn [of c e k d a w y w' fi q oth req] show ?thesis
    by (simp add: handler_turn_def rest_of_def [of _ _ _ _ _ _ "Notifying _ _ _"])
next
  case (Reading i p)
  with assms decide_payload_turns [of p c e i w fi q oth req] show ?thesis
    by (simp add: handler_turn_def rest_of_def [of _ _ _ _ _ _ "Reading _ _"] split: sum.splits)
next
  case (Resolving i p a)
  with assms(1) show ?thesis
    by (auto simp: handler_turn_def rest_of_def resolving_turn_def resolve_rest_def Let_def
        split: prod.splits sum.splits option.splits decide_outcome.splits)
next
  case (Resuming p a)
  with assms(1) show ?thesis
    by (auto simp: handler_turn_def rest_of_def resuming_turn_def act_on_def decide_denied_def decide_approved_def
        Let_def split: prod.splits ExecutionOutcome.splits if_splits)
qed (use assms(1) in \<open>auto simp: handler_turn_def rest_of_def apfst_def map_prod_def split: prod.splits\<close>)


text \<open>And what remains of a request.\<close>

definition rest_of_task ::
  "('r, 'x) config \<Rightarrow> env \<Rightarrow> (string \<Rightarrow> int option) \<Rightarrow> (http_request \<Rightarrow> http_response + audit_query)
     \<Rightarrow> ('r, 'x) world handler \<Rightarrow> http_request \<Rightarrow> task \<Rightarrow> ('r, 'x) world
     \<Rightarrow> http_response result \<times> ('r, 'x) world" where
  "rest_of_task c e fi q oth req tk w =
     (let serve = (\<lambda>quota req' st w.
            let (x, w1) = rest_of c e fi q oth req' st w; y = with_quota quota x in (y, logged e req y w1));
          verdict = (\<lambda>agent res r.
            if rl_allowed res then serve (Some res) (req\<lparr>req_agent := Some agent\<rparr>) Admitted (w\<lparr>w_redis := r\<rparr>)
            else let w1 = w\<lparr>w_redis := r, w_metrics := w_metrics w @ [rate_limit_hits_total (ident_str (agent_id agent))]\<rparr>
                 in (Inr (too_many res), logged e req (Inr (too_many res)) w1))
      in case tk of
           Arrived \<Rightarrow> app c e fi q oth req w
         | Limiting agent now \<Rightarrow>
             (case check (c_redis c) RATE_LIMIT_WINDOW_SECONDS (c_fr c) (ident_str (agent_id agent)) (rate_limit_rpm agent)
                     now (e_limit_uuid e) (w_redis w) of (res, r) \<Rightarrow> verdict agent res r)
         | Counted agent now n \<Rightarrow>
             (case check_decide (c_redis c) RATE_LIMIT_WINDOW_SECONDS (c_fr c) (ident_str (agent_id agent))
                     (rate_limit_rpm agent) now (e_limit_uuid e) n (w_redis w) of (res, r) \<Rightarrow> verdict agent res r)
         | Serving quota req' st \<Rightarrow> serve quota req' st w
         | Answered x \<Rightarrow> (x, w))"

fun task_wf :: "task \<Rightarrow> bool" where
  "task_wf (Serving _ _ st) \<longleftrightarrow> stage_wf st"
| "task_wf _ \<longleftrightarrow> True"

lemma with_quota_simps [simp]:
  "with_quota None x = x" "with_quota quota (Inl ex) = Inl ex"
  "with_quota (Some res) (Inr resp) = Inr (quota_headers res resp)"
  by (simp_all add: with_quota_def split: option.split sum.split)

lemma fail_open_allowed [simp]: "rl_allowed (fail_open win limit now)"
  by (simp add: fail_open_def)

lemma limited_turn_fewer: "limited_turn e req a res w = (tk', w') \<Longrightarrow> turns_left tk' \<le> 5"
  by (auto simp: limited_turn_def answer_with_def Let_def split: if_splits)

lemma task_turn_fewer:
  assumes "task_turn c e fi q oth req tk w = (tk', w')" "turns_left tk > 0"
  shows "turns_left tk' < turns_left tk"
proof (cases tk)
  case Arrived
  with assms(1) show ?thesis
    by (auto simp: task_turn_def arrived_turn_def answer_with_def Let_def split: option.splits if_splits)
next
  case (Serving quota req' st)
  with assms show ?thesis
    by (auto simp: task_turn_def answer_with_def Let_def dest: handler_turn_fewer split: prod.splits sum.splits)
qed (use assms in \<open>auto simp: task_turn_def dest!: limited_turn_fewer split: prod.splits sum.splits\<close>)

lemma task_turn_wf:
  assumes "task_turn c e fi q oth req tk w = (tk', w')" "task_wf tk"
  shows "task_wf tk'"
  using assms
  by (cases tk) (auto simp: task_turn_def arrived_turn_def limited_turn_def answer_with_def Let_def
      dest: handler_turn_wf split: option.splits prod.splits sum.splits if_splits)

lemma rest_of_limited:
  assumes "limited_turn e req a res (w\<lparr>w_redis := r\<rparr>) = (tk', w')"
  shows "rest_of_task c e fi q oth req tk' w' =
    (if rl_allowed res
     then let (x, w1) = routes c e fi q oth (req\<lparr>req_agent := Some a\<rparr>) (w\<lparr>w_redis := r\<rparr>);
              y = with_quota (Some res) x in (y, logged e req y w1)
     else let w1 = w\<lparr>w_redis := r, w_metrics := w_metrics w @ [rate_limit_hits_total (ident_str (agent_id a))]\<rparr>
          in (Inr (too_many res), logged e req (Inr (too_many res)) w1))"
  using assms
  by (auto simp: limited_turn_def answer_with_def rest_of_task_def rest_of_def Let_def split: if_splits)

lemma rest_of_arrived:
  assumes "arrived_turn e req w = (tk', w')"
  shows "rest_of_task c e fi q oth req tk' w' = app c e fi q oth req w"
proof -
  have app: "app c e fi q oth req v =
      (let (x, w1) = authenticate (rate_limit c e (routes c e fi q oth)) req v in (x, logged e req x w1))" for v
    by (simp add: app_def log_requests_logged)
  show ?thesis
  proof (cases "is_public (req_path req)")
    case True
    then have "req_path req \<notin> set RATE_LIMITED_PATHS"
      using mcp_not_public by (auto simp: RATE_LIMITED_PATHS_def)
    then show ?thesis
      using assms True by (auto simp: app arrived_turn_def authenticate_def rate_limit_def rest_of_task_def rest_of_def)
  next
    case False
    note pub = this
    show ?thesis
    proof (cases "Option.bind (header req ''x-api-key'') API_KEYS")
      case None
      with pub assms(1) show ?thesis
        by (auto simp: app arrived_turn_def authenticate_def answer_with_def rest_of_task_def Let_def)
    next
      case (Some a)
      have au: "authenticate h req v = h (req\<lparr>req_agent := Some a\<rparr>) v" for h :: "('r, 'x) world handler" and v
        using pub Some by (simp add: authenticate_def)
      show ?thesis
        using assms pub Some
        by (auto simp: app au arrived_turn_def rate_limit_def rest_of_task_def rest_of_def Let_def
            split: prod.splits sum.splits if_splits)
    qed
  qed
qed


lemma rest_of_serving:
  assumes "rest_of c e fi q oth req' st w = rest_of c e fi q oth req' st' w'"
  shows "rest_of_task c e fi q oth req (Serving quota req' st) w = rest_of_task c e fi q oth req (Serving quota req' st') w'"
  by (simp add: rest_of_task_def assms)

lemma task_turn_rest:
  assumes "task_turn c e fi q oth req tk w = (tk', w')" "task_wf tk"
  shows "rest_of_task c e fi q oth req tk' w' = rest_of_task c e fi q oth req tk w"
proof (cases tk)
  case Arrived
  with assms(1) rest_of_arrived [of e req w tk' w' c fi q oth] show ?thesis
    by (simp add: task_turn_def rest_of_task_def [of _ _ _ _ _ _ Arrived])
next
  case (Limiting a now)
  obtain y r where k: "check_count (c_redis c) RATE_LIMIT_WINDOW_SECONDS (ident_str (agent_id a)) now (w_redis w) = (y, r)"
    by fastforce
  show ?thesis
  proof (cases y)
    case (Inl m)
    let ?f = "fail_open RATE_LIMIT_WINDOW_SECONDS (rate_limit_rpm a) now"
    have "limited_turn e req a ?f (w\<lparr>w_redis := r\<rparr>) = (tk', w')"
      using assms(1) by (simp add: Limiting task_turn_def k Inl)
    from rest_of_limited [OF this, of c fi q oth] show ?thesis
      by (simp add: Limiting rest_of_task_def [of _ _ _ _ _ _ "Limiting _ _"] check_turns k Inl rest_of_def Let_def)
  next
    case (Inr n)
    then have "tk' = Counted a now n" "w' = w\<lparr>w_redis := r\<rparr>"
      using assms(1) by (simp_all add: Limiting task_turn_def k)
    then show ?thesis by (simp add: Limiting rest_of_task_def check_turns k Inr Let_def split: prod.split)
  qed
next
  case (Counted a now n)
  obtain res r where k: "check_decide (c_redis c) RATE_LIMIT_WINDOW_SECONDS (c_fr c) (ident_str (agent_id a))
      (rate_limit_rpm a) now (e_limit_uuid e) n (w_redis w) = (res, r)" by fastforce
  have "limited_turn e req a res (w\<lparr>w_redis := r\<rparr>) = (tk', w')"
    using assms(1) by (simp add: Counted task_turn_def k)
  from rest_of_limited [OF this, of c fi q oth] show ?thesis
    by (simp add: Counted rest_of_task_def [of _ _ _ _ _ _ "Counted _ _ _"] k rest_of_def Let_def)
next
  case (Serving quota req' st)
  obtain y w1 where t: "handler_turn c e fi q oth req' st w = (y, w1)" by fastforce
  note r = handler_turn_rest [OF t]
  show ?thesis
  proof (cases y)
    case (Inl x)
    then show ?thesis
      using assms r t by (auto simp: Serving task_turn_def answer_with_def rest_of_task_def Let_def)
  next
    case (Inr st')
    then have "tk' = Serving quota req' st'" "w' = w1" using assms(1) t by (simp_all add: Serving task_turn_def)
    moreover have "rest_of c e fi q oth req' st w = rest_of c e fi q oth req' st' w1"
      using r assms(2) Inr by (simp add: Serving)
    ultimately show ?thesis using rest_of_serving Serving by metis
  qed
qed (use assms in \<open>simp add: task_turn_def\<close>)

text \<open>A request served turn by turn, alone.\<close>

definition serve_alone ::
  "('r, 'x) config \<Rightarrow> env \<Rightarrow> (string \<Rightarrow> int option) \<Rightarrow> (http_request \<Rightarrow> http_response + audit_query)
     \<Rightarrow> ('r, 'x) world handler \<Rightarrow> http_request \<Rightarrow> nat \<Rightarrow> task \<times> ('r, 'x) world \<Rightarrow> task \<times> ('r, 'x) world" where
  "serve_alone c e fi q oth req n = (\<lambda>(tk, w). task_turn c e fi q oth req tk w) ^^ n"

lemma serve_alone_rest:
  "turns_left tk \<le> n \<Longrightarrow> task_wf tk \<Longrightarrow>
     serve_alone c e fi q oth req n (tk, w) =
       (let (x, w') = rest_of_task c e fi q oth req tk w in (Answered x, w'))"
proof (induction n arbitrary: tk w)
  case 0
  then show ?case
    by (cases tk) (auto simp: serve_alone_def rest_of_task_def elim: turns_left_stage.elims)
next
  case (Suc n)
  obtain tk' w' where t: "task_turn c e fi q oth req tk w = (tk', w')" by fastforce
  have "turns_left tk' \<le> n"
  proof (cases "turns_left tk")
    case 0
    then obtain x where "tk = Answered x" by (cases tk) (auto elim: turns_left_stage.elims)
    then show ?thesis using t by (auto simp: task_turn_def)
  next
    case (Suc m)
    then show ?thesis using task_turn_fewer [OF t] Suc.prems(1) by linarith
  qed
  from Suc.IH [OF this task_turn_wf [OF t Suc.prems(2)]] show ?case
    using task_turn_rest [OF t Suc.prems(2)]
    by (simp add: serve_alone_def funpow_swap1 t)
qed

text \<open>
  Cut into turns, a request is served as before.  A request that is served turn by turn
  with no other request in between is answered within eight turns, and the answer and the world it
  leaves are those of the application.
\<close>

lemma served_alone_is_app:
  "serve_alone c e fi q oth req 8 (Arrived, w) =
     (let (x, w') = app c e fi q oth req w in (Answered x, w'))"
  using serve_alone_rest [of Arrived 8 c e fi q oth req w]
  by (simp add: rest_of_task_def)

end
