(* ===== verification/Gateway_Overlap.thy ===== *)
theory Gateway_Overlap
  imports Gateway_Turns Gateway_Run
begin

text \<open>
  Overlapping requests.  Any number of requests is served at once: at each step one of them makes
  its next turn, at a time that never goes back, and the others keep where they stand.  The
  invariant says for each stage what the request has established so far, and that every approval
  in Redis goes back to a request the policy wanted held.  What the systems behind the tools do is
  then accounted for under any interleaving, and a callback that comes after a decision runs
  nothing; what overlap does allow, two callbacks that read before either writes, is shown in
  \<open>Approvals\<close>.
\<close>

section \<open>The system\<close>

record ('r, 'x) gateway =
  gw_world :: "('r, 'x) world"
  gw_clock :: rat
  gw_task :: "nat \<Rightarrow> task"
  gw_lock :: "nat option"      \<comment> \<open>the request whose transaction holds the advisory lock\<close>

type_synonym job = "env \<times> http_request"

text \<open>The surroundings of a turn at time \<open>t\<close>: every clock shows \<open>t\<close>.\<close>

definition env_at :: "rat \<Rightarrow> env \<Rightarrow> env" where
  "env_at t e = e\<lparr>e_now := t, e_later := t, e_limit_now := t\<rparr>"

lemma env_at_simps [simp]:
  "e_now (env_at t e) = t" "e_later (env_at t e) = t" "e_limit_now (env_at t e) = t"
  "e_uuid (env_at t e) = e_uuid e" "e_limit_uuid (env_at t e) = e_limit_uuid e"
  by (simp_all add: env_at_def)

text \<open>
  Every audit transaction takes \<open>pg_advisory_xact_lock\<close> first, unless it gets no connection; the end of
  the transaction, however it ends, releases the lock.
\<close>

fun needs_lock :: "env \<Rightarrow> task \<Rightarrow> bool" where
  "needs_lock e (Serving quota req (Recording ev x)) \<longleftrightarrow> e_txn e \<noteq> Unreachable"
| "needs_lock e (Serving quota req (Concluding a ev status extra answer)) \<longleftrightarrow> e_txn e \<noteq> Unreachable"
| "needs_lock e tk \<longleftrightarrow> False"

definition lock_after :: "nat \<Rightarrow> nat option \<Rightarrow> nat option" where
  "lock_after k l = (if l = Some k then None else l)"

text \<open>A request makes its next turn, with the lock if it needs it; or it takes the lock when it is free.\<close>

inductive serve_step ::
  "('r, 'x) config \<Rightarrow> rat set \<Rightarrow> (string \<Rightarrow> int option) \<Rightarrow> (http_request \<Rightarrow> http_response + audit_query)
     \<Rightarrow> ('r, 'x) world handler \<Rightarrow> (nat \<Rightarrow> job) \<Rightarrow> nat \<Rightarrow> ('r, 'x) gateway \<Rightarrow> ('r, 'x) gateway \<Rightarrow> bool"
  for c clk fi q oth jobs where
  serve:
    "0 < turns_left (tks k) \<Longrightarrow> t \<in> clk \<Longrightarrow> t0 \<le> t \<Longrightarrow>
     task_turn c (env_at t (fst (jobs k))) fi q oth (snd (jobs k)) (tks k) w = (tk, w') \<Longrightarrow>
     (needs_lock (fst (jobs k)) (tks k) \<Longrightarrow> l = Some k) \<Longrightarrow>
     serve_step c clk fi q oth jobs k
       \<lparr>gw_world = w, gw_clock = t0, gw_task = tks, gw_lock = l\<rparr>
       \<lparr>gw_world = w', gw_clock = t, gw_task = tks(k := tk), gw_lock = lock_after k l\<rparr>"
| take_lock:
    "needs_lock (fst (jobs k)) (tks k) \<Longrightarrow> t \<in> clk \<Longrightarrow> t0 \<le> t \<Longrightarrow>
     serve_step c clk fi q oth jobs k
       \<lparr>gw_world = w, gw_clock = t0, gw_task = tks, gw_lock = None\<rparr>
       \<lparr>gw_world = w, gw_clock = t, gw_task = tks, gw_lock = Some k\<rparr>"

inductive_cases serve_stepE: "serve_step c clk fi q oth jobs k s s'"

definition serves ::
  "('r, 'x) config \<Rightarrow> rat set \<Rightarrow> (string \<Rightarrow> int option) \<Rightarrow> (http_request \<Rightarrow> http_response + audit_query)
     \<Rightarrow> ('r, 'x) world handler \<Rightarrow> (nat \<Rightarrow> job) \<Rightarrow> ('r, 'x) gateway \<Rightarrow> ('r, 'x) gateway \<Rightarrow> bool" where
  "serves c clk fi q oth jobs = (\<lambda>s s'. \<exists>k. serve_step c clk fi q oth jobs k s s')\<^sup>*\<^sup>*"

section \<open>The store of approvals under single commands\<close>

text \<open>Every approval stored under its own key satisfies \<open>P\<close>.\<close>

definition all_stored ::
  "('r \<Rightarrow> rat \<Rightarrow> string \<Rightarrow> string option) \<Rightarrow> (rat \<Rightarrow> string) \<Rightarrow> (string \<Rightarrow> rat) \<Rightarrow> (Approval \<Rightarrow> bool) \<Rightarrow> rat \<Rightarrow> 'r
     \<Rightarrow> bool" where
  "all_stored val fr fp P t r \<longleftrightarrow>
     (\<forall>i v. val r t (approval_key i) = Some v \<longrightarrow>
        (\<exists>a. v = approval_text fr a \<and> storable fr fp a \<and> ap_id a = i \<and> P a))"

definition same_approvals ::
  "('r \<Rightarrow> rat \<Rightarrow> string \<Rightarrow> string option) \<Rightarrow> rat \<Rightarrow> 'r \<Rightarrow> 'r \<Rightarrow> bool" where
  "same_approvals val t r r' \<longleftrightarrow> (\<forall>i. val r' t (approval_key i) = val r t (approval_key i))"

lemma same_approvals_refl [simp, intro]: "same_approvals val t r r"
  by (simp add: same_approvals_def)

lemma same_approvals_from: "same_from val t r r' \<Longrightarrow> same_approvals val t r r'"
  by (simp add: same_approvals_def same_from_def)

lemma same_approvals_off: "same_off (limit_key g) val u r r' \<Longrightarrow> u \<le> t \<Longrightarrow> same_approvals val t r r'"
  by (simp add: same_approvals_def same_off_def)

lemma all_stored_same:
  "same_approvals val t r r' \<Longrightarrow> all_stored val fr fp P t r \<Longrightarrow> all_stored val fr fp P t r'"
  by (simp add: all_stored_def same_approvals_def)

lemma all_stored_mono:
  "all_stored val fr fp P t r \<Longrightarrow> (\<And>a. P a \<Longrightarrow> Q a) \<Longrightarrow> all_stored val fr fp Q t r"
  unfolding all_stored_def by blast

context redis_kv
begin

lemma all_stored_later:
  "invar r \<Longrightarrow> t \<le> t' \<Longrightarrow> all_stored val fr fp P t r \<Longrightarrow> all_stored val fr fp P t' r"
  using val_shrink unfolding all_stored_def by blast

lemma all_stored_read:
  assumes "invar r" "all_stored val fr fp P t r" "get_approval C fp t i r = (Inr (Some a), r')"
  shows "storable fr fp a \<and> ap_id a = i \<and> P a"
proof -
  obtain raw where "val r t (approval_key i) = Some raw" "read_approval fp raw = Inr a"
    using get_approval_spec [OF assms(1,3)] by auto
  with assms(2) show ?thesis using read_approval_text [of fr fp] by (fastforce simp: all_stored_def)
qed

lemma all_stored_set:
  assumes "all_stored val fr fp P t r" "storable fr fp a" "ap_id a = i" "P a"
    and "\<forall>k'. k' \<noteq> approval_key i \<longrightarrow> val r' t k' = val r t k'"
    and "val r' t (approval_key i) \<in> {None, Some (approval_text fr a)}"
  shows "all_stored val fr fp P t r'"
  unfolding all_stored_def
proof (intro allI impI)
  fix j v
  assume v: "val r' t (approval_key j) = Some v"
  show "\<exists>a. v = approval_text fr a \<and> storable fr fp a \<and> ap_id a = j \<and> P a"
    using assms v by (cases "j = i") (auto simp: all_stored_def)
qed

lemma all_stored_create:
  assumes "invar r" "all_stored val fr fp P t r"
    and "storable fr fp (new_approval t u ag ro to ar re)" "P (new_approval t u ag ro to ar re)"
    and "create_pending_approval C fr t u ag ro to ar re r ms = (x, r', ms')"
  shows "invar r' \<and> all_stored val fr fp P t r'"
proof -
  let ?a = "new_approval t u ag ro to ar re"
  have id: "ap_id ?a = u" by (simp add: new_approval_def)
  obtain y r1 where set: "set_ex C (approval_key u) (approval_text fr ?a) APPROVAL_TTL_SECONDS t r = (y, r1)"
    by fastforce
  have r1: "r' = r1" using assms(5) set by (auto simp: create_pending_approval_def id split: sum.splits)
  have "invar r'" and eff: "(\<forall>k'. k' \<noteq> approval_key u \<longrightarrow> val r' t k' = val r t k') \<and>
      val r' t (approval_key u) = Some (approval_text fr ?a) \<or> same_from val t r r'"
    using redis_kv.set_ex [OF redis_kv_axioms assms(1) _ set] unfolding r1 by (auto simp: APPROVAL_TTL_SECONDS_def)
  then show ?thesis
    using all_stored_set [OF assms(2,3) id assms(4)] all_stored_same [OF same_approvals_from assms(2)] by auto
qed

lemma all_stored_write:
  assumes "invar r" "all_stored val fr fp P t r"
    and "storable fr fp a" "dumpable fr fp (JFloat (Fin t))" "ap_id a = i" "P (resolve t d b a)"
    and "decide_write C fr t i d b a r ms = (x, r', ms')"
  shows "invar r' \<and> all_stored val fr fp P t r' \<and>
    (\<forall>ao. x = Inr (ao, Decided) \<longrightarrow> ao = Some (resolve t d b a) \<and>
       val r' t (approval_key i) \<in> {None, Some (approval_text fr (resolve t d b a))})"
proof -
  let ?b = "resolve t d b a"
  have b: "storable fr fp ?b" "ap_id ?b = i" using assms(3-5) by (simp_all add: storable_iff)
  obtain y r1 where set: "set_keepttl C (approval_key i) (approval_text fr ?b) t r = (y, r1)" by fastforce
  have r1: "r' = r1" and x: "x = (case y of Inl m \<Rightarrow> Inl (redis_error m) | Inr _ \<Rightarrow> Inr (Some ?b, Decided))"
    using assms(7) set by (cases y; simp add: decide_write_def Let_def)+
  from set_keepttl [OF assms(1) set]
  have inv: "invar r'" and eff: "(\<forall>k'. k' \<noteq> approval_key i \<longrightarrow> val r' t k' = val r t k') \<and>
      val r' t (approval_key i) \<in> {None, Some (approval_text fr ?b)} \<or> y \<noteq> Inr () \<and> same_from val t r r'"
    by (auto simp: r1)
  have "all_stored val fr fp P t r'"
    using eff all_stored_set [OF assms(2) b assms(6)] all_stored_same [OF same_approvals_from assms(2)] by blast
  with inv eff show ?thesis by (auto simp: x split: sum.splits)
qed

end


section \<open>What a turn touches\<close>

lemma handler_turn_redis:
  assumes "handler_turn c e fi q oth req st w = (y, w')" "\<forall>r v. w_redis (snd (oth r v)) = w_redis v"
  obtains (same) "w_redis w' = w_redis w" "\<And>k d. st \<noteq> Storing k d" "\<And>i p a. st \<noteq> Resolving i p a"
  | (read) i x where "get_approval (c_redis c) (c_fp c) (e_now e) i (w_redis w) = (x, w_redis w')"
      "\<And>k d. st \<noteq> Storing k d" "\<And>i p a. st \<noteq> Resolving i p a"
  | (create) k d x ms where "st = Storing k d"
      "create_pending_approval (c_redis c) (c_fr c) (e_now e) (e_uuid e) (ca_agent_id k) (ca_role k) (ca_tool k)
         (ca_args k) (dec_reason d) (w_redis w) (w_metrics w) = (x, w_redis w', ms)"
  | (resolved) i p a x ms where "st = Resolving i p a"
      "decide_write (c_redis c) (c_fr c) (e_later e) i (dr_decision p) (dr_decided_by p) a (w_redis w) (w_metrics w)
         = (x, w_redis w', ms)"
      "y = (case x of Inl ex \<Rightarrow> Inl (Inl ex) | Inr (Some a', Decided) \<Rightarrow> Inr (Resuming p a')
                    | Inr out \<Rightarrow> Inl (undecided_answer out))"
proof (cases st)
  case Admitted
  show thesis
  proof (cases "route (req_method req) (req_path req)")
    case (EpStatus i)
    obtain x r where g: "get_approval (c_redis c) (c_fp c) (e_now e) i (w_redis w) = (x, r)" by fastforce
    have "w_redis w' = r"
      using assms(1) EpStatus g
      by (auto simp: Admitted handler_turn_def routes_def approval_status_def apfst_def map_prod_def
          split: sum.splits option.splits)
    with g show thesis by (intro read [of i x]) (simp_all add: Admitted)
  next
    case EpOther
    obtain x v where o: "oth req w = (x, v)" by fastforce
    then have "w_redis v = w_redis w" using assms(2) by (metis snd_conv)
    then show thesis
      using assms(1) EpOther o
      by (intro same) (auto simp: Admitted handler_turn_def routes_def apfst_def map_prod_def)
  qed (use assms(1) in \<open>auto intro!: same simp: Admitted handler_turn_def routes_def get_audit_log_def health_def
        apfst_def map_prod_def Let_def split: sum.splits prod.splits\<close>)
next
  case (Asking i ctx tool)
  then show thesis
    using assms(1)
    by (intro same) (auto simp: handler_turn_def decided_turn_def run_turn_def Let_def
        split: prod.splits sum.splits if_splits)
next
  case (Storing k d)
  then show thesis
    using assms(1) by (auto intro: create [of k d] simp: handler_turn_def storing_turn_def Let_def split: prod.splits)
next
  case (Notifying k d a)
  then show thesis
    using assms(1) by (intro same) (auto simp: handler_turn_def notifying_turn_def Let_def split: prod.splits)
next
  case (Recording ev x)
  then show thesis
    using assms(1) by (intro same) (auto simp: handler_turn_def apfst_def map_prod_def dest: audit_then_frame split: prod.splits)
next
  case (Reading i p)
  then show thesis
    using assms(1) by (auto intro: read [of i] simp: handler_turn_def reading_turn_def Let_def split: prod.splits)
next
  case (Resolving i p a)
  obtain x r ms where d: "decide_write (c_redis c) (c_fr c) (e_later e) i (dr_decision p) (dr_decided_by p) a
      (w_redis w) (w_metrics w) = (x, r, ms)" by (metis prod_cases3)
  then show thesis
    using assms(1) Resolving by (intro resolved [of i p a x ms]) (auto simp: handler_turn_def resolving_turn_def Let_def)
next
  case (Resuming p a)
  then show thesis
    using assms(1) by (intro same) (auto simp: handler_turn_def resuming_turn_def Let_def split: prod.splits if_splits)
next
  case (Concluding a ev s ex an)
  obtain x v where "conclude c e a ev s ex an w = (x, v)" by fastforce
  moreover from this have "w_redis v = w_redis w" by (rule conclude_cases)
  ultimately show thesis
    using assms(1) Concluding by (intro same) (auto simp: handler_turn_def)
qed

lemma handler_turn_ext:
  assumes "handler_turn c e fi q oth req st w = (y, w')" "\<forall>r v. w_ext (snd (oth r v)) = w_ext v"
    and "w_ext w' \<noteq> w_ext w"
  obtains (run) i ctx tool d ms where "st = Asking i ctx tool"
      "evaluate_policy (c_fr c) (c_opa c) ctx (w_metrics w) = (Inr d, ms)"
      "dec_allow d" "\<not> dec_require_approval d"
      "w_ext w' = snd (execute_tool (c_tools c) tool (ctx_arguments ctx) (w_ext w))"
  | (resume) p a where "st = Resuming p a" "ap_status a \<noteq> ''denied''"
      "w_ext w' = snd (execute_tool (c_tools c) (ap_tool_name a) (ap_arguments a) (w_ext w))"
proof (cases st)
  case Admitted
  have False
  proof (cases "route (req_method req) (req_path req)")
    case EpOther
    obtain x v where o: "oth req w = (x, v)" by fastforce
    then have "w_ext v = w_ext w" using assms(2) by (metis snd_conv)
    then show ?thesis
      using assms(1,3) EpOther o by (auto simp: Admitted handler_turn_def routes_def apfst_def map_prod_def)
  qed (use assms(1,3) in \<open>auto simp: Admitted handler_turn_def routes_def get_audit_log_def health_def
        approval_status_def apfst_def map_prod_def Let_def split: sum.splits prod.splits option.splits\<close>)
  then show thesis ..
next
  case (Asking i ctx tool)
  obtain x ms where ev: "evaluate_policy (c_fr c) (c_opa c) ctx (w_metrics w) = (x, ms)" by fastforce
  show thesis
  proof (cases x)
    case (Inl ex)
    with assms(1,3) ev Asking show thesis by (auto simp: handler_turn_def)
  next
    case (Inr d)
    with assms(1,3) ev Asking show thesis
      by (intro run [of i ctx tool d ms])
        (auto simp: handler_turn_def decided_turn_def run_turn_def Let_def split: prod.splits if_splits)
  qed
next
  case (Resuming p a)
  then show thesis
    using assms(1,3) by (intro resume [of p a])
      (auto simp: handler_turn_def resuming_turn_def Let_def split: prod.splits if_splits)
next
  case (Recording ev x)
  then show thesis
    using assms(1,3) by (auto simp: handler_turn_def apfst_def map_prod_def dest: audit_then_frame split: prod.splits)
next
  case (Concluding a ev s ex an)
  obtain x v where "conclude c e a ev s ex an w = (x, v)" by fastforce
  moreover from this have "w_ext v = w_ext w" by (rule conclude_cases)
  ultimately show thesis
    using assms(1,3) Concluding by (auto simp: handler_turn_def)
qed (use assms(1,3) in \<open>auto simp: handler_turn_def storing_turn_def notifying_turn_def reading_turn_def
      resolving_turn_def Let_def split: prod.splits\<close>)


section \<open>What a request has established\<close>

text \<open>
  \<open>policy_said\<close>: at some time the policy gave decision \<open>d\<close> on the call of this job, made through
  \<open>/mcp\<close> with a registered key for a tool of its agent.  \<open>callback_of\<close>: the job is a signed callback
  for approval \<open>i\<close> with payload \<open>p\<close>.
\<close>

definition policy_said :: "('r, 'x) config \<Rightarrow> job \<Rightarrow> ToolCallContext \<Rightarrow> string \<Rightarrow> PolicyDecision \<Rightarrow> bool" where
  "policy_said c j ctx tool d \<longleftrightarrow>
     (\<exists>key a t i ms ms'. req_method (snd j) = ''POST'' \<and> req_path (snd j) = ''/mcp'' \<and>
        header (snd j) ''x-api-key'' = Some key \<and> API_KEYS key = Some a \<and>
        tool \<in> set (allowed_tools a) \<and> tool \<in> fst ` set (c_tools c) \<and>
        mcp_front c (env_at t (fst j)) ((snd j)\<lparr>req_agent := Some a\<rparr>) = Inr (i, ctx, tool) \<and>
        evaluate_policy (c_fr c) (c_opa c) ctx ms = (Inr d, ms'))"

definition callback_of :: "('r, 'x) config \<Rightarrow> job \<Rightarrow> string \<Rightarrow> ApprovalDecisionRequest \<Rightarrow> bool" where
  "callback_of c j i p \<longleftrightarrow>
     req_method (snd j) = ''POST'' \<and> approval_path ''decide'' (req_path (snd j)) = Some i \<and>
     (\<exists>t. verify_signature (c_secret c) t (header (snd j) ''x-slack-request-timestamp'')
        (req_bytes (snd j)) (header (snd j) ''x-slack-signature'') = Inr True) \<and>
     c_validate c (req_bytes (snd j)) = Inr p \<and> dr_decision p \<in> {''approve'', ''deny''}"

text \<open>
  An approval goes back to a held call: one of the jobs, with this identifier, has the policy's
  demand for approval of this agent's call, and its record was sent to Redis.
\<close>

definition held_for :: "('r, 'x) config \<Rightarrow> (nat \<Rightarrow> job) \<Rightarrow> (nat \<Rightarrow> task) \<Rightarrow> Approval \<Rightarrow> bool" where
  "held_for c jobs tks a \<longleftrightarrow>
     (\<exists>k ctx d. turns_left (tks k) \<le> 2 \<and> e_uuid (fst (jobs k)) = ap_id a \<and>
        policy_said c (jobs k) ctx (ap_tool_name a) d \<and> dec_require_approval d \<and>
        ap_agent_id a = ctx_agent_id ctx \<and> ap_arguments a = ctx_arguments ctx)"

text \<open>The request as the handler sees it: with the identity of its key, on a path that needs one.\<close>

definition seen_as :: "http_request \<Rightarrow> http_request \<Rightarrow> bool" where
  "seen_as req req' \<longleftrightarrow>
     is_public (req_path req) \<and> req' = req \<or>
     (\<exists>key a. \<not> is_public (req_path req) \<and> header req ''x-api-key'' = Some key \<and> API_KEYS key = Some a \<and>
        req' = req\<lparr>req_agent := Some a\<rparr>)"

lemma header_req_agent [simp]: "header (req\<lparr>req_agent := x\<rparr>) n = header req n"
  by (simp add: header_def)

lemma seen_as_frame:
  "seen_as req req' \<Longrightarrow> req_method req' = req_method req \<and> req_path req' = req_path req \<and>
     req_bytes req' = req_bytes req \<and> header req' = header req"
  by (auto simp: seen_as_def header_def fun_eq_iff)

fun stage_ok :: "('r, 'x) config \<Rightarrow> job \<Rightarrow> http_request \<Rightarrow> (Approval \<Rightarrow> bool) \<Rightarrow> stage \<Rightarrow> bool" where
  "stage_ok c j req' R (Asking i ctx tool) \<longleftrightarrow>
     route (req_method req') (req_path req') = EpMcp \<and>
     (\<exists>t. mcp_front c (env_at t (fst j)) req' = Inr (i, ctx, tool))"
| "stage_ok c j req' R (Storing k d) \<longleftrightarrow>
     (\<exists>i ctx tool. k = call_of i ctx tool \<and> policy_said c j ctx tool d \<and> dec_require_approval d)"
| "stage_ok c j req' R (Reading i p) \<longleftrightarrow> callback_of c j i p"
| "stage_ok c j req' R (Resolving i p a) \<longleftrightarrow>
     callback_of c j i p \<and> storable (c_fr c) (c_fp c) a \<and> ap_id a = i \<and> R a"
| "stage_ok c j req' R (Resuming p a) \<longleftrightarrow>
     callback_of c j (ap_id a) p \<and> R a \<and>
     ap_status a = (if dr_decision p = ''approve'' then ''approved'' else ''denied'')"
| "stage_ok c j req' R _ \<longleftrightarrow> True"

lemma stage_ok_mono:
  "stage_ok c j req' R st \<Longrightarrow> (\<And>a. R a \<Longrightarrow> R' a) \<Longrightarrow> stage_ok c j req' R' st"
  by (cases st) auto

lemma call_front_tool:
  "call_front c e a i params = Inr (i', ctx, tool) \<Longrightarrow>
     i' = i \<and> intercept_tool_call params a (e_now e) = Inr ctx \<and> ctx_tool_name ctx = JStr tool \<and>
     tool \<in> fst ` set (c_tools c) \<and> tool \<in> set (allowed_tools a)"
  by (auto simp: call_front_def dest: known_tool_Some split: sum.splits exn.splits option.splits if_splits)

lemma mcp_front_Inr:
  assumes "mcp_front c e req = Inr (i, ctx, tool)"
  obtains body a where "c_body c (req_bytes req) = JsonBody (JObj body)" "i = dict_get body ''id''"
    "dict_get body ''method'' = JStr ''tools/call''" "req_agent req = Some a"
    "intercept_tool_call (py_or (dict_get body ''params'') (JObj [])) a (e_now e) = Inr ctx"
    "ctx_tool_name ctx = JStr tool" "tool \<in> fst ` set (c_tools c)" "tool \<in> set (allowed_tools a)"
proof -
  obtain body a where b: "c_body c (req_bytes req) = JsonBody (JObj body)" "req_agent req = Some a"
    "dict_get body ''method'' = JStr ''tools/call''"
    "call_front c e a (dict_get body ''id'') (py_or (dict_get body ''params'') (JObj [])) = Inr (i, ctx, tool)"
    using assms by (auto simp: mcp_front_def Let_def split: body_reply.splits json.splits option.splits if_splits)
  show thesis using call_front_tool [OF b(4)] b(1-3) by (intro that [of body a]) auto
qed

lemma decide_front_Inr:
  assumes "decide_front c e req = Inr p"
  shows "verify_signature (c_secret c) (e_now e) (header req ''x-slack-request-timestamp'')
      (req_bytes req) (header req ''x-slack-signature'') = Inr True" "c_validate c (req_bytes req) = Inr p"
proof -
  let ?v = "verify_signature (c_secret c) (e_now e) (header req ''x-slack-request-timestamp'')
      (req_bytes req) (header req ''x-slack-signature'')"
  show v: "?v = Inr True"
    using assms by (simp add: decide_front_def split: sum.splits bool.splits)
  show "c_validate c (req_bytes req) = Inr p"
    using assms by (simp add: decide_front_def v split: sum.splits if_split_asm)
qed

lemma decide_front_callback:
  assumes "decide_front c (env_at t (fst j)) req' = Inr p" "route (req_method req') (req_path req') = EpDecide i"
    and "seen_as (snd j) req'"
  shows "callback_of c j i p"
proof -
  have "req_method (snd j) = ''POST''" "approval_path ''decide'' (req_path (snd j)) = Some i"
    using route_EpDecide [OF assms(2)] seen_as_frame [OF assms(3)] by simp_all
  moreover note decide_front_Inr [OF assms(1)] decide_front_decision [OF assms(1)]
  ultimately show ?thesis unfolding callback_of_def using seen_as_frame [OF assms(3)] by (metis env_at_simps(1))
qed

lemma asked_policy_said:
  assumes "stage_ok c j req' R (Asking i ctx tool)" "seen_as (snd j) req'"
    and "evaluate_policy (c_fr c) (c_opa c) ctx ms = (Inr d, ms')"
  shows "policy_said c j ctx tool d"
proof -
  obtain t where rt: "route (req_method req') (req_path req') = EpMcp"
    and f: "mcp_front c (env_at t (fst j)) req' = Inr (i, ctx, tool)" using assms(1) by auto
  have p: "req_method (snd j) = ''POST''" "req_path (snd j) = ''/mcp''"
    using rt seen_as_frame [OF assms(2)] by (simp_all add: route_EpMcp)
  then obtain key a where a: "header (snd j) ''x-api-key'' = Some key" "API_KEYS key = Some a"
    "req' = (snd j)\<lparr>req_agent := Some a\<rparr>"
    using assms(2) mcp_not_public by (auto simp: seen_as_def)
  obtain b where "req_agent req' = Some b" "tool \<in> fst ` set (c_tools c)" "tool \<in> set (allowed_tools b)"
    by (rule mcp_front_Inr [OF f])
  then have "tool \<in> fst ` set (c_tools c)" "tool \<in> set (allowed_tools a)" using a(3) by simp_all
  then show ?thesis unfolding policy_said_def using p a f assms(3) by blast
qed


lemma run_turn_recording: "run_turn c e k d w = (Inr st, w') \<Longrightarrow> \<exists>ev x. st = Recording ev x"
  by (auto simp: run_turn_def Let_def split: prod.splits ExecutionOutcome.splits option.splits)

lemma decide_write_Decided:
  "decide_write C fr t i d b a r ms = (Inr (ao, oc), r', ms') \<Longrightarrow> ao = Some (resolve t d b a) \<and> oc = Decided"
  by (auto simp: decide_write_def Let_def split: prod.splits sum.splits)

lemma stage_ok_turn:
  assumes turn: "handler_turn c (env_at t (fst j)) fi q oth req' st w = (Inr st', w')"
    and seen: "seen_as (snd j) req'" and ok: "stage_ok c j req' R st"
    and read: "\<And>i a r'. get_approval (c_redis c) (c_fp c) t i (w_redis w) = (Inr (Some a), r') \<Longrightarrow>
        storable (c_fr c) (c_fp c) a \<and> ap_id a = i \<and> R a"
    and closed: "\<And>a u d b. R a \<Longrightarrow> R (resolve u d b a)"
  shows "stage_ok c j req' R st'"
proof (cases st)
  case Admitted
  show ?thesis
  proof (cases "route (req_method req') (req_path req')")
    case EpMcp
    then show ?thesis
      using turn by (auto simp: Admitted handler_turn_def split: sum.splits prod.splits)
  next
    case (EpDecide i)
    then obtain p where "decide_front c (env_at t (fst j)) req' = Inr p" "st' = Reading i p"
      using turn by (auto simp: Admitted handler_turn_def split: sum.splits)
    then show ?thesis using decide_front_callback [OF _ EpDecide seen] by simp
  qed (use turn in \<open>auto simp: Admitted handler_turn_def apfst_def map_prod_def split: prod.splits\<close>)
next
  case (Asking i ctx tool)
  obtain x ms where ev: "evaluate_policy (c_fr c) (c_opa c) ctx (w_metrics w) = (x, ms)" by fastforce
  then obtain d where d: "x = Inr d"
    "decided_turn c (env_at t (fst j)) (call_of i ctx tool) d (w\<lparr>w_metrics := ms\<rparr>) = (Inr st', w')"
    using turn by (cases x) (auto simp: Asking handler_turn_def)
  have "policy_said c j ctx tool d"
    using asked_policy_said [OF _ seen, of c R i ctx tool "w_metrics w" d ms] ok ev d(1) Asking by simp
  with d(2) show ?thesis
    by (auto simp: decided_turn_def dest!: run_turn_recording split: if_splits) blast
next
  case (Reading i p)
  then obtain a r where g: "get_approval (c_redis c) (c_fp c) t i (w_redis w) = (Inr (Some a), r)"
    "st' = Resolving i p a"
    using turn by (auto simp: handler_turn_def reading_turn_def decide_guard_def Let_def
        split: prod.splits sum.splits option.splits if_splits)
  then show ?thesis using read [OF g(1)] ok Reading by simp
next
  case (Resolving i p a)
  obtain x r ms where wr: "decide_write (c_redis c) (c_fr c) t i (dr_decision p) (dr_decided_by p) a
      (w_redis w) (w_metrics w) = (x, r, ms)" by (metis prod_cases3)
  have "st' = Resuming p (resolve t (dr_decision p) (dr_decided_by p) a)"
    using turn wr decide_write_Decided [of "c_redis c" "c_fr c" t i "dr_decision p" "dr_decided_by p" a "w_redis w" "w_metrics w"]
    by (auto simp: Resolving handler_turn_def resolving_turn_def Let_def split: sum.splits option.splits decide_outcome.splits)
  then show ?thesis using ok closed by (simp add: Resolving ap_status_resolve)
qed (use turn ok in \<open>auto simp: handler_turn_def storing_turn_def notifying_turn_def resuming_turn_def
      apfst_def map_prod_def Let_def split: prod.splits sum.splits if_splits ExecutionOutcome.splits\<close>)


section \<open>The invariant\<close>

fun task_ok :: "('r, 'x) config \<Rightarrow> job \<Rightarrow> rat \<Rightarrow> (Approval \<Rightarrow> bool) \<Rightarrow> task \<Rightarrow> bool" where
  "task_ok c j t R (Limiting a now) \<longleftrightarrow> now \<le> t \<and> seen_as (snd j) ((snd j)\<lparr>req_agent := Some a\<rparr>)"
| "task_ok c j t R (Counted a now n) \<longleftrightarrow> now \<le> t \<and> seen_as (snd j) ((snd j)\<lparr>req_agent := Some a\<rparr>)"
| "task_ok c j t R (Serving quota req' st) \<longleftrightarrow> seen_as (snd j) req' \<and> stage_ok c j req' R st"
| "task_ok c j t R _ \<longleftrightarrow> True"

lemma task_ok_mono:
  "task_ok c j t R tk \<Longrightarrow> t \<le> t' \<Longrightarrow> (\<And>a. R a \<Longrightarrow> R' a) \<Longrightarrow> task_ok c j t' R' tk"
  by (cases tk) (auto intro: stage_ok_mono)

text \<open>What is written to the store by a turn.\<close>

definition writes_ok ::
  "('r, 'x) config \<Rightarrow> env \<Rightarrow> rat \<Rightarrow> (Approval \<Rightarrow> bool) \<Rightarrow> task \<Rightarrow> bool" where
  "writes_ok c e t P tk \<longleftrightarrow>
     (\<forall>quota req' k d. tk = Serving quota req' (Storing k d) \<longrightarrow>
        (let a = new_approval t (e_uuid e) (ca_agent_id k) (ca_role k) (ca_tool k) (ca_args k) (dec_reason d)
         in storable (c_fr c) (c_fp c) a \<and> P a)) \<and>
     (\<forall>quota req' i p a. tk = Serving quota req' (Resolving i p a) \<longrightarrow>
        storable (c_fr c) (c_fp c) a \<and> ap_id a = i \<and> P (resolve t (dr_decision p) (dr_decided_by p) a))"

lemma limited_turn_redis: "limited_turn e req a res w = (tk, w') \<Longrightarrow> w_redis w' = w_redis w"
  by (auto simp: limited_turn_def answer_with_def Let_def split: if_splits)

lemma limited_turn_ext: "limited_turn e req a res w = (tk, w') \<Longrightarrow> w_ext w' = w_ext w"
  by (auto simp: limited_turn_def answer_with_def Let_def split: if_splits)

context redis_shared
begin

lemma check_count_off:
  assumes "invar r" "check_count C win g t r = (x, r')"
  shows "invar r' \<and> same_off (limit_key g) val t r r'"
proof -
  obtain x1 r1 where 1: "zremrangebyscore C (limit_key g) 0 (t - of_int win) t r = (x1, r1)" by fastforce
  obtain x2 r2 where 2: "zcard C (limit_key g) t r1 = (x2, r2)" by fastforce
  have i1: "invar r1" and i2: "invar r2" using zrem [OF assms(1) 1] zcard [OF _ 2] by auto
  note s1 = zrem_off [OF assms(1) 1]
  note s2 = same_off_trans [OF s1 zcard_off [OF i1 2]]
  show ?thesis using assms(2) s1 s2 i1 i2 by (auto simp: check_count_def 1 2 split: sum.splits)
qed

lemma check_decide_off:
  assumes "invar r" "0 < win" "check_decide C win fr g l t u n r = (res, r')"
  shows "invar r' \<and> same_off (limit_key g) val t r r'"
proof (cases "l \<le> int n")
  case True
  obtain x r1 where 1: "zrange_withscores C (limit_key g) 0 0 t r = (x, r1)" by fastforce
  have "r' = r1" using assms(3) True by (auto simp: check_decide_def 1 Let_def split: sum.splits)
  then show ?thesis using zrange_first [OF assms(1) 1] zrange_off [OF assms(1) 1] by simp
next
  case False
  obtain x r1 where 1: "pipe_execute C [PipeZadd (limit_key g) (limit_member fr t u) t, PipeExpire (limit_key g) win] t r = (x, r1)"
    by fastforce
  have "r' = r1" using assms(3) False by (auto simp: check_decide_def 1 Let_def split: sum.splits)
  then show ?thesis using zadd_expire [OF assms(1,2) 1] zadd_off [OF assms(1) 1] by simp
qed

lemma turn_keeps_stored:
  assumes C: "c_redis c = C" and inv: "invar (w_redis w)"
    and old: "all_stored val (c_fr c) (c_fp c) P t (w_redis w)"
    and ok: "task_ok c j t R tk" and wr: "writes_ok c e t P tk" and fl: "dumpable (c_fr c) (c_fp c) (JFloat (Fin t))"
    and oth: "\<forall>r v. w_redis (snd (oth r v)) = w_redis v"
    and turn: "task_turn c (env_at t e) fi q oth req tk w = (tk', w')"
  shows "invar (w_redis w') \<and> all_stored val (c_fr c) (c_fp c) P t (w_redis w')"
proof (cases tk)
  case Arrived
  then have "w_redis w' = w_redis w"
    using turn by (auto simp: task_turn_def arrived_turn_def answer_with_def Let_def split: option.splits if_splits)
  then show ?thesis using inv old by simp
next
  case (Limiting a now)
  obtain x r where k: "check_count C RATE_LIMIT_WINDOW_SECONDS (ident_str (agent_id a)) now (w_redis w) = (x, r)" by fastforce
  have "w_redis w' = r"
    using turn k C by (auto simp: Limiting task_turn_def dest: limited_turn_redis split: sum.splits)
  then show ?thesis
    using check_count_off [OF inv k] all_stored_same [OF same_approvals_off old] ok by (auto simp: Limiting)
next
  case (Counted a now n)
  obtain x r where k: "check_decide C RATE_LIMIT_WINDOW_SECONDS (c_fr c) (ident_str (agent_id a)) (rate_limit_rpm a)
      now (e_limit_uuid e) n (w_redis w) = (x, r)" by fastforce
  have "w_redis w' = r" using turn k C by (auto simp: Counted task_turn_def dest: limited_turn_redis)
  moreover have "0 < RATE_LIMIT_WINDOW_SECONDS" by (simp add: RATE_LIMIT_WINDOW_SECONDS_def)
  ultimately show ?thesis
    using check_decide_off [OF inv _ k] all_stored_same [OF same_approvals_off old] ok by (auto simp: Counted)
next
  case (Serving quota req' st)
  obtain y v where h: "handler_turn c (env_at t e) fi q oth req' st w = (y, v)" by fastforce
  have w': "w_redis w' = w_redis v"
    using turn h by (auto simp: Serving task_turn_def answer_with_def Let_def split: sum.splits)
  from h oth show ?thesis
  proof (cases rule: handler_turn_redis)
    case same
    then show ?thesis using inv old w' by simp
  next
    case (read i x)
    then have "get_approval C (c_fp c) t i (w_redis w) = (x, w_redis v)" using C by simp
    note g = get_approval_spec [OF inv this]
    from g have "same_from val t (w_redis w) (w_redis v)" by blast
    from all_stored_same [OF same_approvals_from [OF this] old] g w' show ?thesis by simp
  next
    case (create k d x ms)
    then have "create_pending_approval C (c_fr c) t (e_uuid e) (ca_agent_id k) (ca_role k) (ca_tool k)
        (ca_args k) (dec_reason d) (w_redis w) (w_metrics w) = (x, w_redis v, ms)" using C by simp
    moreover have "storable (c_fr c) (c_fp c) (new_approval t (e_uuid e) (ca_agent_id k) (ca_role k) (ca_tool k)
        (ca_args k) (dec_reason d)) \<and> P (new_approval t (e_uuid e) (ca_agent_id k) (ca_role k) (ca_tool k)
        (ca_args k) (dec_reason d))"
      using wr create(1) Serving by (auto simp: writes_ok_def Let_def)
    ultimately show ?thesis unfolding w' using all_stored_create [OF inv old] by blast
  next
    case (resolved i p a x ms)
    then have "decide_write C (c_fr c) t i (dr_decision p) (dr_decided_by p) a (w_redis w) (w_metrics w)
        = (x, w_redis v, ms)" using C by simp
    moreover have "storable (c_fr c) (c_fp c) a" "ap_id a = i" "P (resolve t (dr_decision p) (dr_decided_by p) a)"
      using wr resolved(1) Serving by (auto simp: writes_ok_def)
    ultimately show ?thesis unfolding w' using all_stored_write [OF inv old _ fl] by blast
  qed
qed (use turn inv old in \<open>simp add: task_turn_def\<close>)

end


definition gateway_inv ::
  "('r \<Rightarrow> rat \<Rightarrow> string \<Rightarrow> string option) \<Rightarrow> ('r \<Rightarrow> bool) \<Rightarrow> ('r, 'x) config \<Rightarrow> (nat \<Rightarrow> job)
     \<Rightarrow> ('r, 'x) gateway \<Rightarrow> bool" where
  "gateway_inv val invar c jobs s \<longleftrightarrow>
     (let R = held_for c jobs (gw_task s) in
      invar (w_redis (gw_world s)) \<and>
      all_stored val (c_fr c) (c_fp c) R (gw_clock s) (w_redis (gw_world s)) \<and>
      (\<forall>k. task_ok c (jobs k) (gw_clock s) R (gw_task s k)))"

text \<open>What the jobs may write to the approval store reads back.\<close>

definition jobs_storable :: "('r, 'x) config \<Rightarrow> rat set \<Rightarrow> (nat \<Rightarrow> job) \<Rightarrow> bool" where
  "jobs_storable c clk jobs \<longleftrightarrow>
     (\<forall>k v. c_body c (req_bytes (snd (jobs k))) = JsonBody v \<longrightarrow> dumpable (c_fr c) (c_fp c) v) \<and>
     (\<forall>t \<in> clk. dumpable (c_fr c) (c_fp c) (JFloat (Fin t)) \<and>
        dumpable (c_fr c) (c_fp c) (JFloat (Fin (t + of_int APPROVAL_TTL_SECONDS))))"

lemma jobs_storable_time: "jobs_storable c clk jobs \<Longrightarrow> t \<in> clk \<Longrightarrow> dumpable (c_fr c) (c_fp c) (JFloat (Fin t))"
  by (simp add: jobs_storable_def)

lemma policy_said_storable:
  assumes "policy_said c (jobs k) ctx tool d" "jobs_storable c clk jobs" "t \<in> clk"
  shows "storable (c_fr c) (c_fp c) (new_approval t u ag ro to (ctx_arguments ctx) re)"
proof -
  obtain a v i where "mcp_front c (env_at v (fst (jobs k))) ((snd (jobs k))\<lparr>req_agent := Some a\<rparr>) = Inr (i, ctx, tool)"
    using assms(1) by (auto simp: policy_said_def)
  then obtain body b where b: "c_body c (req_bytes (snd (jobs k))) = JsonBody (JObj body)"
    "intercept_tool_call (py_or (dict_get body ''params'') (JObj [])) b v = Inr ctx"
    by (rule mcp_front_Inr) simp
  have "dumpable (c_fr c) (c_fp c) (JObj body)" using assms(2) b(1) unfolding jobs_storable_def by blast
  then have "dumpable (c_fr c) (c_fp c) (JObj (ctx_arguments ctx))"
    using intercepted_args_dumpable [OF b(2)] by blast
  then show ?thesis
    using assms(2,3) by (simp add: storable_iff new_approval_def jobs_storable_def)
qed

lemma held_for_mono:
  assumes "held_for c jobs tks a" "\<And>k. turns_left (tks' k) \<le> turns_left (tks k)"
  shows "held_for c jobs tks' a"
  using assms order_trans unfolding held_for_def by blast

lemma held_for_resolve [simp]: "held_for c jobs tks (resolve t d b a) \<longleftrightarrow> held_for c jobs tks a"
  by (simp add: held_for_def)

lemma held_for_new:
  assumes "turns_left (tks k) \<le> 2" "policy_said c (jobs k) ctx tool d" "dec_require_approval d"
  shows "held_for c jobs tks (new_approval t (e_uuid (fst (jobs k))) (ctx_agent_id ctx) ro tool (ctx_arguments ctx) re)"
  using assms unfolding held_for_def by (auto simp: new_approval_def)

lemma limited_turn_ok:
  "limited_turn e (snd j) a res w = (tk, w') \<Longrightarrow> seen_as (snd j) ((snd j)\<lparr>req_agent := Some a\<rparr>) \<Longrightarrow>
     task_ok c j t R tk"
  by (auto simp: limited_turn_def answer_with_def Let_def split: if_splits)

text \<open>A turn of a request establishes what its next stage says.\<close>

lemma task_ok_turn:
  assumes turn: "task_turn c (env_at t (fst j)) fi q oth (snd j) tk w = (tk', w')" and ok: "task_ok c j t R tk"
    and read: "\<And>i a r'. get_approval (c_redis c) (c_fp c) t i (w_redis w) = (Inr (Some a), r') \<Longrightarrow>
        storable (c_fr c) (c_fp c) a \<and> ap_id a = i \<and> R a"
    and closed: "\<And>a u d b. R a \<Longrightarrow> R (resolve u d b a)"
  shows "task_ok c j t R tk'"
proof (cases tk)
  case Arrived
  show ?thesis
  proof (cases "is_public (req_path (snd j))")
    case True
    then show ?thesis using turn by (auto simp: Arrived task_turn_def arrived_turn_def seen_as_def)
  next
    case False
    then show ?thesis
      using turn by (auto simp: Arrived task_turn_def arrived_turn_def answer_with_def seen_as_def Let_def
          bind_eq_Some_conv split: option.splits if_splits)
  qed
next
  case (Limiting a now)
  then show ?thesis
    using turn ok by (auto simp: task_turn_def dest!: limited_turn_ok [of _ j] split: prod.splits sum.splits)
next
  case (Counted a now n)
  then show ?thesis
    using turn ok by (auto simp: task_turn_def dest!: limited_turn_ok [of _ j] split: prod.splits)
next
  case (Serving quota req' st)
  obtain y v where h: "handler_turn c (env_at t (fst j)) fi q oth req' st w = (y, v)" by fastforce
  show ?thesis
  proof (cases y)
    case (Inl x)
    then show ?thesis using turn h by (auto simp: Serving task_turn_def answer_with_def Let_def)
  next
    case (Inr st')
    then have "stage_ok c j req' R st'"
      using stage_ok_turn [OF h [unfolded Inr] _ _ read closed] ok Serving by simp
    then show ?thesis using turn h Inr ok by (auto simp: Serving task_turn_def)
  qed
qed (use turn in \<open>auto simp: task_turn_def\<close>)


context redis_shared
begin

lemma gateway_inv_step:
  assumes C: "c_redis c = C" and oth: "\<forall>r v. w_redis (snd (oth r v)) = w_redis v"
    and jobs: "jobs_storable c clk jobs" and inv: "gateway_inv val invar c jobs s"
    and step: "serve_step c clk fi q oth jobs k s s'"
  shows "gateway_inv val invar c jobs s'"
  using step
proof (cases rule: serve_step.cases)
  case (serve tks t t0 w tk w' l)
  let ?R = "held_for c jobs tks" and ?tks = "tks(k := tk)"
  let ?R' = "held_for c jobs ?tks" and ?e = "fst (jobs k)"
  have old: "invar (w_redis w)" "all_stored val (c_fr c) (c_fp c) ?R t0 (w_redis w)"
    "task_ok c (jobs j) t0 ?R (tks j)" for j
    using inv unfolding serve(1) gateway_inv_def by (simp_all add: Let_def)
  have fewer: "turns_left (?tks j) \<le> turns_left (tks j)" for j
    using task_turn_fewer [OF serve(6,3)] by simp
  have RR: "?R a \<Longrightarrow> ?R' a" for a using held_for_mono fewer by blast
  have later: "all_stored val (c_fr c) (c_fp c) ?R' t (w_redis w)"
    using all_stored_mono [OF all_stored_later [OF old(1) serve(5) old(2)] RR] .
  have ok: "task_ok c (jobs j) t ?R' (tks j)" for j using task_ok_mono [OF old(3) serve(5) RR] .
  have fl: "dumpable (c_fr c) (c_fp c) (JFloat (Fin t))" using jobs_storable_time [OF jobs serve(4)] .
  have wr: "writes_ok c ?e t ?R' (tks k)"
    unfolding writes_ok_def Let_def
  proof (intro conjI allI impI)
    fix quota req' cl d
    assume st: "tks k = Serving quota req' (Storing cl d)"
    then obtain i ctx tool where cl: "cl = call_of i ctx tool" "policy_said c (jobs k) ctx tool d" "dec_require_approval d"
      using ok [of k] by auto
    have "turns_left tk \<le> 2" using task_turn_fewer [OF serve(6,3)] st by simp
    then have "turns_left (?tks k) \<le> 2" by simp
    from held_for_new [of ?tks k c jobs, OF this cl(2,3)] policy_said_storable [OF cl(2) jobs serve(4)]
    show "storable (c_fr c) (c_fp c) (new_approval t (e_uuid ?e) (ca_agent_id cl) (ca_role cl) (ca_tool cl) (ca_args cl) (dec_reason d))"
      "?R' (new_approval t (e_uuid ?e) (ca_agent_id cl) (ca_role cl) (ca_tool cl) (ca_args cl) (dec_reason d))"
      by (simp_all add: cl(1))
  qed (use ok [of k] in auto)
  note kept = turn_keeps_stored [OF C old(1) later ok wr fl oth serve(6)]
  have "task_ok c (jobs k) t ?R' tk"
  proof (rule task_ok_turn [OF serve(6) ok])
    show "storable (c_fr c) (c_fp c) a \<and> ap_id a = i \<and> ?R' a"
      if "get_approval (c_redis c) (c_fp c) t i (w_redis w) = (Inr (Some a), r')" for i a r'
      using all_stored_read [OF old(1) later that [unfolded C]] .
  qed simp
  then have "task_ok c (jobs j) t ?R' (?tks j)" for j using ok by simp
  with kept show ?thesis unfolding serve(2) gateway_inv_def by (simp add: Let_def)
next
  case (take_lock tks t t0 w)
  let ?R = "held_for c jobs tks"
  have old: "invar (w_redis w)" "all_stored val (c_fr c) (c_fp c) ?R t0 (w_redis w)"
    "task_ok c (jobs j) t0 ?R (tks j)" for j
    using inv unfolding take_lock(1) gateway_inv_def by (simp_all add: Let_def)
  have "task_ok c (jobs j) t ?R (tks j)" for j using task_ok_mono [OF old(3) take_lock(5)] .
  with all_stored_later [OF old(1) take_lock(5) old(2)] old(1) show ?thesis
    unfolding take_lock(2) gateway_inv_def by (simp add: Let_def)
qed

lemma gateway_inv_serves:
  assumes "c_redis c = C" "\<forall>r v. w_redis (snd (oth r v)) = w_redis v" "jobs_storable c clk jobs"
    and "serves c clk fi q oth jobs s s'" "gateway_inv val invar c jobs s"
  shows "gateway_inv val invar c jobs s'"
  using assms(4) unfolding serves_def
proof (induction rule: rtranclp_induct)
  case (step s1 s2)
  then show ?case using gateway_inv_step [OF assms(1-3)] by blast
qed (rule assms(5))

lemma gateway_inv_start:
  assumes "invar (w_redis (gw_world s))" "\<forall>k. gw_task s k = Arrived"
    and "\<forall>i. val (w_redis (gw_world s)) (gw_clock s) (approval_key i) = None"
  shows "gateway_inv val invar c jobs s"
  using assms by (simp add: gateway_inv_def all_stored_def Let_def)

end


section \<open>Effects under overlap\<close>

lemma serve_step_ext:
  assumes "serve_step c clk fi q oth jobs k s s'" "\<forall>r v. w_ext (snd (oth r v)) = w_ext v"
    and "w_ext (gw_world s') \<noteq> w_ext (gw_world s)"
  obtains t quota req' st y v where "gw_task s k = Serving quota req' st"
    "handler_turn c (env_at t (fst (jobs k))) fi q oth req' st (gw_world s) = (y, v)"
    "w_ext (gw_world s') = w_ext v" "w_ext v \<noteq> w_ext (gw_world s)"
  using assms(1)
proof (cases rule: serve_step.cases)
  case (serve tks t t0 w tk w' l)
  have ext: "w_ext w' \<noteq> w_ext w" using assms(3) serve(1,2) by simp
  show thesis
  proof (cases "tks k")
    case (Serving quota req' st)
    obtain y v where h: "handler_turn c (env_at t (fst (jobs k))) fi q oth req' st w = (y, v)" by fastforce
    then have "w_ext w' = w_ext v"
      using serve(6) Serving by (auto simp: task_turn_def answer_with_def Let_def split: sum.splits)
    with h ext Serving serve(1,2) show thesis by (intro that [of quota req' st t y v]) auto
  qed (use serve(6) ext in \<open>auto simp: task_turn_def arrived_turn_def answer_with_def Let_def
      dest!: limited_turn_ext split: option.splits prod.splits sum.splits if_splits\<close>)
qed (use assms(3) in simp)

lemma inv_step_effect:
  assumes inv: "gateway_inv val invar c jobs s" and step: "serve_step c clk fi q oth jobs k s s'"
    and oth: "\<forall>r v. w_ext (snd (oth r v)) = w_ext v" and ext: "w_ext (gw_world s') \<noteq> w_ext (gw_world s)"
  obtains (cleared) ctx tool d where "policy_said c (jobs k) ctx tool d" "dec_allow d" "\<not> dec_require_approval d"
      "w_ext (gw_world s') = snd (execute_tool (c_tools c) tool (ctx_arguments ctx) (w_ext (gw_world s)))"
  | (resumed) quota req' p a where "gw_task s k = Serving quota req' (Resuming p a)"
      "callback_of c (jobs k) (ap_id a) p" "dr_decision p = ''approve''" "held_for c jobs (gw_task s) a"
      "w_ext (gw_world s') =
         snd (execute_tool (c_tools c) (ap_tool_name a) (ap_arguments a) (w_ext (gw_world s)))"
proof -
  obtain t quota req' st y v where t: "gw_task s k = Serving quota req' st"
    "handler_turn c (env_at t (fst (jobs k))) fi q oth req' st (gw_world s) = (y, v)"
    "w_ext (gw_world s') = w_ext v" "w_ext v \<noteq> w_ext (gw_world s)"
    by (rule serve_step_ext [OF step oth ext])
  let ?R = "held_for c jobs (gw_task s)"
  have ok: "task_ok c (jobs k) (gw_clock s) ?R (Serving quota req' st)"
    using inv t(1) unfolding gateway_inv_def Let_def by metis
  from t(2) oth t(4) show thesis
  proof (cases rule: handler_turn_ext)
    case (run i ctx tool d ms)
    have "policy_said c (jobs k) ctx tool d"
      using asked_policy_said [of c "jobs k" req' ?R i ctx tool] ok run(1,2) by simp
    then show thesis using run t(3) by (intro cleared [of ctx tool d]) auto
  next
    case (resume p a)
    then have "callback_of c (jobs k) (ap_id a) p" "?R a"
      "ap_status a = (if dr_decision p = ''approve'' then ''approved'' else ''denied'')"
      using ok by simp_all
    then show thesis using resume t by (intro resumed [of quota req' p a]) (auto split: if_splits)
  qed
qed

section \<open>After a decision\<close>

text \<open>No pending record of \<open>i\<close> is stored, and none will be.\<close>

definition settled ::
  "('r \<Rightarrow> rat \<Rightarrow> string \<Rightarrow> string option) \<Rightarrow> ('r, 'x) config \<Rightarrow> (nat \<Rightarrow> job) \<Rightarrow> string \<Rightarrow> ('r, 'x) gateway \<Rightarrow> bool" where
  "settled val c jobs i s \<longleftrightarrow>
     all_stored val (c_fr c) (c_fp c) (\<lambda>a. ap_id a = i \<longrightarrow> ap_status a \<noteq> ''pending'') (gw_clock s) (w_redis (gw_world s)) \<and>
     (\<forall>k. e_uuid (fst (jobs k)) = i \<longrightarrow> turns_left (gw_task s k) \<le> 2)"

text \<open>A request that reads only from now on.\<close>

definition not_read :: "task \<Rightarrow> bool" where
  "not_read tk \<longleftrightarrow> (\<forall>quota req' i p a. tk \<noteq> Serving quota req' (Resolving i p a) \<and> tk \<noteq> Serving quota req' (Resuming p a))"

lemma turn_to_resuming:
  assumes "task_turn c e fi q oth req tk w = (Serving quota req' (Resuming p a), w')"
  shows "\<exists>i b ms. tk = Serving quota req' (Resolving i p b) \<and>
    decide_write (c_redis c) (c_fr c) (e_later e) i (dr_decision p) (dr_decided_by p) b (w_redis w) (w_metrics w)
      = (Inr (Some a, Decided), w_redis w', ms)"
proof (cases tk)
  case (Serving quota' req'' st)
  then have h: "handler_turn c e fi q oth req' st w = (Inr (Resuming p a), w')" "req'' = req'" "quota' = quota"
    using assms by (auto simp: task_turn_def answer_with_def Let_def split: prod.splits sum.splits)
  then show ?thesis
  proof (cases st)
    case (Resolving i p' b)
    then show ?thesis
      using h Serving by (auto simp: handler_turn_def resolving_turn_def Let_def
          split: prod.splits sum.splits option.splits decide_outcome.splits)
  qed (auto simp: handler_turn_def decided_turn_def run_turn_def storing_turn_def notifying_turn_def
      reading_turn_def resuming_turn_def Let_def apfst_def map_prod_def
      split: endpoint.splits sum.splits prod.splits ExecutionOutcome.splits option.splits decide_outcome.splits if_splits)
qed (use assms in \<open>auto simp: task_turn_def arrived_turn_def limited_turn_def answer_with_def Let_def
    split: option.splits prod.splits sum.splits if_splits\<close>)

lemma turn_to_resolving:
  assumes "task_turn c e fi q oth req tk w = (Serving quota req' (Resolving i p a), w')"
  shows "tk = Serving quota req' (Reading i p) \<and>
    (\<exists>r. get_approval (c_redis c) (c_fp c) (e_now e) i (w_redis w) = (Inr (Some a), r)) \<and> ap_status a = ''pending''"
proof (cases tk)
  case (Serving quota' req'' st)
  then have h: "handler_turn c e fi q oth req' st w = (Inr (Resolving i p a), w')" "req'' = req'" "quota' = quota"
    using assms by (auto simp: task_turn_def answer_with_def Let_def split: prod.splits sum.splits)
  then show ?thesis
  proof (cases st)
    case (Reading i' p')
    then show ?thesis
      using h Serving by (auto simp: handler_turn_def reading_turn_def decide_guard_def Let_def
          split: prod.splits sum.splits option.splits if_splits)
  qed (auto simp: handler_turn_def decided_turn_def run_turn_def storing_turn_def notifying_turn_def
      resolving_turn_def resuming_turn_def Let_def apfst_def map_prod_def
      split: endpoint.splits sum.splits prod.splits ExecutionOutcome.splits option.splits decide_outcome.splits if_splits)
qed (use assms in \<open>auto simp: task_turn_def arrived_turn_def limited_turn_def answer_with_def Let_def
    split: option.splits prod.splits sum.splits if_splits\<close>)


context redis_shared
begin

lemma settled_step:
  assumes C: "c_redis c = C" and oth: "\<forall>r v. w_redis (snd (oth r v)) = w_redis v"
    and jobs: "jobs_storable c clk jobs" and inv: "gateway_inv val invar c jobs s"
    and set: "settled val c jobs i s" and step: "serve_step c clk fi q oth jobs k s s'"
  shows "settled val c jobs i s'"
  using step
proof (cases rule: serve_step.cases)
  case (serve tks t t0 w tk w' l)
  let ?P = "\<lambda>a. ap_id a = i \<longrightarrow> ap_status a \<noteq> ''pending''" and ?e = "fst (jobs k)"
  have old: "invar (w_redis w)" "task_ok c (jobs k) t0 (held_for c jobs tks) (tks k)"
    using inv unfolding serve(1) gateway_inv_def by (simp_all add: Let_def)
  have st: "all_stored val (c_fr c) (c_fp c) ?P t (w_redis w)"
    using set all_stored_later [OF old(1) serve(5)] unfolding serve(1) settled_def by simp
  have ids: "turns_left (tks j) \<le> 2" if "e_uuid (fst (jobs j)) = i" for j
    using set that unfolding serve(1) settled_def by simp
  have ok: "task_ok c (jobs k) t (held_for c jobs tks) (tks k)" using task_ok_mono [OF old(2) serve(5)] .
  have "writes_ok c ?e t ?P (tks k)"
    unfolding writes_ok_def Let_def
  proof (intro conjI allI impI)
    fix quota req' cl d
    assume st: "tks k = Serving quota req' (Storing cl d)"
    then have "e_uuid ?e \<noteq> i" using ids [of k] by auto
    then show "ap_status (new_approval t (e_uuid ?e) (ca_agent_id cl) (ca_role cl) (ca_tool cl) (ca_args cl) (dec_reason d)) \<noteq> ''pending''"
      if "ap_id (new_approval t (e_uuid ?e) (ca_agent_id cl) (ca_role cl) (ca_tool cl) (ca_args cl) (dec_reason d)) = i"
      using that by (simp add: new_approval_def)
    obtain i' ctx tool where cl: "cl = call_of i' ctx tool" "policy_said c (jobs k) ctx tool d"
      using ok st by auto
    from policy_said_storable [OF cl(2) jobs serve(4)]
    show "storable (c_fr c) (c_fp c) (new_approval t (e_uuid ?e) (ca_agent_id cl) (ca_role cl) (ca_tool cl) (ca_args cl) (dec_reason d))"
      by (simp add: cl(1))
  qed (use ok in auto)
  from turn_keeps_stored [OF C old(1) st ok this jobs_storable_time [OF jobs serve(4)] oth serve(6)]
  have "all_stored val (c_fr c) (c_fp c) ?P t (w_redis w')" by blast
  moreover have "turns_left ((tks(k := tk)) j) \<le> 2" if "e_uuid (fst (jobs j)) = i" for j
    using ids [OF that] task_turn_fewer [OF serve(6,3)] by (cases "j = k") auto
  ultimately show ?thesis unfolding serve(2) settled_def by simp
next
  case (take_lock tks t t0 w)
  have "invar (w_redis w)" using inv unfolding take_lock(1) gateway_inv_def by (simp add: Let_def)
  from all_stored_later [OF this take_lock(5)] set show ?thesis
    unfolding take_lock(1,2) settled_def by simp
qed

lemma settled_decided:
  assumes C: "c_redis c = C" and oth: "\<forall>r v. w_redis (snd (oth r v)) = w_redis v"
    and jobs: "jobs_storable c clk jobs" and inj: "inj (\<lambda>k. e_uuid (fst (jobs k)))"
    and inv: "gateway_inv val invar c jobs s" and step: "serve_step c clk fi q oth jobs k s s'"
    and dec: "gw_task s' k = Serving quota req' (Resuming p a)"
  shows "settled val c jobs (ap_id a) s'"
  using step
proof (cases rule: serve_step.cases)
  case (serve tks t t0 w tk w' l)
  let ?fr = "c_fr c" and ?fp = "c_fp c"
  have inv': "gateway_inv val invar c jobs s'" by (rule gateway_inv_step [OF C oth jobs inv step])
  have old: "invar (w_redis w)" "all_stored val ?fr ?fp (held_for c jobs tks) t0 (w_redis w)"
    "task_ok c (jobs k) t0 (held_for c jobs tks) (tks k)"
    using inv unfolding serve(1) gateway_inv_def by (simp_all add: Let_def)
  have "all_stored val ?fr ?fp (held_for c jobs (tks(k := tk))) t (w_redis w')"
    "task_ok c (jobs j) t (held_for c jobs (tks(k := tk))) ((tks(k := tk)) j)" for j
    using inv' unfolding serve(2) gateway_inv_def Let_def gateway.select_convs by blast+
  note new = this(1) this(2) [of k, unfolded fun_upd_same]
  have tk: "tk = Serving quota req' (Resuming p a)" using dec serve(2) by simp
  obtain i b ms where b: "tks k = Serving quota req' (Resolving i p b)"
    "decide_write (c_redis c) ?fr t i (dr_decision p) (dr_decided_by p) b (w_redis w) (w_metrics w)
      = (Inr (Some a, Decided), w_redis w', ms)"
    using turn_to_resuming [OF serve(6) [unfolded tk]] unfolding env_at_simps by (elim exE conjE)
  have sb: "storable ?fr ?fp b" "ap_id b = i" using old(3) b(1) by simp_all
  have "all_stored val ?fr ?fp (\<lambda>_. True) t (w_redis w)"
    by (rule all_stored_mono [OF all_stored_later [OF old(1) serve(5) old(2)]]) simp
  from all_stored_write [OF old(1) this sb(1) jobs_storable_time [OF jobs serve(4)] sb(2) TrueI b(2) [unfolded C]]
  have a: "a = resolve t (dr_decision p) (dr_decided_by p) b"
    and v: "val (w_redis w') t (approval_key i) \<in> {None, Some (approval_text ?fr a)}" by auto
  have i: "ap_id a = i" "ap_status a \<noteq> ''pending''" using sb(2) by (simp_all add: a)
  have sa: "storable ?fr ?fp a" using sb(1) jobs_storable_time [OF jobs serve(4)] by (simp add: a storable_iff)
  have "all_stored val ?fr ?fp (\<lambda>x. ap_id x = ap_id a \<longrightarrow> ap_status x \<noteq> ''pending'') t (w_redis w')"
    unfolding all_stored_def
  proof (intro allI impI)
    fix j u
    assume u: "val (w_redis w') t (approval_key j) = Some u"
    show "\<exists>x. u = approval_text ?fr x \<and> storable ?fr ?fp x \<and> ap_id x = j \<and>
        (ap_id x = ap_id a \<longrightarrow> ap_status x \<noteq> ''pending'')"
    proof (cases "j = i")
      case True
      then have "u = approval_text ?fr a" using u v by simp
      then show ?thesis using sa i True by blast
    next
      case False
      then show ?thesis using new(1) u i(1) unfolding all_stored_def by blast
    qed
  qed
  moreover have "turns_left ((tks(k := tk)) j) \<le> 2" if "e_uuid (fst (jobs j)) = ap_id a" for j
  proof -
    have "held_for c jobs (tks(k := tk)) a" using new(2) by (simp add: tk)
    then obtain k0 where "turns_left ((tks(k := tk)) k0) \<le> 2" "e_uuid (fst (jobs k0)) = ap_id a"
      unfolding held_for_def by blast
    moreover from this that have "k0 = j" using injD [OF inj, of k0 j] by simp
    ultimately show ?thesis by simp
  qed
  ultimately show ?thesis unfolding serve(2) settled_def by simp
qed (use dec in auto)

text \<open>So whoever has been told \<open>"decided"\<close> and is about to act, the approval is settled.\<close>

lemma resuming_settled:
  assumes C: "c_redis c = C" and oth: "\<forall>r v. w_redis (snd (oth r v)) = w_redis v"
    and jobs: "jobs_storable c clk jobs" and inj: "inj (\<lambda>k. e_uuid (fst (jobs k)))"
    and run: "serves c clk fi q oth jobs s s'" and start: "gateway_inv val invar c jobs s" "\<forall>k. gw_task s k = Arrived"
    and dec: "gw_task s' j = Serving quota req' (Resuming p a)"
  shows "settled val c jobs (ap_id a) s'"
  using run dec unfolding serves_def
proof (induction arbitrary: quota req' p rule: rtranclp_induct)
  case base
  then show ?case using start(2) by simp
next
  case (step s1 s2)
  then obtain k where k: "serve_step c clk fi q oth jobs k s1 s2" by blast
  have inv: "gateway_inv val invar c jobs s1"
    using gateway_inv_serves [OF C oth jobs _ start(1)] step(1) by (simp add: serves_def)
  show ?case
  proof (cases "k = j")
    case True
    then show ?thesis using settled_decided [OF C oth jobs inj inv k] step.prems by simp
  next
    case False
    then have "gw_task s1 j = Serving quota req' (Resuming p a)"
      using k step.prems by (auto elim!: serve_stepE)
    then show ?thesis using settled_step [OF C oth jobs inv _ k] step.IH by blast
  qed
qed

end


lemma policy_said_no_callback:
  assumes "policy_said c j ctx tool d"
  shows "approval_path act (req_path (snd j)) = None"
proof (cases "approval_path act (req_path (snd j))")
  case (Some i)
  then have "req_path (snd j) \<noteq> ''/mcp''" by (rule approval_path_public)
  moreover have "req_path (snd j) = ''/mcp''" using assms unfolding policy_said_def by (elim exE conjE)
  ultimately show ?thesis ..
qed

context redis_shared
begin

lemma not_read_step:
  assumes C: "c_redis c = C" and inv: "gateway_inv val invar c jobs s" and set: "settled val c jobs i s"
    and path: "approval_path ''decide'' (req_path (snd (jobs k))) = Some i" and nr: "not_read (gw_task s k)"
    and step: "serve_step c clk fi q oth jobs k' s s'"
  shows "not_read (gw_task s' k)"
  using step
proof (cases rule: serve_step.cases)
  case (serve tks t t0 w tk w' l)
  show ?thesis
  proof (cases "k' = k")
    case False
    then show ?thesis using nr serve(1,2) by simp
  next
    case True
    have old: "invar (w_redis w)" "all_stored val (c_fr c) (c_fp c) (\<lambda>a. ap_id a = i \<longrightarrow> ap_status a \<noteq> ''pending'') t0 (w_redis w)"
      using inv set unfolding serve(1) gateway_inv_def settled_def by (simp_all add: Let_def)
    note st = all_stored_later [OF old(1) serve(5) old(2)]
    have ok: "task_ok c (jobs k) t0 (held_for c jobs tks) (tks k)"
      using inv unfolding serve(1) gateway_inv_def Let_def gateway.select_convs by blast
    have "tk \<noteq> Serving quota req' (Resuming p a)" for quota req' p a
      using turn_to_resuming [of c "env_at t (fst (jobs k))" fi q oth "snd (jobs k)" "tks k" w quota req' p a w'] serve(6) nr
      by (auto simp: True serve(1) not_read_def)
    moreover have "tk \<noteq> Serving quota req' (Resolving i' p a)" for quota req' i' p a
    proof
      assume "tk = Serving quota req' (Resolving i' p a)"
      then obtain r where g: "get_approval (c_redis c) (c_fp c) t i' (w_redis w) = (Inr (Some a), r)"
        "ap_status a = ''pending''" and rd: "tks k = Serving quota req' (Reading i' p)"
        using turn_to_resolving [of c "env_at t (fst (jobs k))" fi q oth "snd (jobs k)" "tks k" w quota req' i' p a w']
          serve(6) True
        by auto
      have "callback_of c (jobs k) i' p" using ok rd by simp
      then have "i' = i" using path unfolding callback_of_def by (elim exE conjE) simp
      then show False using all_stored_read [OF old(1) st g(1) [unfolded C]] g(2) by simp
    qed
    ultimately show ?thesis unfolding serve(2) not_read_def using True by simp
  qed
qed (use nr in simp)

lemma late_callback_quiet:
  assumes C: "c_redis c = C" and oth: "\<forall>r v. w_redis (snd (oth r v)) = w_redis v" "\<forall>r v. w_ext (snd (oth r v)) = w_ext v"
    and jobs: "jobs_storable c clk jobs" and inv: "gateway_inv val invar c jobs s" and set: "settled val c jobs i s"
    and path: "approval_path ''decide'' (req_path (snd (jobs k))) = Some i" and nr: "not_read (gw_task s k)"
    and run: "serves c clk fi q oth jobs s s'" and step: "serve_step c clk fi q oth jobs k s' s''"
  shows "w_ext (gw_world s'') = w_ext (gw_world s')"
proof (rule ccontr)
  have "gateway_inv val invar c jobs s' \<and> settled val c jobs i s' \<and> not_read (gw_task s' k)"
    using run unfolding serves_def
  proof (induction rule: rtranclp_induct)
    case (step s1 s2)
    then show ?case
      using gateway_inv_step [OF C oth(1) jobs] settled_step [OF C oth(1) jobs] not_read_step [of c jobs _ i k, OF C _ _ path]
      by blast
  qed (use inv set nr in simp)
  then have here: "gateway_inv val invar c jobs s'" "not_read (gw_task s' k)" by simp_all
  assume "w_ext (gw_world s'') \<noteq> w_ext (gw_world s')"
  with here(1) step oth(2) show False
  proof (cases rule: inv_step_effect)
    case (cleared ctx tool d)
    then show ?thesis using policy_said_no_callback [OF cleared(1)] path by simp
  next
    case (resumed quota req' p a)
    then show ?thesis using here(2) by (simp add: not_read_def)
  qed
qed

end

end
