(* ===== verification/Schema.thy ===== *)
theory Schema
  imports Audit_Log
begin

text \<open>
  The migration \<open>migrations/versions/0001_create_audit_tables.py\<close> as data-definition commands over a
  catalogue of tables and indexes, and the fit of the audit writer's \<open>INSERT\<close> and of the query
  filters with the table it creates.  Of SQL only what the migration uses is modelled: a
  \<open>CREATE\<close> fails if the name is taken, a \<open>DROP\<close> fails if it is not, and dropping a table drops
  its indexes.
\<close>

section \<open>Tables\<close>

datatype sql_type = Uuid | Text_type | Jsonb | Timestamptz | Bigserial | Integer_type

record column =
  col_name :: string
  col_type :: sql_type
  col_not_null :: bool
  col_unique :: bool           \<comment> \<open>\<open>UNIQUE\<close> or \<open>PRIMARY KEY\<close>\<close>
  col_default :: bool          \<comment> \<open>\<open>DEFAULT\<close>, or the sequence of a \<open>BIGSERIAL\<close>\<close>

definition not_null :: "string \<Rightarrow> sql_type \<Rightarrow> column" where
  "not_null n t = \<lparr>col_name = n, col_type = t, col_not_null = True, col_unique = False, col_default = False\<rparr>"

definition nullable :: "string \<Rightarrow> sql_type \<Rightarrow> column" where
  "nullable n t = (not_null n t)\<lparr>col_not_null := False\<rparr>"

definition primary_key :: "string \<Rightarrow> sql_type \<Rightarrow> column" where
  "primary_key n t = (not_null n t)\<lparr>col_unique := True, col_default := (t = Bigserial)\<rparr>"

definition approvals_columns :: "column list" where
  "approvals_columns =
     [primary_key ''id'' Uuid, not_null ''agent_id'' Text_type, not_null ''role'' Text_type,
      not_null ''tool_name'' Text_type, not_null ''arguments'' Jsonb, nullable ''reason'' Text_type,
      not_null ''status'' Text_type, not_null ''requested_at'' Timestamptz, not_null ''expires_at'' Timestamptz,
      nullable ''decided_by'' Text_type, nullable ''decided_at'' Timestamptz]"

definition audit_log_columns :: "column list" where
  "audit_log_columns =
     [primary_key ''seq'' Bigserial, (not_null ''id'' Uuid)\<lparr>col_unique := True\<rparr>,
      not_null ''agent_id'' Text_type, not_null ''role'' Text_type, not_null ''tool_name'' Text_type,
      not_null ''args'' Jsonb, nullable ''policy_decision'' Jsonb, nullable ''approval_id'' Uuid,
      not_null ''result_status'' Text_type, nullable ''result_summary'' Jsonb,
      nullable ''duration_ms'' Integer_type, nullable ''otel_trace_id'' Text_type,
      not_null ''row_hash'' Text_type, (not_null ''created_at'' Timestamptz)\<lparr>col_default := True\<rparr>]"

section \<open>Commands\<close>

record catalogue =
  cat_tables :: "(string \<times> column list) list"
  cat_indexes :: "(string \<times> string \<times> string) list"    \<comment> \<open>index, table, column\<close>

datatype ddl =
    Create_table string "column list"
  | Create_index string string string
  | Drop_table string

text \<open>Tables and indexes share one name space.\<close>

definition taken_names :: "catalogue \<Rightarrow> string set" where
  "taken_names c = fst ` set (cat_tables c) \<union> fst ` set (cat_indexes c)"

fun execute_ddl :: "ddl \<Rightarrow> catalogue \<Rightarrow> catalogue option" where
  "execute_ddl (Create_table n cols) c =
     (if n \<in> taken_names c then None
      else Some (c\<lparr>cat_tables := cat_tables c @ [(n, cols)]\<rparr>))"
| "execute_ddl (Create_index i n col) c =
     (case map_of (cat_tables c) n of
        None \<Rightarrow> None
      | Some cols \<Rightarrow>
          if i \<in> taken_names c \<or> col \<notin> col_name ` set cols then None
          else Some (c\<lparr>cat_indexes := cat_indexes c @ [(i, n, col)]\<rparr>))"
| "execute_ddl (Drop_table n) c =
     (if n \<notin> fst ` set (cat_tables c) then None
      else Some (c\<lparr>cat_tables := filter (\<lambda>t. fst t \<noteq> n) (cat_tables c),
                  cat_indexes := filter (\<lambda>x. fst (snd x) \<noteq> n) (cat_indexes c)\<rparr>))"

fun execute_all :: "ddl list \<Rightarrow> catalogue \<Rightarrow> catalogue option" where
  "execute_all [] c = Some c"
| "execute_all (d # ds) c = (case execute_ddl d c of None \<Rightarrow> None | Some c' \<Rightarrow> execute_all ds c')"

definition audit_indexes :: "(string \<times> string \<times> string) list" where
  "audit_indexes =
     [(''idx_audit_log_agent_id'', ''audit_log'', ''agent_id''),
      (''idx_audit_log_tool_name'', ''audit_log'', ''tool_name''),
      (''idx_audit_log_created_at'', ''audit_log'', ''created_at''),
      (''idx_audit_log_result_status'', ''audit_log'', ''result_status'')]"

definition upgrade :: "ddl list" where
  "upgrade =
     [Create_table ''approvals'' approvals_columns, Create_table ''audit_log'' audit_log_columns]
     @ map (\<lambda>(i, n, col). Create_index i n col) audit_indexes"

definition downgrade :: "ddl list" where
  "downgrade = [Drop_table ''audit_log'', Drop_table ''approvals'']"

text \<open>The database the migration can be applied to: none of its names is taken, and no index dangles.\<close>

definition fresh_catalogue :: "catalogue \<Rightarrow> bool" where
  "fresh_catalogue c \<longleftrightarrow>
     {''approvals'', ''audit_log''} \<inter> taken_names c = {} \<and> fst ` set audit_indexes \<inter> taken_names c = {} \<and>
     (fst \<circ> snd) ` set (cat_indexes c) \<subseteq> fst ` set (cat_tables c)"

lemma fresh_names:
  assumes "fresh_catalogue c" "n \<in> {''approvals'', ''audit_log''}"
  shows "t \<in> set (cat_tables c) \<Longrightarrow> fst t \<noteq> n" "x \<in> set (cat_indexes c) \<Longrightarrow> fst (snd x) \<noteq> n"
    "map_of (cat_tables c) n = None"
proof -
  have "{''approvals'', ''audit_log''} \<inter> taken_names c = {}"
    using assms(1) unfolding fresh_catalogue_def by (rule conjunct1)
  from disjoint_iff [THEN iffD1, rule_format, OF this assms(2)]
  have n: "n \<notin> fst ` set (cat_tables c)" by (simp add: taken_names_def)
  then show "t \<in> set (cat_tables c) \<Longrightarrow> fst t \<noteq> n" by blast
  have "(fst \<circ> snd) ` set (cat_indexes c) \<subseteq> fst ` set (cat_tables c)" using assms(1) by (simp add: fresh_catalogue_def)
  then show "x \<in> set (cat_indexes c) \<Longrightarrow> fst (snd x) \<noteq> n" using n by auto
  show "map_of (cat_tables c) n = None" using n by (simp add: map_of_eq_None_iff)
qed

lemma upgrade_result:
  assumes "fresh_catalogue c"
  shows "execute_all upgrade c = Some
    (c\<lparr>cat_tables := cat_tables c @ [(''approvals'', approvals_columns), (''audit_log'', audit_log_columns)],
       cat_indexes := cat_indexes c @ audit_indexes\<rparr>)"
proof -
  have "map_of (cat_tables c @ [(''approvals'', approvals_columns), (''audit_log'', audit_log_columns)]) ''audit_log''
      = Some audit_log_columns"
    using fresh_names(3) [OF assms, of "''audit_log''"] by (simp add: map_add_def)
  moreover have "{''agent_id'', ''tool_name'', ''created_at'', ''result_status''} \<subseteq> col_name ` set audit_log_columns"
    by (simp add: audit_log_columns_def not_null_def nullable_def primary_key_def)
  ultimately show ?thesis
    using assms by (auto simp: upgrade_def audit_indexes_def fresh_catalogue_def taken_names_def)
qed

text \<open>
  C37: the migration can be undone.  Applied where none of its names is taken, it succeeds, and
  undoing it gives back the very catalogue it started from.
\<close>

theorem migration_round_trip:
  assumes "fresh_catalogue c"
  shows "\<exists>c'. execute_all upgrade c = Some c' \<and> execute_all downgrade c' = Some c"
proof -
  let ?c = "c\<lparr>cat_tables := cat_tables c @ [(''approvals'', approvals_columns), (''audit_log'', audit_log_columns)],
       cat_indexes := cat_indexes c @ audit_indexes\<rparr>"
  have "filter (\<lambda>t. fst t \<noteq> ''approvals'') (filter (\<lambda>t. fst t \<noteq> ''audit_log'') (cat_tables c)) = cat_tables c"
    "filter (\<lambda>x. fst (snd x) \<noteq> ''approvals'') (filter (\<lambda>x. fst (snd x) \<noteq> ''audit_log'') (cat_indexes c)) = cat_indexes c"
    using fresh_names(1,2) [OF assms] by (simp_all add: filter_id_conv)
  then have "execute_all downgrade ?c = Some c"
    by (simp add: downgrade_def audit_indexes_def)
  with upgrade_result [OF assms] show ?thesis by blast
qed

theorem migration_round_trip_witness:
  "\<exists>c'. execute_all upgrade \<lparr>cat_tables = [(''alembic_version'', [])], cat_indexes = []\<rparr> = Some c' \<and>
    execute_all downgrade c' = Some \<lparr>cat_tables = [(''alembic_version'', [])], cat_indexes = []\<rparr>"
  by (rule migration_round_trip) (auto simp: fresh_catalogue_def taken_names_def audit_indexes_def)

section \<open>The writer and the queries fit the table\<close>

text \<open>The columns of the \<open>INSERT\<close> of \<open>record_tool_call\<close>, and those the filters compare.\<close>

definition insert_columns :: "string list" where
  "insert_columns =
     [''id'', ''agent_id'', ''role'', ''tool_name'', ''args'', ''policy_decision'', ''approval_id'',
      ''result_status'', ''result_summary'', ''duration_ms'', ''otel_trace_id'', ''row_hash'', ''created_at'']"

definition filter_columns :: "string list" where
  "filter_columns = [''agent_id'', ''tool_name'', ''result_status'', ''created_at'']"

lemma insert_fits_table:
  "set insert_columns \<subseteq> col_name ` set audit_log_columns"
  "list_all (\<lambda>c. col_not_null c \<longrightarrow> col_default c \<or> col_name c \<in> set insert_columns) audit_log_columns"
  by (simp_all add: insert_columns_def audit_log_columns_def primary_key_def not_null_def nullable_def)

lemma filters_indexed: "set filter_columns = (snd \<circ> snd) ` set audit_indexes"
  by (auto simp: filter_columns_def audit_indexes_def)

end
