(* ===== verification/Overlap_Props.thy ===== *)
theory Overlap_Props
  imports Gateway_Overlap Startup
begin

text \<open>
  What the gateway guarantees however requests overlap, and what it does not: the accounting of every
  effect, the end of an approval once it has been decided, the end of every request, and a run in
  which two overlapping callbacks run one approval twice.
\<close>

section \<open>A run with overlap\<close>

text \<open>Job 0 asks for \<open>exec_into_pod\<close>, which is held as \<open>u1\<close>; all others are callbacks that approve it.\<close>

definition demo_jobs :: "nat \<Rightarrow> job" where
  "demo_jobs k =
     (if k = 0 then (demo_env, demo_request ''x'')
      else (demo_env2\<lparr>e_uuid := ''u1'' @ replicate k (CHR ''x'')\<rparr>, demo_callback2))"

abbreviation demo_serve_step :: "nat \<Rightarrow> (fake_redis, nat) gateway \<Rightarrow> (fake_redis, nat) gateway \<Rightarrow> bool" where
  "demo_serve_step \<equiv> serve_step demo_signed {100, 200} (\<lambda>_. None) demo_query demo_other demo_jobs"

abbreviation demo_serves :: "(fake_redis, nat) gateway \<Rightarrow> (fake_redis, nat) gateway \<Rightarrow> bool" where
  "demo_serves \<equiv> serves demo_signed {100, 200} (\<lambda>_. None) demo_query demo_other demo_jobs"

abbreviation demo_at :: "rat \<Rightarrow> (fake_redis, nat) world \<Rightarrow> (nat \<Rightarrow> task) \<Rightarrow> (fake_redis, nat) gateway" where
  "demo_at t w tks \<equiv> \<lparr>gw_world = w, gw_clock = t, gw_task = tks, gw_lock = None\<rparr>"

abbreviation gauge :: "(fake_redis, nat) world \<Rightarrow> rat" where
  "gauge w \<equiv> reading_of ''approvals_pending'' (w_metrics w)"

abbreviation demo_turn :: "rat \<Rightarrow> nat \<Rightarrow> task \<Rightarrow> (fake_redis, nat) world \<Rightarrow> task \<times> (fake_redis, nat) world" where
  "demo_turn t k \<equiv> task_turn demo_signed (env_at t (fst (demo_jobs k))) (\<lambda>_. None) demo_query demo_other (snd (demo_jobs k))"

lemma demo_serve_turn:
  assumes "demo_turn t k (tks k) w = (tk, w')" "0 < turns_left (tks k)" "t \<in> {100, 200}" "t0 \<le> t"
    and "\<not> needs_lock (fst (demo_jobs k)) (tks k)"
  shows "demo_serve_step k (demo_at t0 w tks) (demo_at t w' (tks(k := tk)))"
proof -
  have "demo_serve_step k (demo_at t0 w tks)
      \<lparr>gw_world = w', gw_clock = t, gw_task = tks(k := tk), gw_lock = lock_after k None\<rparr>"
    using assms by (intro serve) auto
  then show ?thesis by (simp add: lock_after_def)
qed

lemma demo_serves_turn:
  assumes "demo_serves s (demo_at t0 w tks)" "demo_turn t k (tks k) w = (tk, w')" "0 < turns_left (tks k)"
    and "t \<in> {100, 200}" "t0 \<le> t" "\<not> needs_lock (fst (demo_jobs k)) (tks k)"
  shows "demo_serves s (demo_at t w' (tks(k := tk)))"
  using assms(1) demo_serve_turn [of t k tks w, OF assms(2-6)] unfolding serves_def by (blast intro: rtranclp.rtrancl_into_rtrancl)

definition demo_payload :: ApprovalDecisionRequest where
  "demo_payload = \<lparr>dr_decision = ''approve'', dr_decided_by = ''alice'', dr_note = None\<rparr>"

text \<open>The call is held: six turns of job 0.\<close>

lemma demo_front:
  "mcp_front demo_signed (env_at 100 e) ((demo_request ''x'')\<lparr>req_agent := Some demo_agent\<rparr>) =
     Inr (JInt 1, demo_ctx ''exec_into_pod'' 100, ''exec_into_pod'')"
proof -
  have b: "demo_body ''x'' = JsonBody (tool_body ''exec_into_pod'' demo_args)" by (simp add: demo_body_def)
  have t: "''exec_into_pod'' \<in> fst ` set demo_tools" by (simp add: demo_tools_def)
  show ?thesis
    by (simp add: mcp_front_def demo_signed_simps demo_request_def b tool_body_def dict_get_def dict_get_or_def
        py_or_def call_front_def demo_intercept demo_environment known_tool_def t Let_def)
qed

lemma demo_held_turns:
  "\<exists>w quota req' k d a reason.
     demo_serves (demo_at 0 demo_world (\<lambda>_. Arrived))
       (demo_at 100 w ((\<lambda>_. Arrived)(0 := Serving quota req' (Notifying k d a)))) \<and>
     w_ext w = 0 \<and> gauge w = 1 \<and>
     kv (w_redis w) (approval_key ''u1'') = Some (approval_text whole_repr (demo_request_of reason), Some 1000)"
proof -
  let ?req = "(demo_request ''x'')\<lparr>req_agent := Some demo_agent\<rparr>" and ?ctx = "demo_ctx ''exec_into_pod'' 100"
  let ?r1 = "fake_zadd (limit_key ''agent01'') (limit_member whole_repr 100 ''l1'') 100 empty_fake"
  have p: "req_path (demo_request ''x'') = ''/mcp''" "req_method (demo_request ''x'') = ''POST''"
    "header (demo_request ''x'') ''x-api-key'' = Some ''test_key''"
    by (simp_all add: demo_request_def header_def)
  have j: "fst (demo_jobs 0) = demo_env" "snd (demo_jobs 0) = demo_request ''x''" by (simp_all add: demo_jobs_def)
  have e: "e_uuid demo_env = ''u1''" "e_limit_uuid demo_env = ''l1''" by (simp_all add: demo_env_def)
  have op: "c_opa demo_signed = opa_authz" by (simp add: demo_signed_def demo_config_def)
  have 1: "demo_turn 100 0 Arrived demo_world = (Limiting demo_agent 100, demo_world)"
    by (simp add: task_turn_def arrived_turn_def j p mcp_not_public RATE_LIMITED_PATHS_def)
  have 2: "demo_turn 100 0 (Limiting demo_agent 100) demo_world = (Counted demo_agent 100 0, demo_world)"
    by (simp add: task_turn_def check_count_def demo_signed_simps fake_zremrangebyscore_def fake_zcard_def
        demo_world_def empty_fake_def zset_of_def)
  obtain res where 3: "demo_turn 100 0 (Counted demo_agent 100 0) demo_world =
      (Serving (Some res) ?req Admitted, demo_world\<lparr>w_redis := ?r1\<rparr>)"
    by (simp add: task_turn_def check_decide_def demo_signed_simps fake_pipe_execute_def fake_expire_def
        demo_world_def limited_turn_def j e Let_def)
  let ?w = "demo_world\<lparr>w_redis := ?r1\<rparr>"
  have "route ''POST'' ''/mcp'' = EpMcp" by (simp add: route_def)
  then have 4: "demo_turn 100 0 (Serving (Some res) ?req Admitted) ?w =
      (Serving (Some res) ?req (Asking (JInt 1) ?ctx ''exec_into_pod''), ?w)"
    by (simp add: task_turn_def handler_turn_def p demo_front)
  obtain reason where pol: "evaluate_policy whole_repr opa_authz ?ctx (w_metrics ?w) =
      (Inr \<lparr>dec_allow = True, dec_require_approval = True, dec_reason = reason\<rparr>, w_metrics ?w)"
    using demo_policy(2) by blast
  let ?d = "\<lparr>dec_allow = True, dec_require_approval = True, dec_reason = reason\<rparr>" and ?k = "call_of (JInt 1) ?ctx ''exec_into_pod''"
  have 5: "demo_turn 100 0 (Serving (Some res) ?req (Asking (JInt 1) ?ctx ''exec_into_pod'')) ?w =
      (Serving (Some res) ?req (Storing ?k ?d), ?w)"
    using pol by (simp add: task_turn_def handler_turn_def demo_signed_simps op decided_turn_def demo_world_def)
  let ?a = "demo_request_of reason"
  obtain w ms where 6: "demo_turn 100 0 (Serving (Some res) ?req (Storing ?k ?d)) ?w =
      (Serving (Some res) ?req (Notifying ?k ?d ?a), w)"
    and w: "w_ext w = 0" "gauge w = 1" "kv (w_redis w) (approval_key ''u1'') = Some (approval_text whole_repr ?a, Some 1000)"
    by (simp add: task_turn_def handler_turn_def storing_turn_def create_pending_approval_def demo_signed_simps j e
        fake_set_def new_approval_def demo_request_of_def APPROVAL_TTL_SECONDS_def demo_world_def Let_def)
  have "demo_serves (demo_at 0 demo_world (\<lambda>_. Arrived)) (demo_at 0 demo_world (\<lambda>_. Arrived))"
    by (simp add: serves_def)
  from demo_serves_turn [OF this 1] have "demo_serves (demo_at 0 demo_world (\<lambda>_. Arrived))
      (demo_at 100 demo_world ((\<lambda>_. Arrived)(0 := Limiting demo_agent 100)))" by simp
  from demo_serves_turn [OF this, of 100 0 "Counted demo_agent 100 0" demo_world] 2
  have "demo_serves (demo_at 0 demo_world (\<lambda>_. Arrived))
      (demo_at 100 demo_world ((\<lambda>_. Arrived)(0 := Counted demo_agent 100 0)))" by simp
  from demo_serves_turn [OF this, of 100 0 "Serving (Some res) ?req Admitted" ?w] 3
  have "demo_serves (demo_at 0 demo_world (\<lambda>_. Arrived))
      (demo_at 100 ?w ((\<lambda>_. Arrived)(0 := Serving (Some res) ?req Admitted)))" by simp
  from demo_serves_turn [OF this, of 100 0 _ ?w] 4
  have "demo_serves (demo_at 0 demo_world (\<lambda>_. Arrived))
      (demo_at 100 ?w ((\<lambda>_. Arrived)(0 := Serving (Some res) ?req (Asking (JInt 1) ?ctx ''exec_into_pod''))))" by simp
  from demo_serves_turn [OF this, of 100 0 _ ?w] 5
  have "demo_serves (demo_at 0 demo_world (\<lambda>_. Arrived))
      (demo_at 100 ?w ((\<lambda>_. Arrived)(0 := Serving (Some res) ?req (Storing ?k ?d))))" by simp
  from demo_serves_turn [OF this, of 100 0 _ w] 6
  have "demo_serves (demo_at 0 demo_world (\<lambda>_. Arrived))
      (demo_at 100 w ((\<lambda>_. Arrived)(0 := Serving (Some res) ?req (Notifying ?k ?d ?a))))" by simp
  with w show ?thesis by blast
qed


text \<open>The turns of a callback, whatever the others have done.\<close>

lemma demo_callback2_simps:
  "req_method demo_callback2 = ''POST''" "req_path demo_callback2 = ''/admin/approvals/u1/decide''"
  "approval_path ''decide'' (req_path demo_callback2) = Some ''u1''" "is_public (req_path demo_callback2)"
  "route (req_method demo_callback2) (req_path demo_callback2) = EpDecide ''u1''"
proof -
  show p: "req_method demo_callback2 = ''POST''" "req_path demo_callback2 = ''/admin/approvals/u1/decide''"
    by (simp_all add: demo_callback2_def)
  show a: "approval_path ''decide'' (req_path demo_callback2) = Some ''u1''" unfolding p by (rule demo_path)
  note pub = approval_path_public [OF a]
  show "is_public (req_path demo_callback2)" by (rule pub)
  show "route (req_method demo_callback2) (req_path demo_callback2) = EpDecide ''u1''"
    using a pub(2) by (simp add: route_def p(1))
qed

lemma demo_callback_front: "decide_front demo_signed (env_at 200 e) demo_callback2 = Inr demo_payload"
proof -
  have "py_int ''200'' = Some 200" "\<not> int_too_large 200" by code_simp+
  then have "verify_signature ''s'' 200 (header demo_callback2 ''x-slack-request-timestamp'')
      (req_bytes demo_callback2) (header demo_callback2 ''x-slack-signature'') = Inr True"
    unfolding verify_signature_iff by (simp add: demo_callback2_def header_def REPLAY_TOLERANCE_SECONDS_def)
  then show ?thesis by (simp add: decide_front_def demo_signed_simps demo_payload_def)
qed

abbreviation demo_resolved2 :: "string \<Rightarrow> Approval" where
  "demo_resolved2 reason \<equiv> resolve 200 ''approve'' ''alice'' (demo_request_of reason)"

lemma demo_request_of_simps:
  "ap_status (demo_request_of reason) = ''pending''" "ap_expires_at (demo_request_of reason) = 1000"
  "ap_tool_name (demo_request_of reason) = ''exec_into_pod''" "ap_id (demo_request_of reason) = ''u1''"
  by (simp_all add: demo_request_of_def new_approval_def APPROVAL_TTL_SECONDS_def)

lemma demo_callback_turns:
  assumes "0 < k"
  shows "demo_turn 200 k Arrived w = (Serving None demo_callback2 Admitted, w)"
    and "demo_turn 200 k (Serving None demo_callback2 Admitted) w =
      (Serving None demo_callback2 (Reading ''u1'' demo_payload), w)"
    and "kv (w_redis w) (approval_key ''u1'') = Some (approval_text whole_repr (demo_request_of reason), Some 1000) \<Longrightarrow>
      demo_turn 200 k (Serving None demo_callback2 (Reading ''u1'' demo_payload)) w =
        (Serving None demo_callback2 (Resolving ''u1'' demo_payload (demo_request_of reason)), w)"
    and "\<exists>w'. demo_turn 200 k (Serving None demo_callback2 (Resolving ''u1'' demo_payload (demo_request_of reason))) w =
        (Serving None demo_callback2 (Resuming demo_payload (demo_resolved2 reason)), w') \<and> w_ext w' = w_ext w \<and> gauge w' = gauge w - 1"
    and "\<exists>ev status extra answer w'. demo_turn 200 k (Serving None demo_callback2 (Resuming demo_payload (demo_resolved2 reason))) w =
        (Serving None demo_callback2 (Concluding (demo_resolved2 reason) ev status extra answer), w') \<and> w_ext w' = w_ext w + 1 \<and> gauge w' = gauge w"
proof -
  have j: "snd (demo_jobs k) = demo_callback2" using assms by (simp add: demo_jobs_def)
  show "demo_turn 200 k Arrived w = (Serving None demo_callback2 Admitted, w)"
    by (simp add: task_turn_def arrived_turn_def j demo_callback2_simps(4))
  show "demo_turn 200 k (Serving None demo_callback2 Admitted) w =
      (Serving None demo_callback2 (Reading ''u1'' demo_payload), w)"
    by (simp add: task_turn_def handler_turn_def demo_callback2_simps(5) demo_callback_front)
  show "demo_turn 200 k (Serving None demo_callback2 (Reading ''u1'' demo_payload)) w =
        (Serving None demo_callback2 (Resolving ''u1'' demo_payload (demo_request_of reason)), w)"
    if "kv (w_redis w) (approval_key ''u1'') = Some (approval_text whole_repr (demo_request_of reason), Some 1000)"
  proof -
    have "storable whole_repr whole_read (demo_request_of reason)"
      unfolding storable_iff demo_request_of_def new_approval_def
      using demo_dumpable(1) [of 100] demo_dumpable(1) [of 1000] demo_dumpable(2)
      by (simp add: APPROVAL_TTL_SECONDS_def)
    from read_approval_text [OF this] that show ?thesis
      by (simp add: task_turn_def handler_turn_def reading_turn_def demo_signed_simps get_approval_def fake_get_def
          expired_def decide_guard_def demo_request_of_simps)
  qed
  show "\<exists>w'. demo_turn 200 k (Serving None demo_callback2 (Resolving ''u1'' demo_payload (demo_request_of reason))) w =
        (Serving None demo_callback2 (Resuming demo_payload (demo_resolved2 reason)), w') \<and> w_ext w' = w_ext w \<and> gauge w' = gauge w - 1"
    by (simp add: task_turn_def handler_turn_def resolving_turn_def demo_signed_simps decide_write_def fake_set_def
        demo_payload_def Let_def)
  have ex: "execute_tool demo_tools ''exec_into_pod'' args n = (Success [(''tool'', JStr ''exec_into_pod'')], n + 1)" for args n
    by (simp add: execute_tool_def demo_tools_def demo_tool_def)
  show "\<exists>ev status extra answer w'. demo_turn 200 k (Serving None demo_callback2 (Resuming demo_payload (demo_resolved2 reason))) w =
        (Serving None demo_callback2 (Concluding (demo_resolved2 reason) ev status extra answer), w') \<and> w_ext w' = w_ext w + 1 \<and> gauge w' = gauge w"
    by (simp add: task_turn_def handler_turn_def resuming_turn_def demo_signed_simps demo_request_of_simps ex
        ap_status_resolve Let_def)
qed

text \<open>A task makes its turns; the others keep theirs.\<close>

definition demo_tasks :: "task \<Rightarrow> task \<Rightarrow> task \<Rightarrow> nat \<Rightarrow> task" where
  "demo_tasks x y z k = (if k = 0 then x else if k = 1 then y else if k = 2 then z else Arrived)"

lemma demo_tasks_simps [simp]:
  "demo_tasks x y z 0 = x" "demo_tasks x y z 1 = y" "demo_tasks x y z (Suc 0) = y" "demo_tasks x y z 2 = z"
  "(demo_tasks x y z)(0 := v) = demo_tasks v y z" "(demo_tasks x y z)(1 := v) = demo_tasks x v z"
  "(demo_tasks x y z)(Suc 0 := v) = demo_tasks x v z" "(demo_tasks x y z)(2 := v) = demo_tasks x y v"
  by (auto simp: demo_tasks_def fun_eq_iff)

lemma demo_tasks_start: "(\<lambda>_. Arrived)(0 := x) = demo_tasks x Arrived Arrived"
  by (auto simp: demo_tasks_def fun_eq_iff)

text \<open>Both callbacks have read the pending record before either has written.\<close>

lemma demo_both_read:
  "\<exists>w x reason. let cb = (\<lambda>st. Serving None demo_callback2 st); rd = cb (Resolving ''u1'' demo_payload (demo_request_of reason)) in
     demo_serves (demo_at 0 demo_world (\<lambda>_. Arrived)) (demo_at 200 w (demo_tasks x rd rd)) \<and> w_ext w = 0 \<and> gauge w = 1 \<and>
     demo_serves (demo_at 0 demo_world (\<lambda>_. Arrived)) (demo_at 200 w (demo_tasks x rd (cb Admitted)))"
proof -
  let ?s = "demo_at 0 demo_world (\<lambda>_. Arrived)"
  obtain w quota req' k d a reason where h: "demo_serves ?s
       (demo_at 100 w (demo_tasks (Serving quota req' (Notifying k d a)) Arrived Arrived))" "w_ext w = 0" "gauge w = 1"
    "kv (w_redis w) (approval_key ''u1'') = Some (approval_text whole_repr (demo_request_of reason), Some 1000)"
    using demo_held_turns unfolding demo_tasks_start by blast
  let ?x = "Serving quota req' (Notifying k d a)" and ?cb = "\<lambda>st. Serving None demo_callback2 st"
  let ?rg = "?cb (Reading ''u1'' demo_payload)" and ?rd = "?cb (Resolving ''u1'' demo_payload (demo_request_of reason))"
  note t = demo_callback_turns(1,2) demo_callback_turns(3) [OF _ h(4)]
  have "demo_serves ?s (demo_at 200 w (demo_tasks ?x (?cb Admitted) Arrived))"
    using demo_serves_turn [OF h(1), of 200 1] t(1) [of 1 w] by simp
  from demo_serves_turn [OF this, of 200 1] t(2) [of 1 w]
  have "demo_serves ?s (demo_at 200 w (demo_tasks ?x ?rg Arrived))" by simp
  from demo_serves_turn [OF this, of 200 1] t(3) [of 1]
  have "demo_serves ?s (demo_at 200 w (demo_tasks ?x ?rd Arrived))" by simp
  from demo_serves_turn [OF this, of 200 2] t(1) [of 2 w]
  have mid: "demo_serves ?s (demo_at 200 w (demo_tasks ?x ?rd (?cb Admitted)))" by simp
  from demo_serves_turn [OF this, of 200 2] t(2) [of 2 w]
  have "demo_serves ?s (demo_at 200 w (demo_tasks ?x ?rd ?rg))" by simp
  from demo_serves_turn [OF this, of 200 2] t(3) [of 2]
  have "demo_serves ?s (demo_at 200 w (demo_tasks ?x ?rd ?rd))" by simp
  with mid h(2,3) show ?thesis unfolding Let_def by blast
qed


text \<open>
  C39: two overlapping callbacks run one approval twice.  The record is read, checked and written in
  separate commands: in this run of the whole gateway two signed callbacks approve one held call, both
  are told that they decided, the call runs twice, and the gauge of open approvals ends below zero.
\<close>

theorem overlapping_callbacks_run_twice:
  "\<exists>s a ev1 status1 extra1 answer1 ev2 status2 extra2 answer2.
     demo_serves (demo_at 0 demo_world (\<lambda>_. Arrived)) s \<and> ap_id a = ''u1'' \<and> ap_status a = ''approved'' \<and>
     gw_task s 1 = Serving None demo_callback2 (Concluding a ev1 status1 extra1 answer1) \<and>
     gw_task s 2 = Serving None demo_callback2 (Concluding a ev2 status2 extra2 answer2) \<and>
     w_ext demo_world = 0 \<and> w_ext (gw_world s) = 2 \<and> gauge demo_world = 0 \<and> gauge (gw_world s) = -1"
proof -
  let ?s = "demo_at 0 demo_world (\<lambda>_. Arrived)" and ?cb = "\<lambda>st. Serving None demo_callback2 st"
  obtain w x reason where r: "demo_serves ?s (demo_at 200 w (demo_tasks x (?cb (Resolving ''u1'' demo_payload (demo_request_of reason)))
      (?cb (Resolving ''u1'' demo_payload (demo_request_of reason)))))" "w_ext w = 0" "gauge w = 1"
    using demo_both_read unfolding Let_def by blast
  let ?rd = "?cb (Resolving ''u1'' demo_payload (demo_request_of reason))"
    and ?go = "?cb (Resuming demo_payload (demo_resolved2 reason))"
  obtain w1 where w1: "demo_turn 200 1 ?rd w = (?go, w1)" "w_ext w1 = w_ext w" "gauge w1 = gauge w - 1"
    using demo_callback_turns(4) [of 1 reason w] by auto
  have "demo_serves ?s (demo_at 200 w1 (demo_tasks x ?go ?rd))"
    using demo_serves_turn [OF r(1), of 200 1 ?go w1] w1(1) by simp
  note a = this
  obtain w2 where w2: "demo_turn 200 2 ?rd w1 = (?go, w2)" "w_ext w2 = w_ext w1" "gauge w2 = gauge w1 - 1"
    using demo_callback_turns(4) [of 2 reason w1] by auto
  have b: "demo_serves ?s (demo_at 200 w2 (demo_tasks x ?go ?go))"
    using demo_serves_turn [OF a, of 200 2 ?go w2] w2(1) by simp
  obtain ev1 s1 x1 y1 w3 where w3: "demo_turn 200 1 ?go w2 = (?cb (Concluding (demo_resolved2 reason) ev1 s1 x1 y1), w3)"
    "w_ext w3 = w_ext w2 + 1" "gauge w3 = gauge w2"
    using demo_callback_turns(5) [of 1 reason w2] by auto
  let ?c1 = "?cb (Concluding (demo_resolved2 reason) ev1 s1 x1 y1)"
  have c: "demo_serves ?s (demo_at 200 w3 (demo_tasks x ?c1 ?go))"
    using demo_serves_turn [OF b, of 200 1 ?c1 w3] w3(1) by simp
  obtain ev2 s2 x2 y2 w4 where w4: "demo_turn 200 2 ?go w3 = (?cb (Concluding (demo_resolved2 reason) ev2 s2 x2 y2), w4)"
    "w_ext w4 = w_ext w3 + 1" "gauge w4 = gauge w3"
    using demo_callback_turns(5) [of 2 reason w3] by auto
  let ?c2 = "?cb (Concluding (demo_resolved2 reason) ev2 s2 x2 y2)"
  have "demo_serves ?s (demo_at 200 w4 (demo_tasks x ?c1 ?c2))"
    using demo_serves_turn [OF c, of 200 2 ?c2 w4] w4(1) by simp
  moreover have "w_ext w4 = 2" "gauge w4 = -1" using r(2,3) w1(2,3) w2(2,3) w3(2,3) w4(2,3) by simp_all
  moreover have "ap_id (demo_resolved2 reason) = ''u1''" "ap_status (demo_resolved2 reason) = ''approved''"
    "w_ext demo_world = 0" "gauge demo_world = 0"
    by (simp_all add: demo_request_of_simps ap_status_resolve demo_world_def)
  ultimately show ?thesis
    by (intro exI [of _ "demo_at 200 w4 (demo_tasks x ?c1 ?c2)"] exI [of _ "demo_resolved2 reason"] exI conjI)
      (assumption | simp)+
qed

text \<open>The hypotheses of the guarantees hold of this gateway.\<close>

lemma demo_jobs_ok:
  "jobs_storable demo_signed {100, 200} demo_jobs" "inj (\<lambda>k. e_uuid (fst (demo_jobs k)))"
  "redis_shared (c_redis demo_signed) fake_ents fake_val fake_invar"
  "\<forall>i. fake_val (w_redis demo_world) 0 (approval_key i) = None" "fake_invar (w_redis demo_world)"
  "\<forall>r v. w_redis (snd (demo_other r v)) = w_redis v" "\<forall>r v. w_ext (snd (demo_other r v)) = w_ext v"
proof -
  have b: "demo_body ''x'' = JsonBody (tool_body ''exec_into_pod'' demo_args)" "demo_body ''{}'' = BadJson"
    by (simp_all add: demo_body_def)
  have "dumpable whole_repr whole_read (JFloat (Fin 1000))" "dumpable whole_repr whole_read (JFloat (Fin 1100))"
    "dumpable whole_repr whole_read (JFloat (Fin 100))" "dumpable whole_repr whole_read (JFloat (Fin 200))"
    using demo_dumpable(1) by simp_all
  moreover have "c_body demo_signed (req_bytes (snd (demo_jobs k))) = JsonBody v \<Longrightarrow> dumpable whole_repr whole_read v" for k v
    using demo_dumpable(3) by (cases "k = 0") (simp_all add: demo_jobs_def demo_signed_simps demo_request_def demo_callback2_def b)
  ultimately show "jobs_storable demo_signed {100, 200} demo_jobs"
    unfolding jobs_storable_def by (simp add: demo_signed_simps APPROVAL_TTL_SECONDS_def)
  show "inj (\<lambda>k. e_uuid (fst (demo_jobs k)))"
  proof (rule injI)
    fix k l
    have len: "length (e_uuid (fst (demo_jobs m))) = m + 2" for m
      by (simp add: demo_jobs_def demo_env_def)
    assume "e_uuid (fst (demo_jobs k)) = e_uuid (fst (demo_jobs l))"
    then have "length (e_uuid (fst (demo_jobs k))) = length (e_uuid (fst (demo_jobs l)))" by (rule arg_cong)
    then show "k = l" unfolding len by simp
  qed
  show "redis_shared (c_redis demo_signed) fake_ents fake_val fake_invar"
    using fake_shared.redis_shared_axioms by (simp add: demo_signed_simps)
qed (simp_all add: demo_world_def fake_val_def empty_fake_def fake_invar_empty [unfolded empty_fake_def] demo_other_def)

text \<open>One callback has decided and is about to act; the other has not read the approval yet.\<close>

lemma demo_one_decided:
  "\<exists>w x reason. let cb = (\<lambda>st. Serving None demo_callback2 st) in
     demo_serves (demo_at 0 demo_world (\<lambda>_. Arrived))
       (demo_at 200 w (demo_tasks x (cb (Resuming demo_payload (demo_resolved2 reason))) (cb Admitted))) \<and> w_ext w = 0"
proof -
  let ?s = "demo_at 0 demo_world (\<lambda>_. Arrived)" and ?cb = "\<lambda>st. Serving None demo_callback2 st"
  obtain w x reason where r: "demo_serves ?s (demo_at 200 w (demo_tasks x (?cb (Resolving ''u1'' demo_payload (demo_request_of reason)))
      (?cb Admitted)))" "w_ext w = 0"
    using demo_both_read unfolding Let_def by blast
  let ?rd = "?cb (Resolving ''u1'' demo_payload (demo_request_of reason))"
    and ?go = "?cb (Resuming demo_payload (demo_resolved2 reason))"
  obtain w1 where w1: "demo_turn 200 1 ?rd w = (?go, w1)" "w_ext w1 = w_ext w"
    using demo_callback_turns(4) [of 1 reason w] by auto
  have m: "demo_serves ?s (demo_at 200 w1 (demo_tasks x ?go (?cb Admitted)))"
    using demo_serves_turn [OF r(1), of 200 1 ?go w1] w1(1) by simp
  show ?thesis
    unfolding Let_def using m r(2) w1(2) by (intro exI [of _ w1] exI [of _ x] exI [of _ reason] conjI) simp_all
qed

section \<open>Guarantees under overlap\<close>

text \<open>
  C6: overlapping requests, every effect accounted for.  Serve any requests at once, interleaved at
  their awaits in any order, over any Redis client that keeps the contract, failures included, from a
  store without approvals.  Whenever a turn changes the systems behind the tools, either the policy
  had allowed that very call of its request without approval, or the request is a signed callback
  that approves, and what runs is the tool with the arguments of a call the policy wanted held,
  made by a request of this identifier that has already sent its record to the store.
\<close>

theorem overlapping_effects_accounted_for:
  assumes "redis_shared (c_redis c) ents val invar" "invar (w_redis (gw_world s))"
    and "\<forall>i. val (w_redis (gw_world s)) (gw_clock s) (approval_key i) = None" "\<forall>k. gw_task s k = Arrived"
    and "jobs_storable c clk jobs"
    and "\<forall>r v. w_redis (snd (oth r v)) = w_redis v" "\<forall>r v. w_ext (snd (oth r v)) = w_ext v"
    and "serves c clk fi q oth jobs s s1" "serve_step c clk fi q oth jobs k s1 s2"
    and "w_ext (gw_world s2) \<noteq> w_ext (gw_world s1)"
  shows "(\<exists>ctx tool d. policy_said c (jobs k) ctx tool d \<and> dec_allow d \<and> \<not> dec_require_approval d \<and>
      w_ext (gw_world s2) = snd (execute_tool (c_tools c) tool (ctx_arguments ctx) (w_ext (gw_world s1)))) \<or>
    (\<exists>i p k0 ctx tool d. callback_of c (jobs k) i p \<and> dr_decision p = ''approve'' \<and>
      e_uuid (fst (jobs k0)) = i \<and> turns_left (gw_task s1 k0) \<le> 2 \<and>
      policy_said c (jobs k0) ctx tool d \<and> dec_require_approval d \<and>
      w_ext (gw_world s2) = snd (execute_tool (c_tools c) tool (ctx_arguments ctx) (w_ext (gw_world s1))))"
proof -
  have "gateway_inv val invar c jobs s"
    by (rule redis_shared.gateway_inv_start [OF assms(1,2,4,3)])
  from redis_shared.gateway_inv_serves [OF assms(1) refl assms(6,5,8) this]
  have "gateway_inv val invar c jobs s1" .
  from this assms(9,7,10) show ?thesis
  proof (cases rule: inv_step_effect)
    case (cleared ctx tool d)
    then show ?thesis by blast
  next
    case (resumed quota req' p a)
    then show ?thesis unfolding held_for_def by (intro disjI2) (elim exE conjE, fastforce)
  qed
qed

theorem overlapping_effects_accounted_for_witness:
  "\<exists>s1 s2. demo_serve_step 1 s1 s2 \<and> w_ext (gw_world s2) = 1 \<and>
    (\<exists>k0 ctx tool d. e_uuid (fst (demo_jobs k0)) = ''u1'' \<and> turns_left (gw_task s1 k0) \<le> 2 \<and>
      policy_said demo_signed (demo_jobs k0) ctx tool d \<and> dec_require_approval d \<and>
      w_ext (gw_world s2) = snd (execute_tool (c_tools demo_signed) tool (ctx_arguments ctx) (w_ext (gw_world s1))))"
proof -
  let ?s = "demo_at 0 demo_world (\<lambda>_. Arrived)" and ?cb = "\<lambda>st. Serving None demo_callback2 st"
  obtain w x reason where r: "demo_serves ?s
      (demo_at 200 w (demo_tasks x (?cb (Resuming demo_payload (demo_resolved2 reason))) (?cb Admitted)))" "w_ext w = 0"
    using demo_one_decided unfolding Let_def by blast
  let ?tks = "demo_tasks x (?cb (Resuming demo_payload (demo_resolved2 reason))) (?cb Admitted)"
  obtain st w' where t: "demo_turn 200 1 (?tks 1) w = (?cb st, w')" "w_ext w' = 1"
    using demo_callback_turns(5) [of 1 reason w] r(2) by fastforce
  have step: "demo_serve_step 1 (demo_at 200 w ?tks) (demo_at 200 w' (?tks(1 := ?cb st)))"
    by (rule demo_serve_turn [of 200 1 ?tks w, OF t(1)]) simp_all
  have start: "fake_invar (w_redis (gw_world ?s))"
    "\<forall>i. fake_val (w_redis (gw_world ?s)) (gw_clock ?s) (approval_key i) = None" "\<forall>k. gw_task ?s k = Arrived"
    using demo_jobs_ok(4,5) by simp_all
  have "w_ext (gw_world (demo_at 200 w' (?tks(1 := ?cb st)))) \<noteq> w_ext (gw_world (demo_at 200 w ?tks))"
    using t(2) r(2) by simp
  note acc = overlapping_effects_accounted_for [OF demo_jobs_ok(3) start demo_jobs_ok(1,6,7) r(1) step this]
  have path: "approval_path ''decide'' (req_path (snd (demo_jobs 1))) = Some ''u1''"
    by (simp add: demo_jobs_def demo_callback2_simps(3))
  have "\<not> policy_said demo_signed (demo_jobs 1) ctx tool d" for ctx tool d
    using policy_said_no_callback [of demo_signed "demo_jobs 1"] path by fastforce
  then obtain i p k0 ctx tool d where c: "callback_of demo_signed (demo_jobs 1) i p"
    "e_uuid (fst (demo_jobs k0)) = i" "turns_left (gw_task (demo_at 200 w ?tks) k0) \<le> 2"
    "policy_said demo_signed (demo_jobs k0) ctx tool d" "dec_require_approval d"
    "w_ext (gw_world (demo_at 200 w' (?tks(1 := ?cb st)))) =
       snd (execute_tool (c_tools demo_signed) tool (ctx_arguments ctx) (w_ext (gw_world (demo_at 200 w ?tks))))"
    using acc by blast
  have "i = ''u1''" using c(1) path unfolding callback_of_def by (elim exE conjE) simp
  then have u: "e_uuid (fst (demo_jobs k0)) = ''u1''" using c(2) by simp
  have one: "w_ext (gw_world (demo_at 200 w' (?tks(1 := ?cb st)))) = 1" using t(2) by simp
  show ?thesis
    by (rule exI [of _ "demo_at 200 w ?tks"], rule exI [of _ "demo_at 200 w' (?tks(1 := ?cb st))"], intro conjI,
        rule step, rule one, rule exI [of _ k0], rule exI [of _ ctx], rule exI [of _ tool], rule exI [of _ d],
        intro conjI, rule u, rule c(3), rule c(4), rule c(5), rule c(6))
qed

text \<open>
  C7: after a decision, nothing more runs.  As soon as one callback has been told that it decided an
  approval, a callback for the same approval that has not yet read it (it may be anywhere before
  that) never changes the systems behind the tools, however the requests interleave from there.
\<close>

theorem late_callback_runs_nothing:
  assumes "redis_shared (c_redis c) ents val invar" "invar (w_redis (gw_world s))"
    and "\<forall>i. val (w_redis (gw_world s)) (gw_clock s) (approval_key i) = None" "\<forall>k. gw_task s k = Arrived"
    and "jobs_storable c clk jobs" "inj (\<lambda>k. e_uuid (fst (jobs k)))"
    and "\<forall>r v. w_redis (snd (oth r v)) = w_redis v" "\<forall>r v. w_ext (snd (oth r v)) = w_ext v"
    and "serves c clk fi q oth jobs s s1" "gw_task s1 j = Serving quota req' (Resuming p a)"
    and "approval_path ''decide'' (req_path (snd (jobs k))) = Some (ap_id a)" "not_read (gw_task s1 k)"
    and "serves c clk fi q oth jobs s1 s2" "serve_step c clk fi q oth jobs k s2 s3"
  shows "w_ext (gw_world s3) = w_ext (gw_world s2)"
proof -
  have start: "gateway_inv val invar c jobs s"
    by (rule redis_shared.gateway_inv_start [OF assms(1,2,4,3)])
  have "gateway_inv val invar c jobs s1"
    by (rule redis_shared.gateway_inv_serves [OF assms(1) refl assms(7,5,9) start])
  moreover have "settled val c jobs (ap_id a) s1"
    by (rule redis_shared.resuming_settled [OF assms(1) refl assms(7,5,6,9) start assms(4,10)])
  ultimately show ?thesis
    by (rule redis_shared.late_callback_quiet [OF assms(1) refl assms(7,8,5) _ _ assms(11-14)])
qed

theorem late_callback_runs_nothing_witness:
  "\<exists>s1 s2 s3. demo_serve_step 2 s1 s2 \<and> demo_serve_step 2 s2 s3 \<and> w_ext (gw_world s3) = w_ext (gw_world s2)"
proof -
  let ?s = "demo_at 0 demo_world (\<lambda>_. Arrived)" and ?cb = "\<lambda>st. Serving None demo_callback2 st"
  obtain w x reason where r: "demo_serves ?s
      (demo_at 200 w (demo_tasks x (?cb (Resuming demo_payload (demo_resolved2 reason))) (?cb Admitted)))"
    using demo_one_decided unfolding Let_def by blast
  let ?tks = "demo_tasks x (?cb (Resuming demo_payload (demo_resolved2 reason))) (?cb Admitted)"
  let ?s1 = "demo_at 200 w ?tks" and ?rg = "?cb (Reading ''u1'' demo_payload)"
  have t: "demo_turn 200 2 (?tks 2) w = (?rg, w)" using demo_callback_turns(2) [of 2 w] by simp
  have step: "demo_serve_step 2 ?s1 (demo_at 200 w (?tks(2 := ?rg)))"
    by (rule demo_serve_turn [of 200 2 ?tks w, OF t]) simp_all
  obtain tk w' where t2: "demo_turn 200 2 ((?tks(2 := ?rg)) 2) w = (tk, w')" by fastforce
  have step2: "demo_serve_step 2 (demo_at 200 w (?tks(2 := ?rg))) (demo_at 200 w' ((?tks(2 := ?rg))(2 := tk)))"
    by (rule demo_serve_turn [of 200 2 "?tks(2 := ?rg)" w, OF t2]) simp_all
  have start: "fake_invar (w_redis (gw_world ?s))"
    "\<forall>i. fake_val (w_redis (gw_world ?s)) (gw_clock ?s) (approval_key i) = None" "\<forall>k. gw_task ?s k = Arrived"
    using demo_jobs_ok(4,5) by simp_all
  have dec: "gw_task ?s1 1 = ?cb (Resuming demo_payload (demo_resolved2 reason))" by simp
  have path: "approval_path ''decide'' (req_path (snd (demo_jobs 2))) = Some (ap_id (demo_resolved2 reason))"
    by (simp add: demo_jobs_def demo_callback2_simps(3) demo_request_of_simps)
  have nr: "not_read (gw_task ?s1 2)" by (simp add: not_read_def)
  have run: "demo_serves ?s1 (demo_at 200 w (?tks(2 := ?rg)))" unfolding serves_def using step by blast
  from late_callback_runs_nothing [OF demo_jobs_ok(3) start demo_jobs_ok(1,2,6,7) r dec path nr run step2]
  show ?thesis using step step2 by blast
qed

text \<open>The order in which requests make their turns.\<close>

fun serves_in_order ::
  "('r, 'x) config \<Rightarrow> rat set \<Rightarrow> (string \<Rightarrow> int option) \<Rightarrow> (http_request \<Rightarrow> http_response + audit_query)
     \<Rightarrow> ('r, 'x) world handler \<Rightarrow> (nat \<Rightarrow> job) \<Rightarrow> nat list \<Rightarrow> ('r, 'x) gateway \<Rightarrow> ('r, 'x) gateway \<Rightarrow> bool" where
  "serves_in_order c clk fi q oth jobs [] s s' \<longleftrightarrow> s' = s"
| "serves_in_order c clk fi q oth jobs (k # ks) s s' \<longleftrightarrow>
     (\<exists>s1. serve_step c clk fi q oth jobs k s s1 \<and> serves_in_order c clk fi q oth jobs ks s1 s')"

text \<open>The steps a request has left: its turns, and the lock if it may still have to take it.\<close>

definition steps_left :: "nat \<Rightarrow> ('r, 'x) gateway \<Rightarrow> nat" where
  "steps_left k s =
     (let n = turns_left (gw_task s k) in if n = 0 then 0 else if gw_lock s = Some k then n else n + 1)"

text \<open>Whoever holds the lock is about to make the turn that needs it.\<close>

definition lock_ok :: "(nat \<Rightarrow> job) \<Rightarrow> ('r, 'x) gateway \<Rightarrow> bool" where
  "lock_ok jobs s \<longleftrightarrow> (\<forall>h. gw_lock s = Some h \<longrightarrow> needs_lock (fst (jobs h)) (gw_task s h))"

lemma needs_lock_turns: "needs_lock e tk \<Longrightarrow> turns_left tk = 1"
  by (cases "(e, tk)" rule: needs_lock.cases) auto

lemma turns_left_le: "turns_left tk \<le> 8"
proof (cases tk)
  case (Serving quota req' st)
  then show ?thesis by (cases st) simp_all
qed simp_all

lemma steps_left_le: "steps_left k s \<le> 9"
  using turns_left_le [of "gw_task s k"] by (simp add: steps_left_def Let_def)

lemma steps_left_0 [simp]: "steps_left k s = 0 \<longleftrightarrow> turns_left (gw_task s k) = 0"
  by (simp add: steps_left_def Let_def)

lemma lock_ok_step:
  assumes "serve_step c clk fi q oth jobs k s s'" "lock_ok jobs s"
  shows "lock_ok jobs s'"
  using assms by (cases rule: serve_step.cases) (auto simp: lock_ok_def lock_after_def split: if_splits)

text \<open>A step uses up one of its request's steps and none of the others'.\<close>

lemma step_steps:
  assumes "serve_step c clk fi q oth jobs k s s'" "lock_ok jobs s"
  shows "(if j = k then 1 else 0) + steps_left j s' \<le> steps_left j s"
  using assms(1)
proof (cases rule: serve_step.cases)
  case (serve tks t t0 w tk w' l)
  have fewer: "turns_left tk < turns_left (tks k)" by (rule task_turn_fewer [OF serve(6,3)])
  moreover have "turns_left (tks k) = 1" if "l = Some k"
    using assms(2) that needs_lock_turns unfolding serve(1) lock_ok_def by simp
  ultimately show ?thesis using serve(1,2) by (auto simp: steps_left_def lock_after_def Let_def)
next
  case (take_lock tks t t0 w)
  then show ?thesis using needs_lock_turns [OF take_lock(3)] by (auto simp: steps_left_def Let_def)
qed

lemma order_steps:
  "serves_in_order c clk fi q oth jobs ks s s' \<Longrightarrow> lock_ok jobs s \<Longrightarrow>
     count_list ks k + steps_left k s' \<le> steps_left k s \<and> lock_ok jobs s'"
proof (induction ks arbitrary: s)
  case (Cons k' ks)
  then obtain s1 where s1: "serve_step c clk fi q oth jobs k' s s1" "serves_in_order c clk fi q oth jobs ks s1 s'"
    by auto
  from Cons.IH [OF s1(2) lock_ok_step [OF s1(1) Cons.prems(2)]] step_steps [OF s1(1) Cons.prems(2), of k]
  show ?case by (auto split: if_splits)
qed simp

text \<open>A request that needs no lock, or holds it, makes its turn; one that finds it free takes it.\<close>

lemma turn_enabled:
  assumes "0 < turns_left (gw_task s k)" "t \<in> clk" "gw_clock s \<le> t"
    and "needs_lock (fst (jobs k)) (gw_task s k) \<longrightarrow> gw_lock s = Some k"
  shows "\<exists>s'. serve_step c clk fi q oth jobs k s s' \<and> gw_clock s' = t \<and> gw_lock s' = lock_after k (gw_lock s) \<and>
    (\<forall>j. j \<noteq> k \<longrightarrow> gw_task s' j = gw_task s j)"
proof -
  obtain w t0 tks l where s: "s = \<lparr>gw_world = w, gw_clock = t0, gw_task = tks, gw_lock = l\<rparr>" by (cases s)
  obtain tk w' where "task_turn c (env_at t (fst (jobs k))) fi q oth (snd (jobs k)) (tks k) w = (tk, w')" by fastforce
  then have "serve_step c clk fi q oth jobs k s
      \<lparr>gw_world = w', gw_clock = t, gw_task = tks(k := tk), gw_lock = lock_after k l\<rparr>"
    unfolding s using assms by (intro serve) (simp_all add: s)
  then show ?thesis by (intro exI conjI) (assumption, simp_all add: s)
qed

lemma lock_enabled:
  assumes "needs_lock (fst (jobs k)) (gw_task s k)" "gw_lock s = None" "t \<in> clk" "gw_clock s \<le> t"
  shows "\<exists>s'. serve_step c clk fi q oth jobs k s s' \<and> gw_clock s' = t"
proof -
  obtain w t0 tks where s: "s = \<lparr>gw_world = w, gw_clock = t0, gw_task = tks, gw_lock = None\<rparr>"
    using assms(2) by (cases s) simp
  have "serve_step c clk fi q oth jobs k s \<lparr>gw_world = w, gw_clock = t, gw_task = tks, gw_lock = Some k\<rparr>"
    unfolding s using assms by (intro take_lock) (simp_all add: s)
  then show ?thesis by (intro exI conjI) (assumption, simp)
qed

text \<open>No deadlock: a request that has to wait waits for one that can go on and hands the lock over.\<close>

lemma step_or_wait:
  assumes "lock_ok jobs s" "0 < turns_left (gw_task s k)" "t \<in> clk" "gw_clock s \<le> t"
  shows "(\<exists>s1. serve_step c clk fi q oth jobs k s s1 \<and> gw_clock s1 = t) \<or>
    (\<exists>h s1 s2. gw_lock s = Some h \<and> h \<noteq> k \<and> serve_step c clk fi q oth jobs h s s1 \<and>
       serve_step c clk fi q oth jobs k s1 s2 \<and> gw_clock s2 = t)"
proof (cases "needs_lock (fst (jobs k)) (gw_task s k) \<longrightarrow> gw_lock s = Some k")
  case True
  from turn_enabled [of s k t clk jobs, OF assms(2-4) this] show ?thesis by blast
next
  case waits: False
  show ?thesis
  proof (cases "gw_lock s")
    case None
    with lock_enabled [OF _ None assms(3,4)] waits show ?thesis by blast
  next
    case (Some h)
    then have h: "needs_lock (fst (jobs h)) (gw_task s h)" "h \<noteq> k" using assms(1) waits by (auto simp: lock_ok_def)
    have "0 < turns_left (gw_task s h)" using needs_lock_turns [OF h(1)] by simp
    from turn_enabled [of s h t clk jobs c fi q oth, OF this assms(3,4)] Some
    obtain s1 where s1: "serve_step c clk fi q oth jobs h s s1" "gw_clock s1 = t" "gw_lock s1 = None"
      "\<forall>j. j \<noteq> h \<longrightarrow> gw_task s1 j = gw_task s j"
      by (auto simp: lock_after_def)
    have "needs_lock (fst (jobs k)) (gw_task s1 k)" using waits h(2) s1(4) by simp
    from lock_enabled [of jobs k s1 t clk c fi q oth, OF this s1(3) assms(3)] s1(2)
    obtain s2 where "serve_step c clk fi q oth jobs k s1 s2" "gw_clock s2 = t" by blast
    with s1(1) Some h(2) show ?thesis by blast
  qed
qed

lemma serves_in_order_append:
  "serves_in_order c clk fi q oth jobs (ks @ ks') s s' \<longleftrightarrow>
     (\<exists>s1. serves_in_order c clk fi q oth jobs ks s s1 \<and> serves_in_order c clk fi q oth jobs ks' s1 s')"
  by (induction ks arbitrary: s) auto

lemma all_can_end:
  assumes "finite K" "t \<in> clk"
  shows "lock_ok jobs s \<Longrightarrow> gw_clock s \<le> t \<Longrightarrow>
    \<exists>ks s'. serves_in_order c clk fi q oth jobs ks s s' \<and> (\<forall>k \<in> K. turns_left (gw_task s' k) = 0)"
proof (induction "\<Sum>k \<in> K. steps_left k s" arbitrary: s rule: less_induct)
  case less
  show ?case
  proof (cases "\<forall>k \<in> K. turns_left (gw_task s k) = 0")
    case True
    then show ?thesis by (intro exI [of _ "[]"] exI [of _ s]) simp
  next
    case False
    then obtain k where k: "k \<in> K" "0 < turns_left (gw_task s k)" by auto
    from step_or_wait [OF less.prems(1) k(2) assms(2) less.prems(2)]
    obtain ks s1 where s1: "serves_in_order c clk fi q oth jobs ks s s1" "k \<in> set ks" "gw_clock s1 = t"
    proof
      assume "\<exists>s1. serve_step c clk fi q oth jobs k s s1 \<and> gw_clock s1 = t"
      then obtain s1 where "serve_step c clk fi q oth jobs k s s1" "gw_clock s1 = t" by blast
      then show thesis by (intro that [of "[k]" s1]) simp_all
    next
      assume "\<exists>h s1 s2. gw_lock s = Some h \<and> h \<noteq> k \<and> serve_step c clk fi q oth jobs h s s1 \<and>
        serve_step c clk fi q oth jobs k s1 s2 \<and> gw_clock s2 = t"
      then obtain h s1 s2 where "serve_step c clk fi q oth jobs h s s1" "serve_step c clk fi q oth jobs k s1 s2"
        "gw_clock s2 = t" by blast
      then show thesis by (intro that [of "[h, k]" s2]) auto
    qed
    note st = order_steps [OF s1(1) less.prems(1)]
    have "0 < count_list ks k" using s1(2) by (meson count_list_0_iff neq0_conv)
    then have "steps_left k s1 < steps_left k s" using st [of k] by linarith
    moreover have "steps_left j s1 \<le> steps_left j s" for j using st [of j] by linarith
    ultimately have "(\<Sum>k \<in> K. steps_left k s1) < (\<Sum>k \<in> K. steps_left k s)"
      by (intro sum_strict_mono_ex1 [OF assms(1)]) (use k(1) in auto)
    from less.hyps [OF this] st s1(3)
    obtain ks' s' where "serves_in_order c clk fi q oth jobs ks' s1 s'" "\<forall>k \<in> K. turns_left (gw_task s' k) = 0"
      by auto
    with s1(1) have "serves_in_order c clk fi q oth jobs (ks @ ks') s s'"
      by (auto simp: serves_in_order_append)
    with \<open>\<forall>k \<in> K. turns_left (gw_task s' k) = 0\<close> show ?thesis by blast
  qed
qed

text \<open>
  C17: every request ends.  From a start at which nobody holds the advisory lock, in whatever order
  the steps are made, a request makes at most nine: eight turns, and taking the lock for its audit
  row.  There is no deadlock: as long as it is not answered, either it can make its next step, or it
  waits for the lock of another request, which can end its transaction, and after that it can make
  its next step.  So any finite number of requests can be brought to their answers.
\<close>

theorem every_request_ends:
  assumes "serves_in_order c clk fi q oth jobs ks s s'" "gw_lock s = None"
    and "t \<in> clk" "gw_clock s' \<le> t" "finite K"
  shows "count_list ks k \<le> 9 \<and>
    (turns_left (gw_task s' k) = 0 \<or> (\<exists>s1. serve_step c clk fi q oth jobs k s' s1) \<or>
     (\<exists>h s1 s2. gw_lock s' = Some h \<and> h \<noteq> k \<and> serve_step c clk fi q oth jobs h s' s1 \<and>
        serve_step c clk fi q oth jobs k s1 s2)) \<and>
    (\<exists>ks' s''. serves_in_order c clk fi q oth jobs ks' s' s'' \<and> (\<forall>j \<in> K. turns_left (gw_task s'' j) = 0))"
proof -
  have "lock_ok jobs s" using assms(2) by (simp add: lock_ok_def)
  from order_steps [OF assms(1) this] have st: "count_list ks k + steps_left k s' \<le> steps_left k s" "lock_ok jobs s'"
    by simp_all
  have "count_list ks k \<le> 9" using st(1) steps_left_le [of k s] by linarith
  moreover from step_or_wait [OF st(2) _ assms(3,4), of k] have "turns_left (gw_task s' k) = 0 \<or>
      (\<exists>s1. serve_step c clk fi q oth jobs k s' s1) \<or>
      (\<exists>h s1 s2. gw_lock s' = Some h \<and> h \<noteq> k \<and> serve_step c clk fi q oth jobs h s' s1 \<and>
        serve_step c clk fi q oth jobs k s1 s2)" by blast
  ultimately show ?thesis using all_can_end [OF assms(5,3) st(2) assms(4)] by blast
qed

theorem every_request_ends_witness:
  "\<exists>s. demo_serve_step 1 (demo_at 0 demo_world (\<lambda>_. Arrived)) s \<and>
    (\<exists>ks s'. serves_in_order demo_signed {100, 200} (\<lambda>_. None) demo_query demo_other demo_jobs ks s s' \<and>
       (\<forall>j \<in> {0, 1, 2}. turns_left (gw_task s' j) = 0))"
proof -
  let ?s = "demo_at 0 demo_world (\<lambda>_. Arrived)"
    and ?s1 = "demo_at 200 demo_world ((\<lambda>_. Arrived)(1 := Serving None demo_callback2 Admitted))"
  have t: "demo_turn 200 1 ((\<lambda>_. Arrived) (1::nat)) demo_world = (Serving None demo_callback2 Admitted, demo_world)"
    using demo_callback_turns(1) [of 1] by simp
  have step: "demo_serve_step 1 ?s ?s1"
    by (rule demo_serve_turn [of 200 1 "\<lambda>_. Arrived" demo_world, OF t]) simp_all
  then have "serves_in_order demo_signed {100, 200} (\<lambda>_. None) demo_query demo_other demo_jobs [1] ?s ?s1"
    by simp
  from every_request_ends [OF this, of 200 "{0, 1, 2}"] step show ?thesis by (intro exI [of _ ?s1]) simp
qed

end
