(* ===== verification/Migration_Run.thy ===== *)
theory Migration_Run
  imports Startup
begin

text \<open>
  \<open>migrations/env.py\<close>: how the migration finds the database and runs.  The address of the
  application is rewritten for the driver and stored in Alembic's configuration, a
  \<open>configparser\<close> that rejects a raw percent sign and interpolates what it reads; the pending
  revisions then run in one transaction.  Alembic's configuration (with its documented behaviour as
  a hypothesis), the pending revisions and the failures of the connection are arguments.
\<close>

section \<open>The address\<close>

text \<open>\<open>s.replace(old, new, 1)\<close>\<close>

fun replace_first :: "string \<Rightarrow> string \<Rightarrow> string \<Rightarrow> string" where
  "replace_first old new s =
     (if startswith s old then new @ drop (length old) s
      else (case s of [] \<Rightarrow> [] | c # cs \<Rightarrow> c # replace_first old new cs))"

declare replace_first.simps [simp del]

definition PLAIN_SCHEME :: string where "PLAIN_SCHEME = ''postgresql://''"

definition ASYNC_SCHEME :: string where "ASYNC_SCHEME = ''postgresql+asyncpg://''"

definition sqlalchemy_url :: "(string \<rightharpoonup> string) \<Rightarrow> string" where
  "sqlalchemy_url env = replace_first PLAIN_SCHEME ASYNC_SCHEME (DATABASE_URL env)"

lemma replace_first_head: "replace_first old new (old @ rest) = new @ rest"
  by (simp add: replace_first.simps startswith_def)

lemma replace_first_absent:
  "(\<nexists>pre post. s = pre @ old @ post) \<Longrightarrow> replace_first old new s = s"
proof (induction s)
  case Nil
  then have "\<not> startswith [] old" by (auto simp: startswith_def)
  then show ?case by (simp add: replace_first.simps)
next
  case (Cons c s)
  have "\<not> startswith (c # s) old" using Cons.prems unfolding startswith_def prefix_def by (metis append_Nil)
  moreover have "\<nexists>pre post. s = pre @ old @ post" using Cons.prems by (metis append_Cons)
  ultimately show ?case using Cons.IH by (simp add: replace_first.simps [of old new "c # s"])
qed

section \<open>The configuration\<close>

text \<open>
  \<open>BasicInterpolation.before_set\<close>: without the doubled percent signs, then without the references
  \<open>%(name)s\<close>, no percent sign may be left.
\<close>

fun drop_doubled :: "string \<Rightarrow> string" where
  "drop_doubled (a # b # s) =
     (if a = CHR ''%'' \<and> b = CHR ''%'' then drop_doubled s else a # drop_doubled (b # s))"
| "drop_doubled s = s"

text \<open>A reference at the start of the text: what follows it.\<close>

definition after_reference :: "string \<Rightarrow> string option" where
  "after_reference s =
     (if startswith s ''%('' then
        (let name = takeWhile (\<lambda>c. c \<noteq> CHR '')'') (drop 2 s); rest = dropWhile (\<lambda>c. c \<noteq> CHR '')'') (drop 2 s) in
         if name \<noteq> [] \<and> startswith rest '')s'' then Some (drop 2 rest) else None)
      else None)"

lemma after_reference_shorter: "after_reference s = Some r \<Longrightarrow> length r < length s"
proof -
  assume "after_reference s = Some r"
  then have r: "r = drop 2 (dropWhile (\<lambda>c. c \<noteq> CHR '')'') (drop 2 s))" and "startswith s ''%(''"
    by (auto simp: after_reference_def Let_def split: if_splits)
  then have "s \<noteq> []" by auto
  have "length r \<le> length (dropWhile (\<lambda>c. c \<noteq> CHR '')'') (drop 2 s))" by (simp add: r)
  also have "\<dots> \<le> length s - 2" using length_dropWhile_le [of _ "drop 2 s"] by simp
  also have "\<dots> < length s" using \<open>s \<noteq> []\<close> by simp
  finally show ?thesis .
qed

function (sequential) drop_references :: "string \<Rightarrow> string" where
  "drop_references [] = []"
| "drop_references (c # s) =
     (case after_reference (c # s) of Some r \<Rightarrow> drop_references r | None \<Rightarrow> c # drop_references s)"
  by pat_completeness auto

termination
  by (relation "measure length") (auto dest: after_reference_shorter)

definition config_accepts :: "string \<Rightarrow> bool" where
  "config_accepts v \<longleftrightarrow> CHR ''%'' \<notin> set (drop_references (drop_doubled v))"

text \<open>
  Alembic's configuration is an argument, \<open>store\<close>: what reading the address back gives after it was
  set.  Its documentation says that the value is passed to \<open>ConfigParser.set\<close>, so that a raw percent
  sign that is not part of an interpolation has to be escaped; a value without percent signs is
  kept.
\<close>

definition documented_config :: "(string \<Rightarrow> string result) \<Rightarrow> bool" where
  "documented_config store \<longleftrightarrow>
     (\<forall>v. CHR ''%'' \<notin> set v \<longrightarrow> store v = Inr v) \<and>
     (\<forall>v. \<not> config_accepts v \<longrightarrow> (\<exists>m. store v = Inl (PyError ValueError m)))"

lemma drop_doubled_plain: "CHR ''%'' \<notin> set v \<Longrightarrow> drop_doubled v = v"
  by (induction v rule: drop_doubled.induct) auto

lemma drop_references_plain: "CHR ''%'' \<notin> set v \<Longrightarrow> drop_references v = v"
proof (induction v)
  case (Cons c v)
  then have "after_reference (c # v) = None" by (auto simp: after_reference_def)
  with Cons show ?case by simp
qed simp

lemma plain_accepted: "CHR ''%'' \<notin> set v \<Longrightarrow> config_accepts v"
  by (simp add: config_accepts_def drop_doubled_plain drop_references_plain)

text \<open>Some percent sign is followed by an opening parenthesis; without one, nothing is a reference.\<close>

fun opens_reference :: "string \<Rightarrow> bool" where
  "opens_reference (a # b # s) \<longleftrightarrow> a = CHR ''%'' \<and> b = CHR ''('' \<or> opens_reference (b # s)"
| "opens_reference _ \<longleftrightarrow> False"

lemma drop_doubled_starts: "b \<noteq> CHR ''%'' \<Longrightarrow> drop_doubled (b # s) = b # drop_doubled s"
  by (cases s) auto

lemma opens_reference_doubled: "\<not> opens_reference v \<Longrightarrow> \<not> opens_reference (drop_doubled v)"
proof (induction v rule: drop_doubled.induct)
  case (1 a b s)
  show ?case
  proof (cases "a = CHR ''%'' \<and> b = CHR ''%''")
    case True
    then have "\<not> opens_reference s" using "1.prems" by (cases s) auto
    with "1.IH"(1) [OF True] True show ?thesis by simp
  next
    case False
    have IH: "\<not> opens_reference (drop_doubled (b # s))" using "1.IH"(2) [OF False] "1.prems" by simp
    show ?thesis
    proof (cases "a = CHR ''%''")
      case True
      then have "b \<noteq> CHR ''%''" "b \<noteq> CHR ''(''" using False "1.prems" by auto
      with IH True False show ?thesis by (simp add: drop_doubled_starts)
    next
      case a: False
      with IH show ?thesis by (cases "drop_doubled (b # s)") simp_all
    qed
  qed
qed simp_all

lemma drop_references_none: "\<not> opens_reference v \<Longrightarrow> drop_references v = v"
proof (induction v)
  case (Cons c v)
  then have "after_reference (c # v) = None" by (cases v) (auto simp: after_reference_def startswith_def)
  moreover have "\<not> opens_reference v" using Cons.prems by (cases v) auto
  ultimately show ?case using Cons.IH by simp
qed simp

lemma raw_percent_rejected:
  "\<not> opens_reference v \<Longrightarrow> CHR ''%'' \<in> set (drop_doubled v) \<Longrightarrow> \<not> config_accepts v"
  by (simp add: config_accepts_def drop_references_none opens_reference_doubled)

text \<open>A piece without percent signs can be replaced by another.\<close>

lemma drop_doubled_split:
  "c \<noteq> CHR ''%'' \<Longrightarrow> drop_doubled (x @ c # y) = drop_doubled x @ c # drop_doubled y"
  by (induction x rule: drop_doubled.induct) (auto simp: drop_doubled_starts)

lemma opens_reference_split:
  "c \<noteq> CHR ''%'' \<Longrightarrow> c \<noteq> CHR ''('' \<Longrightarrow> opens_reference (x @ c # y) \<longleftrightarrow> opens_reference x \<or> opens_reference y"
  by (induction x rule: opens_reference.induct) (cases y, auto)+

lemma plain_start:
  "CHR ''%'' \<notin> set q \<Longrightarrow> CHR ''('' \<notin> set q \<Longrightarrow>
     drop_doubled (q @ y) = q @ drop_doubled y \<and> (opens_reference (q @ y) \<longleftrightarrow> opens_reference y)"
proof (induction q)
  case (Cons d q)
  then have d: "d \<noteq> CHR ''%''" "d \<noteq> CHR ''(''" by auto
  from opens_reference_split [OF d, of "[]" "q @ y"] Cons show ?case by (simp add: drop_doubled_starts [OF d(1)])
qed simp

lemma plain_piece:
  assumes "CHR ''%'' \<notin> set q" "CHR ''('' \<notin> set q" "q \<noteq> []"
  shows "drop_doubled (x @ q @ y) = drop_doubled x @ q @ drop_doubled y"
    and "opens_reference (x @ q @ y) \<longleftrightarrow> opens_reference x \<or> opens_reference y"
proof -
  obtain c q' where q: "q = c # q'" using assms(3) by (cases q) auto
  then have c: "c \<noteq> CHR ''%''" "c \<noteq> CHR ''(''" and q': "CHR ''%'' \<notin> set q'" "CHR ''('' \<notin> set q'"
    using assms(1,2) by auto
  show "drop_doubled (x @ q @ y) = drop_doubled x @ q @ drop_doubled y"
    by (simp add: q drop_doubled_split [OF c(1)] plain_start [OF q'])
  show "opens_reference (x @ q @ y) \<longleftrightarrow> opens_reference x \<or> opens_reference y"
    by (simp add: q opens_reference_split [OF c] plain_start [OF q'])
qed

lemma replace_first_cases:
  "replace_first old new s = s \<or> (\<exists>pre post. s = pre @ old @ post \<and> replace_first old new s = pre @ new @ post)"
proof (induction s)
  case Nil
  show ?case by (cases "startswith [] old") (auto simp: replace_first.simps startswith_def)
next
  case (Cons c s)
  show ?case
  proof (cases "startswith (c # s) old")
    case True
    then obtain post where "c # s = old @ post" unfolding startswith_def prefix_def by blast
    then show ?thesis using replace_first_head [of old new post] by (intro disjI2 exI [of _ "[]"] exI [of _ post]) simp
  next
    case False
    then have "replace_first old new (c # s) = c # replace_first old new s" by (simp add: replace_first.simps [of old new "c # s"])
    with Cons.IH show ?thesis by (metis append_Cons)
  qed
qed

lemma sqlalchemy_url_percent:
  assumes "v = DATABASE_URL env"
  shows "opens_reference (sqlalchemy_url env) \<longleftrightarrow> opens_reference v"
    and "CHR ''%'' \<in> set (drop_doubled (sqlalchemy_url env)) \<longleftrightarrow> CHR ''%'' \<in> set (drop_doubled v)"
proof -
  have "sqlalchemy_url env = v \<or> (\<exists>pre post. v = pre @ PLAIN_SCHEME @ post \<and> sqlalchemy_url env = pre @ ASYNC_SCHEME @ post)"
    using replace_first_cases [of PLAIN_SCHEME ASYNC_SCHEME v] by (simp add: sqlalchemy_url_def assms)
  moreover have plain: "CHR ''%'' \<notin> set PLAIN_SCHEME" "CHR ''('' \<notin> set PLAIN_SCHEME" "PLAIN_SCHEME \<noteq> []"
    by (simp_all add: PLAIN_SCHEME_def)
  moreover have "CHR ''%'' \<notin> set ASYNC_SCHEME" "CHR ''('' \<notin> set ASYNC_SCHEME" "ASYNC_SCHEME \<noteq> []"
    by (simp_all add: ASYNC_SCHEME_def)
  note async = this
  note pieces = plain_piece [OF plain] plain_piece [OF async]
  ultimately show "opens_reference (sqlalchemy_url env) \<longleftrightarrow> opens_reference v"
    "CHR ''%'' \<in> set (drop_doubled (sqlalchemy_url env)) \<longleftrightarrow> CHR ''%'' \<in> set (drop_doubled v)"
    using async(1) by (auto simp: pieces)
qed


section \<open>The run\<close>

datatype engine_event = Connected string | Disconnected | Disposed

text \<open>
  \<open>with context.begin_transaction(): context.run_migrations()\<close>: Postgres undoes the commands of a
  transaction that fails.  \<open>pending\<close> gives the commands of the revisions still to be applied.
\<close>

definition do_run_migrations :: "(catalogue \<Rightarrow> ddl list) \<Rightarrow> catalogue \<Rightarrow> unit result \<times> catalogue" where
  "do_run_migrations pending c =
     (case execute_all (pending c) c of
        None \<Rightarrow> (Inl (PyError DatabaseError ''migration failed''), c)
      | Some c' \<Rightarrow> (Inr (), c'))"

definition run_migrations_online ::
  "string \<Rightarrow> exn option \<Rightarrow> (catalogue \<Rightarrow> ddl list) \<Rightarrow> catalogue \<Rightarrow> unit result \<times> catalogue \<times> engine_event list" where
  "run_migrations_online url unreachable pending c =
     (case unreachable of
        Some ex \<Rightarrow> (Inl ex, c, [])
      | None \<Rightarrow>
          (case do_run_migrations pending c of
             (Inl ex, c') \<Rightarrow> (Inl ex, c', [Connected url, Disconnected])
           | (Inr _, c') \<Rightarrow> (Inr (), c', [Connected url, Disconnected, Disposed])))"

text \<open>The module itself, online.\<close>

definition env_main ::
  "(string \<Rightarrow> string result) \<Rightarrow> (string \<rightharpoonup> string) \<Rightarrow> exn option \<Rightarrow> (catalogue \<Rightarrow> ddl list) \<Rightarrow> catalogue
     \<Rightarrow> unit result \<times> catalogue \<times> engine_event list" where
  "env_main store env unreachable pending c =
     (case store (sqlalchemy_url env) of
        Inl ex \<Rightarrow> (Inl ex, c, [])
      | Inr url \<Rightarrow> run_migrations_online url unreachable pending c)"

text \<open>All pending commands are applied, or none and the exception is the result; a connection that
  was opened is closed either way.\<close>

lemma migrations_all_or_nothing:
  assumes "env_main store env unreachable pending c = (x, c', evs)"
  shows "x = Inr () \<and> execute_all (pending c) c = Some c' \<or> (\<exists>ex. x = Inl ex) \<and> c' = c"
    and "evs = [] \<or> (\<exists>url rest. evs = Connected url # Disconnected # rest)"
  using assms
  by (auto simp: env_main_def run_migrations_online_def do_run_migrations_def split: sum.splits option.splits prod.splits)

text \<open>
  Where \<open>DATABASE_URL\<close> has the scheme the comment expects and no percent sign, a first run reaches
  the database of the application and leaves the tables of the audit log.
\<close>

lemma first_migration:
  assumes "documented_config store" "env ''DATABASE_URL'' = Some (PLAIN_SCHEME @ rest)" "CHR ''%'' \<notin> set rest"
    and "fresh_catalogue c" "pending c = upgrade"
  shows "\<exists>c'. env_main store env None pending c =
      (Inr (), c', [Connected (ASYNC_SCHEME @ rest), Disconnected, Disposed]) \<and>
    map_of (cat_tables c') ''audit_log'' = Some audit_log_columns"
proof -
  have u: "sqlalchemy_url env = ASYNC_SCHEME @ rest"
    by (simp add: sqlalchemy_url_def DATABASE_URL_def getenv_def assms(2) replace_first_head)
  have "CHR ''%'' \<notin> set (ASYNC_SCHEME @ rest)" using assms(3) by (simp add: ASYNC_SCHEME_def)
  then have "store (sqlalchemy_url env) = Inr (ASYNC_SCHEME @ rest)"
    using assms(1) by (simp add: u documented_config_def)
  moreover have "map_of (cat_tables c @ [(''approvals'', approvals_columns), (''audit_log'', audit_log_columns)]) ''audit_log''
      = Some audit_log_columns"
    using fresh_names(3) [OF assms(4), of "''audit_log''"] by (simp add: map_add_def)
  ultimately show ?thesis
    by (simp add: env_main_def run_migrations_online_def do_run_migrations_def assms(5) upgrade_result [OF assms(4)])
qed

text \<open>Any other scheme of a Postgres address is left as it is: the driver is then not named.\<close>

lemma short_scheme_kept:
  "env ''DATABASE_URL'' = Some ''postgres://db/m'' \<Longrightarrow> sqlalchemy_url env = ''postgres://db/m''"
  by (simp add: sqlalchemy_url_def DATABASE_URL_def getenv_def PLAIN_SCHEME_def replace_first.simps)

text \<open>
  C38: a percent sign stops the migration.  Whatever its scheme, if an address holds percent signs
  that are not all doubled (a password with escaped characters, say) and none of them opens a
  reference, \<open>env.py\<close> raises \<open>ValueError\<close> before it connects, and the tables are never created.  The
  application hands the same address to the driver as it is.
\<close>

theorem percent_sign_stops_migration:
  assumes "documented_config store" "env ''DATABASE_URL'' = Some v"
    and "CHR ''%'' \<in> set (drop_doubled v)" "\<not> opens_reference v"
  shows "\<exists>m. env_main store env unreachable pending c = (Inl (PyError ValueError m), c, []) \<and>
    create_db_pool env = PgPool v 1 10"
proof -
  have v: "v = DATABASE_URL env" by (simp add: DATABASE_URL_def getenv_def assms(2))
  have "\<not> config_accepts (sqlalchemy_url env)"
    by (rule raw_percent_rejected) (simp_all add: sqlalchemy_url_percent [OF v] assms(3,4))
  then obtain m where "store (sqlalchemy_url env) = Inl (PyError ValueError m)"
    using assms(1) unfolding documented_config_def by blast
  then show ?thesis by (simp add: env_main_def create_db_pool_def v)
qed

theorem percent_sign_stops_migration_witness:
  "\<exists>m. env_main (\<lambda>v. if config_accepts v then Inr v else Inl (PyError ValueError ''invalid interpolation syntax''))
        [''DATABASE_URL'' \<mapsto> ''postgresql://app:p%40s%21@db/m''] None (\<lambda>_. upgrade) \<lparr>cat_tables = [], cat_indexes = []\<rparr> =
      (Inl (PyError ValueError m), \<lparr>cat_tables = [], cat_indexes = []\<rparr>, []) \<and>
    create_db_pool [''DATABASE_URL'' \<mapsto> ''postgresql://app:p%40s%21@db/m''] = PgPool ''postgresql://app:p%40s%21@db/m'' 1 10"
  by (rule percent_sign_stops_migration) (simp_all add: documented_config_def plain_accepted)

end
