(* ===== verification/K8s_Client.thy ===== *)
theory K8s_Client
  imports PyValues Timestamps
begin

text \<open>
  What the tool executors share: \<open>app/tools/config.py\<close> (the timeout of every downstream call) and
  \<open>app/tools/k8s_client.py\<close> (the cached clients and the mapping of the client's exceptions).

  The systems behind the tools and the libraries that talk to them are outside the repository: the
  record \<open>outside\<close> holds one operation per call the executors make, each a function of the call's
  arguments and the state of the outside world \<open>'k\<close>, which it may change.  What the program keeps
  itself, the caches of \<open>lru_cache\<close>, is in \<open>tool_state\<close>.
\<close>

section \<open>Executors as state transformers\<close>

definition ret :: "'a \<Rightarrow> 'w \<Rightarrow> 'a result \<times> 'w" where
  "ret a w = (Inr a, w)"

definition lift_res :: "'a result \<Rightarrow> 'w \<Rightarrow> 'a result \<times> 'w" where
  "lift_res r w = (r, w)"

definition require :: "bool \<Rightarrow> exn \<Rightarrow> 'w \<Rightarrow> unit result \<times> 'w" where
  "require b e w = (if b then (Inr (), w) else (Inl e, w))"

definition validation_error :: "string \<Rightarrow> exn" where
  "validation_error m = ExecutorError ''validation_error'' m"

lemma require_simps [simp]: "require True e w = (Inr (), w)" "require False e w = (Inl e, w)"
  by (simp_all add: require_def)

lemma bind_require [simp]:
  "bind_st (require b e) f w = (if b then f () w else (Inl e, w))"
  by (simp add: bind_st_def require_def)

lemma bind_lift_res: "bind_st (lift_res r) f w = (case r of Inl e \<Rightarrow> (Inl e, w) | Inr a \<Rightarrow> f a w)"
  by (simp add: bind_st_def lift_res_def split: sum.split)

lemma bind_ret [simp]: "bind_st (ret a) f w = f a w"
  by (simp add: bind_st_def ret_def)

section \<open>The executor timeout\<close>

definition DEFAULT_TIMEOUT_SECONDS :: pyfloat where
  "DEFAULT_TIMEOUT_SECONDS = Fin 10"

definition MAX_TIMEOUT_SECONDS :: pyfloat where
  "MAX_TIMEOUT_SECONDS = Fin 30"

text \<open>
  Comparison of floats, as the instance of \<open>ord\<close>: it is not an order, NaN is not even equal to
  itself.
\<close>

fun float_less :: "pyfloat \<Rightarrow> pyfloat \<Rightarrow> bool" where
  "float_less NaN _ = False"
| "float_less _ NaN = False"
| "float_less (Fin a) (Fin b) = (a < b)"
| "float_less NegInf b = (b \<noteq> NegInf)"
| "float_less (Fin _) b = (b = PosInf)"
| "float_less PosInf _ = False"

instantiation pyfloat :: ord
begin

definition less_pyfloat_def: "a < b \<longleftrightarrow> float_less a b"

definition less_eq_pyfloat_def: "a \<le> b \<longleftrightarrow> float_less a b \<or> a = b \<and> a \<noteq> NaN"

instance ..

end

lemma pyfloat_compare [simp]:
  "Fin a < Fin b \<longleftrightarrow> a < b" "Fin a \<le> Fin b \<longleftrightarrow> a \<le> b" "\<not> NaN < x" "\<not> x < NaN" "\<not> NaN \<le> x" "\<not> x \<le> NaN"
  "Fin a < PosInf" "NegInf < Fin a" "\<not> PosInf < x" "\<not> x < NegInf"
  by (cases x; auto simp: less_pyfloat_def less_eq_pyfloat_def)+

text \<open>Python's \<open>min\<close> and \<open>max\<close> of two: the first unless the second is beyond it.\<close>

definition py_min :: "pyfloat \<Rightarrow> pyfloat \<Rightarrow> pyfloat" where
  "py_min a b = (if b < a then b else a)"

definition py_max :: "pyfloat \<Rightarrow> pyfloat \<Rightarrow> pyfloat" where
  "py_max a b = (if a < b then b else a)"

text \<open>
  \<open>to_float\<close> is \<open>float()\<close> of a text, or nothing for its \<open>ValueError\<close>: the decimal to binary
  conversion is a parameter, and what is proved holds for every such function.
\<close>

definition get_executor_timeout :: "(string \<Rightarrow> pyfloat option) \<Rightarrow> string option \<Rightarrow> pyfloat" where
  "get_executor_timeout to_float raw =
     (case raw of
        None \<Rightarrow> DEFAULT_TIMEOUT_SECONDS
      | Some s \<Rightarrow>
          (case to_float s of
             None \<Rightarrow> DEFAULT_TIMEOUT_SECONDS
           | Some v \<Rightarrow> py_max (Fin 1) (py_min v MAX_TIMEOUT_SECONDS)))"

lemma timeout_in_range: "\<exists>r. get_executor_timeout to_float raw = Fin r \<and> 1 \<le> r \<and> r \<le> 30"
proof -
  have "\<exists>r. py_max (Fin 1) (py_min v MAX_TIMEOUT_SECONDS) = Fin r \<and> 1 \<le> r \<and> r \<le> 30" for v
    by (cases v) (auto simp: py_max_def py_min_def MAX_TIMEOUT_SECONDS_def)
  then show ?thesis
    by (auto simp: get_executor_timeout_def DEFAULT_TIMEOUT_SECONDS_def split: option.split)
qed

section \<open>The outside world\<close>

datatype load_reply =
    Loaded
  | ConfigException string
  | LoadRaises pyclass string

datatype 'a k8s_reply =
    K8sOk 'a
  | ApiException int string        \<comment> \<open>status, reason\<close>
  | MaxRetryError bool string      \<comment> \<open>whether the cause is a timeout; the message\<close>
  | K8sRaises pyclass string

datatype resource_reply =
    ResourceFound bool             \<comment> \<open>whether it is namespaced\<close>
  | ResourceNotFoundError
  | ResourceNotUniqueError string
  | ResourceRaises pyclass string

record container_status =
  cs_ready :: bool
  cs_restart_count :: int

record pod =
  pod_name :: "string option"
  pod_phase :: "string option"
  pod_container_statuses :: "container_status list option"
  pod_created :: "int option"      \<comment> \<open>microseconds since 1970, UTC\<close>

record deployment_condition =
  cond_type :: string
  cond_status :: string
  cond_reason :: "string option"
  cond_message :: "string option"
  cond_last_update :: "int option"

record deployment =
  dep_name :: "string option"
  dep_namespace :: "string option"
  dep_created :: "int option"
  dep_spec_replicas :: "int option"
  dep_images :: "string option list option"   \<comment> \<open>of the containers of the pod template\<close>
  dep_ready_replicas :: "int option"
  dep_available_replicas :: "int option"
  dep_conditions :: "deployment_condition list option"

record http_call =
  hc_method :: string
  hc_base :: string
  hc_path :: string
  hc_headers :: "(string \<times> string) list"
  hc_auth :: "(string \<times> string option) option"
  hc_params :: json
  hc_timeout :: pyfloat

record http_answer =
  ha_status :: int
  ha_json :: "json option"         \<comment> \<open>nothing when the body is not JSON\<close>
  ha_location :: "string option"

datatype http_reply =
    HttpTimeout string             \<comment> \<open>\<open>httpx.TimeoutException\<close>\<close>
  | HttpError string               \<comment> \<open>another \<open>httpx.HTTPError\<close>\<close>
  | HttpRaises pyclass string
  | HttpAnswer http_answer

record 'k outside =
  out_clock :: "'k \<Rightarrow> int"
  out_incluster :: "'k \<Rightarrow> load_reply"
  out_kubeconfig :: "'k \<Rightarrow> load_reply"
  out_discover :: "'k \<Rightarrow> (pyclass \<times> string) option \<times> 'k"
  out_pod_log :: "dict \<Rightarrow> pyfloat \<Rightarrow> 'k \<Rightarrow> string k8s_reply \<times> 'k"
  out_list_pods :: "dict \<Rightarrow> pyfloat \<Rightarrow> 'k \<Rightarrow> pod list k8s_reply \<times> 'k"
  out_read_deployment :: "dict \<Rightarrow> pyfloat \<Rightarrow> 'k \<Rightarrow> deployment k8s_reply \<times> 'k"
  out_patch_deployment :: "dict \<Rightarrow> pyfloat \<Rightarrow> 'k \<Rightarrow> unit k8s_reply \<times> 'k"
  out_patch_scale :: "dict \<Rightarrow> pyfloat \<Rightarrow> 'k \<Rightarrow> unit k8s_reply \<times> 'k"
  out_exec :: "dict \<Rightarrow> pyfloat \<Rightarrow> 'k \<Rightarrow> string k8s_reply \<times> 'k"
  out_resource :: "json \<Rightarrow> json \<Rightarrow> 'k \<Rightarrow> resource_reply \<times> 'k"
  out_apply :: "json \<Rightarrow> json \<Rightarrow> dict \<Rightarrow> pyfloat \<Rightarrow> 'k \<Rightarrow> unit k8s_reply \<times> 'k"
  out_http :: "http_call \<Rightarrow> 'k \<Rightarrow> http_reply \<times> 'k"

record 'k tool_state =
  ts_config :: bool                \<comment> \<open>\<open>_load_config\<close> has returned\<close>
  ts_core :: bool                  \<comment> \<open>the clients that are cached\<close>
  ts_apps :: bool
  ts_dynamic :: bool
  ts_out :: 'k

type_synonym ('k, 'a) tool_monad = "'k tool_state \<Rightarrow> 'a result \<times> 'k tool_state"

text \<open>The environment variables, with the two conversions of floats.\<close>

record tool_settings =
  set_to_float :: "string \<Rightarrow> pyfloat option"
  set_fr :: "rat \<Rightarrow> string"
  EXECUTOR_TIMEOUT_SECONDS :: "string option"
  TFC_URL :: string
  TFC_ORG :: "string option"
  TFC_TOKEN :: "string option"
  JENKINS_URL :: string
  JENKINS_USER :: "string option"
  JENKINS_API_TOKEN :: "string option"
  PROMETHEUS_URL :: string
  PAGERDUTY_URL :: string
  PAGERDUTY_API_TOKEN :: "string option"
  JIRA_URL :: string
  JIRA_USER :: "string option"
  JIRA_API_TOKEN :: "string option"

text \<open>Reading the variables: \<open>os.getenv(name, default).rstrip("/")\<close> for the base addresses.\<close>

definition base_url :: "(string \<rightharpoonup> string) \<Rightarrow> string \<Rightarrow> string \<Rightarrow> string" where
  "base_url env name dflt =
     rev (dropWhile (\<lambda>c. c = CHR ''/'') (rev (case env name of None \<Rightarrow> dflt | Some v \<Rightarrow> v)))"

definition terraform_env :: "(string \<rightharpoonup> string) \<Rightarrow> string \<times> string option \<times> string option" where
  "terraform_env env = (base_url env ''TFC_URL'' ''https://app.terraform.io/api/v2'', env ''TFC_ORG'', env ''TFC_TOKEN'')"

definition jenkins_env :: "(string \<rightharpoonup> string) \<Rightarrow> string \<times> string option \<times> string option" where
  "jenkins_env env = (base_url env ''JENKINS_URL'' [], env ''JENKINS_USER'', env ''JENKINS_API_TOKEN'')"

definition prometheus_env :: "(string \<rightharpoonup> string) \<Rightarrow> string" where
  "prometheus_env env = base_url env ''PROMETHEUS_URL'' ''http://localhost:9090''"

definition ticket_env ::
  "(string \<rightharpoonup> string) \<Rightarrow> string \<times> string option \<times> string \<times> string option \<times> string option" where
  "ticket_env env =
     (base_url env ''PAGERDUTY_URL'' ''https://api.pagerduty.com'', env ''PAGERDUTY_API_TOKEN'',
      base_url env ''JIRA_URL'' [], env ''JIRA_USER'', env ''JIRA_API_TOKEN'')"

definition settings_of :: "(string \<Rightarrow> pyfloat option) \<Rightarrow> (rat \<Rightarrow> string) \<Rightarrow> (string \<rightharpoonup> string) \<Rightarrow> tool_settings" where
  "settings_of to_float fr env =
     (let (tfc_url, tfc_org, tfc_token) = terraform_env env; (jenkins_url, jenkins_user, jenkins_token) = jenkins_env env;
          (pd_url, pd_token, jira_url, jira_user, jira_token) = ticket_env env in
      \<lparr>set_to_float = to_float, set_fr = fr, EXECUTOR_TIMEOUT_SECONDS = env ''EXECUTOR_TIMEOUT_SECONDS'',
       TFC_URL = tfc_url, TFC_ORG = tfc_org, TFC_TOKEN = tfc_token,
       JENKINS_URL = jenkins_url, JENKINS_USER = jenkins_user, JENKINS_API_TOKEN = jenkins_token,
       PROMETHEUS_URL = prometheus_env env, PAGERDUTY_URL = pd_url, PAGERDUTY_API_TOKEN = pd_token,
       JIRA_URL = jira_url, JIRA_USER = jira_user, JIRA_API_TOKEN = jira_token\<rparr>)"

text \<open>A base address never ends in a slash, so a path that starts with one follows it exactly once.\<close>

lemma base_url_no_slash: "base_url env name dflt = [] \<or> last (base_url env name dflt) \<noteq> CHR ''/''"
proof -
  have "rev (dropWhile P xs) = [] \<or> \<not> P (last (rev (dropWhile P xs)))" for P and xs :: string
    using hd_dropWhile [of P xs] by (cases "dropWhile P xs = []") (auto simp: last_rev)
  then show ?thesis unfolding base_url_def by blast
qed

definition executor_timeout :: "tool_settings \<Rightarrow> pyfloat" where
  "executor_timeout S = get_executor_timeout (set_to_float S) (EXECUTOR_TIMEOUT_SECONDS S)"

definition get_now :: "'k outside \<Rightarrow> ('k, int) tool_monad" where
  "get_now Out w = (Inr (out_clock Out (ts_out w)), w)"

section \<open>The cached clients\<close>

definition load_config :: "'k outside \<Rightarrow> ('k, unit) tool_monad" where
  "load_config Out w =
     (if ts_config w then (Inr (), w)
      else (case out_incluster Out (ts_out w) of
              Loaded \<Rightarrow> (Inr (), w\<lparr>ts_config := True\<rparr>)
            | LoadRaises cl m \<Rightarrow> (Inl (PyError cl m), w)
            | ConfigException _ \<Rightarrow>
                (case out_kubeconfig Out (ts_out w) of
                   Loaded \<Rightarrow> (Inr (), w\<lparr>ts_config := True\<rparr>)
                 | LoadRaises cl m \<Rightarrow> (Inl (PyError cl m), w)
                 | ConfigException m \<Rightarrow>
                     (Inl (ExecutorError ''upstream_error'' (''no usable kubeconfig found: '' @ m)), w))))"

definition core_v1_api :: "'k outside \<Rightarrow> ('k, unit) tool_monad" where
  "core_v1_api Out w =
     (if ts_core w then (Inr (), w)
      else bind_st (load_config Out) (\<lambda>_ w1. (Inr (), w1\<lparr>ts_core := True\<rparr>)) w)"

definition apps_v1_api :: "'k outside \<Rightarrow> ('k, unit) tool_monad" where
  "apps_v1_api Out w =
     (if ts_apps w then (Inr (), w)
      else bind_st (load_config Out) (\<lambda>_ w1. (Inr (), w1\<lparr>ts_apps := True\<rparr>)) w)"

text \<open>Building the dynamic client asks the cluster for what it supports, which can raise anything.\<close>

definition dynamic_client :: "'k outside \<Rightarrow> ('k, unit) tool_monad" where
  "dynamic_client Out w =
     (if ts_dynamic w then (Inr (), w)
      else bind_st (load_config Out)
        (\<lambda>_ w1. (case out_discover Out (ts_out w1) of
             (Some (cl, m), k) \<Rightarrow> (Inl (PyError cl m), w1\<lparr>ts_out := k\<rparr>)
           | (None, k) \<Rightarrow> (Inr (), w1\<lparr>ts_out := k, ts_dynamic := True\<rparr>))) w)"

definition resource_for ::
  "'k outside \<Rightarrow> tool_settings \<Rightarrow> json \<Rightarrow> json \<Rightarrow> ('k, bool) tool_monad" where
  "resource_for Out S api_version kind =
     bind_st (dynamic_client Out)
       (\<lambda>_ w. let (reply, k) = out_resource Out api_version kind (ts_out w); w1 = w\<lparr>ts_out := k\<rparr>;
                  what = quoted (py_str (set_fr S) kind) @ '' ('' @ py_str (set_fr S) api_version @ '')''
              in case reply of
                   ResourceFound namespaced \<Rightarrow> (Inr namespaced, w1)
                 | ResourceNotFoundError \<Rightarrow>
                     (Inl (ExecutorError ''not_found'' (''resource type '' @ what @ '' not found on this cluster'')), w1)
                 | ResourceNotUniqueError m \<Rightarrow>
                     (Inl (validation_error (what @ '' is ambiguous on this cluster: '' @ m)), w1)
                 | ResourceRaises cl m \<Rightarrow> (Inl (PyError cl m), w1))"

section \<open>Calling the API\<close>

definition k8s_run ::
  "tool_settings \<Rightarrow> (pyfloat \<Rightarrow> 'k \<Rightarrow> 'a k8s_reply \<times> 'k) \<Rightarrow> string \<Rightarrow> ('k, 'a) tool_monad" where
  "k8s_run S fn resource w =
     (let (reply, k) = fn (executor_timeout S) (ts_out w); w1 = w\<lparr>ts_out := k\<rparr> in
      case reply of
        K8sOk a \<Rightarrow> (Inr a, w1)
      | ApiException status reason \<Rightarrow>
          (Inl (if status = 404 then ExecutorError ''not_found'' (resource @ '' not found'')
                else if status \<in> {401, 403}
                then ExecutorError ''permission_denied'' (''not authorized to access '' @ resource)
                else ExecutorError ''upstream_error''
                  (''Kubernetes API error ('' @ string_of_int status @ ''): '' @ reason)), w1)
      | MaxRetryError timed_out m \<Rightarrow>
          (Inl (if timed_out
                then ExecutorError ''executor_timeout'' (''Kubernetes API call for '' @ resource @ '' timed out'')
                else ExecutorError ''upstream_error'' (''Kubernetes API unreachable: '' @ m)), w1)
      | K8sRaises cl m \<Rightarrow> (Inl (PyError cl m), w1))"

end
