(* ===== verification/K8s_Tools.thy ===== *)
theory K8s_Tools
  imports K8s_Client
begin

text \<open>
  The Kubernetes executors of \<open>app/tools/tools_spec.py\<close>, one definition per function.  Each takes
  the outside world, the settings and the call's arguments, and either raises or returns its result
  dictionary; the order of checks and calls is the source's.
\<close>

definition missing_fields :: "string list \<Rightarrow> exn" where
  "missing_fields names = validation_error (join '' and '' (map quoted names)
     @ (case names of [_] \<Rightarrow> '' is required'' | _ \<Rightarrow> '' are required''))"

text \<open>\<open>_require_reason\<close>: a reason that is not text has no \<open>strip\<close>.\<close>

definition require_reason :: "dict \<Rightarrow> string result" where
  "require_reason arguments =
     (case py_or (dict_get arguments ''reason'') (JStr []) of
        JStr s \<Rightarrow>
          (let reason = py_strip s in
           if 10 \<le> length reason \<and> length reason \<le> 500 then Inr reason
           else Inl (validation_error (quoted ''reason'' @ '' is required and must be 10-500 characters'')))
      | v \<Rightarrow> Inl (no_attr v ''strip''))"

text \<open>\<open>strftime("%Y-%m-%dT%H:%M:%SZ")\<close> of an aware UTC time.\<close>

definition utc_seconds :: "int \<Rightarrow> string" where
  "utc_seconds t = take 19 (isoformat t) @ ''Z''"

definition in_namespace_text :: "tool_settings \<Rightarrow> string \<Rightarrow> json \<Rightarrow> json \<Rightarrow> string" where
  "in_namespace_text S what name namespace =
     what @ '' '' @ quoted (py_str (set_fr S) name) @ '' in namespace '' @ quoted (py_str (set_fr S) namespace)"

text \<open>Arguments passed on when truthy.\<close>

definition passed_on :: "dict \<Rightarrow> string list \<Rightarrow> dict" where
  "passed_on arguments keys =
     map (\<lambda>k. (k, dict_get arguments k)) (filter (\<lambda>k. truthy (dict_get arguments k)) keys)"

section \<open>Reading\<close>

definition get_pod_logs :: "'k outside \<Rightarrow> tool_settings \<Rightarrow> dict \<Rightarrow> ('k, dict) tool_monad" where
  "get_pod_logs Out S arguments =
     (let namespace = dict_get arguments ''namespace''; pod = dict_get arguments ''pod_name'';
          kwargs = passed_on arguments [''container''] @
            (if truthy (dict_get arguments ''since_seconds'')
             then [(''since_seconds'', dict_get arguments ''since_seconds'')]
             else [(''tail_lines'', dict_get_or arguments ''tail_lines'' (JInt 100))]) in
      bind_st (require (truthy namespace \<and> truthy pod) (missing_fields [''namespace'', ''pod_name''])) (\<lambda>_.
      bind_st (core_v1_api Out) (\<lambda>_.
      bind_st (k8s_run S (out_pod_log Out ([(''name'', pod), (''namespace'', namespace)] @ kwargs))
                 (in_namespace_text S ''pod'' pod namespace)) (\<lambda>logs.
        ret [(''namespace'', namespace), (''pod_name'', pod),
             (''container'', dict_get arguments ''container''),
             (''lines_returned'', JInt (int (length (splitlines logs)))), (''logs'', JStr logs)]))))"

definition pod_summary :: "int \<Rightarrow> pod \<Rightarrow> json" where
  "pod_summary now p =
     (let statuses = (case pod_container_statuses p of None \<Rightarrow> [] | Some cs \<Rightarrow> cs);
          ready_count = length (filter cs_ready statuses) in
      JObj [(''name'', opt_json JStr (pod_name p)),
            (''ready'', JStr (string_of_nat ready_count @ ''/'' @ string_of_nat (length statuses))),
            (''status'', opt_json JStr (pod_phase p)),
            (''restarts'', JInt (sum_list (map cs_restart_count statuses))),
            (''age_seconds'', opt_json (\<lambda>c. JInt (trunc_rat (of_int (now - c) / 1000000))) (pod_created p))])"

definition list_pods :: "'k outside \<Rightarrow> tool_settings \<Rightarrow> dict \<Rightarrow> ('k, dict) tool_monad" where
  "list_pods Out S arguments =
     (let namespace = dict_get arguments ''namespace'';
          kwargs = passed_on arguments [''label_selector'', ''field_selector''] in
      bind_st (require (truthy namespace) (missing_fields [''namespace''])) (\<lambda>_.
      bind_st (core_v1_api Out) (\<lambda>_.
      bind_st (k8s_run S (out_list_pods Out ((''namespace'', namespace) # kwargs))
                 (''pods in namespace '' @ quoted (py_str (set_fr S) namespace))) (\<lambda>items.
      bind_st (get_now Out) (\<lambda>now.
        ret [(''namespace'', namespace), (''pods'', JList (map (pod_summary now) items))])))))"

definition condition_json :: "deployment_condition \<Rightarrow> json" where
  "condition_json c =
     JObj ([(''type'', JStr (cond_type c)), (''status'', JStr (cond_status c))]
       @ (case cond_reason c of Some r \<Rightarrow> if r = [] then [] else [(''reason'', JStr r)] | None \<Rightarrow> [])
       @ (case cond_message c of Some m \<Rightarrow> if m = [] then [] else [(''message'', JStr m)] | None \<Rightarrow> []))"

definition last_updated :: "deployment \<Rightarrow> int option" where
  "last_updated dep =
     (let conditions = (case dep_conditions dep of None \<Rightarrow> [] | Some cs \<Rightarrow> cs);
          update_times = List.map_filter cond_last_update conditions in
      if update_times \<noteq> [] then Some (foldl max (hd update_times) (tl update_times)) else dep_created dep)"

definition int_or_0 :: "int option \<Rightarrow> json" where
  "int_or_0 x = JInt (case x of None \<Rightarrow> 0 | Some i \<Rightarrow> i)"

definition deployment_summary :: "deployment \<Rightarrow> dict" where
  "deployment_summary dep =
     [(''name'', opt_json JStr (dep_name dep)), (''namespace'', opt_json JStr (dep_namespace dep)),
      (''desired_replicas'', opt_json JInt (dep_spec_replicas dep)),
      (''ready_replicas'', int_or_0 (dep_ready_replicas dep)),
      (''available_replicas'', int_or_0 (dep_available_replicas dep)),
      (''image'', (case dep_images dep of Some (i # _) \<Rightarrow> opt_json JStr i | _ \<Rightarrow> JNull)),
      (''conditions'', JList (map condition_json (case dep_conditions dep of None \<Rightarrow> [] | Some cs \<Rightarrow> cs))),
      (''last_updated'', opt_json (\<lambda>t. JStr (isoformat t)) (last_updated dep))]"

definition get_deployment_status :: "'k outside \<Rightarrow> tool_settings \<Rightarrow> dict \<Rightarrow> ('k, dict) tool_monad" where
  "get_deployment_status Out S arguments =
     (let namespace = dict_get arguments ''namespace''; dep = dict_get arguments ''deployment'' in
      bind_st (require (truthy namespace \<and> truthy dep) (missing_fields [''namespace'', ''deployment''])) (\<lambda>_.
      bind_st (apps_v1_api Out) (\<lambda>_.
      bind_st (k8s_run S (out_read_deployment Out [(''name'', dep), (''namespace'', namespace)])
                 (in_namespace_text S ''deployment'' dep namespace)) (\<lambda>d.
        ret (deployment_summary d)))))"

section \<open>Writing\<close>

definition restart_patch :: "string \<Rightarrow> json" where
  "restart_patch restarted_at =
     JObj [(''spec'', JObj [(''template'', JObj [(''metadata'', JObj [(''annotations'',
       JObj [(''kubectl.kubernetes.io/restartedAt'', JStr restarted_at)])])])])]"

definition restart_deployment :: "'k outside \<Rightarrow> tool_settings \<Rightarrow> dict \<Rightarrow> ('k, dict) tool_monad" where
  "restart_deployment Out S arguments =
     (let namespace = dict_get arguments ''namespace''; dep = dict_get arguments ''deployment'' in
      bind_st (require (truthy namespace \<and> truthy dep) (missing_fields [''namespace'', ''deployment''])) (\<lambda>_.
      bind_st (lift_res (require_reason arguments)) (\<lambda>_.
      bind_st (get_now Out) (\<lambda>now.
      bind_st (apps_v1_api Out) (\<lambda>_.
      bind_st (k8s_run S (out_patch_deployment Out
                 [(''name'', dep), (''namespace'', namespace), (''body'', restart_patch (utc_seconds now))])
                 (in_namespace_text S ''deployment'' dep namespace)) (\<lambda>_.
        ret [(''status'', JStr ''restart_initiated''), (''deployment'', dep), (''namespace'', namespace),
             (''restarted_at'', JStr (utc_seconds now)),
             (''message'', JStr ''Rolling restart triggered. Monitor with get_deployment_status.'')]))))))"

text \<open>\<open>isinstance(replicas, int)\<close> without \<open>bool\<close>, and the range.\<close>

definition valid_replicas :: "json \<Rightarrow> bool" where
  "valid_replicas v \<longleftrightarrow> (case v of JInt i \<Rightarrow> 0 \<le> i \<and> i \<le> 20 | _ \<Rightarrow> False)"

definition scale_deployment :: "'k outside \<Rightarrow> tool_settings \<Rightarrow> dict \<Rightarrow> ('k, dict) tool_monad" where
  "scale_deployment Out S arguments =
     (let namespace = dict_get arguments ''namespace''; dep = dict_get arguments ''deployment'';
          replicas = dict_get arguments ''replicas'' in
      bind_st (require (truthy namespace \<and> truthy dep) (missing_fields [''namespace'', ''deployment''])) (\<lambda>_.
      bind_st (require (valid_replicas replicas)
        (validation_error (quoted ''replicas'' @ '' is required and must be an integer 0-20''))) (\<lambda>_.
      bind_st (lift_res (require_reason arguments)) (\<lambda>_.
      bind_st (apps_v1_api Out) (\<lambda>_.
      bind_st (k8s_run S (out_patch_scale Out
                 [(''name'', dep), (''namespace'', namespace),
                  (''body'', JObj [(''spec'', JObj [(''replicas'', replicas)])])])
                 (in_namespace_text S ''deployment'' dep namespace)) (\<lambda>_.
      bind_st (get_now Out) (\<lambda>now.
        ret [(''status'', JStr ''scale_initiated''), (''deployment'', dep), (''namespace'', namespace),
             (''replicas'', replicas), (''scaled_at'', JStr (utc_seconds now)),
             (''message'', JStr ''Scale request submitted. Monitor with get_deployment_status.'')])))))))"

definition EXEC_OUTPUT_MAX_CHARS :: nat where
  "EXEC_OUTPUT_MAX_CHARS = 4000"

definition valid_command :: "json \<Rightarrow> bool" where
  "valid_command v \<longleftrightarrow>
     (case v of JList cs \<Rightarrow> cs \<noteq> [] \<and> (\<forall>c \<in> set cs. is_str c \<and> truthy c) | _ \<Rightarrow> False)"

definition exec_into_pod :: "'k outside \<Rightarrow> tool_settings \<Rightarrow> dict \<Rightarrow> ('k, dict) tool_monad" where
  "exec_into_pod Out S arguments =
     (let namespace = dict_get arguments ''namespace''; pod = dict_get arguments ''pod_name'';
          command = dict_get arguments ''command''; container = dict_get arguments ''container'';
          exec_kwargs = [(''command'', command), (''stderr'', JBool True), (''stdin'', JBool False),
             (''stdout'', JBool True), (''tty'', JBool False)] @ passed_on arguments [''container''] in
      bind_st (require (truthy namespace \<and> truthy pod) (missing_fields [''namespace'', ''pod_name''])) (\<lambda>_.
      bind_st (require (valid_command command)
        (validation_error (quoted ''command'' @ '' is required and must be a non-empty list of strings''))) (\<lambda>_.
      bind_st (lift_res (require_reason arguments)) (\<lambda>_.
      bind_st (core_v1_api Out) (\<lambda>_.
      bind_st (k8s_run S (out_exec Out ([(''name'', pod), (''namespace'', namespace)] @ exec_kwargs))
                 (in_namespace_text S ''pod'' pod namespace)) (\<lambda>output.
      bind_st (get_now Out) (\<lambda>now.
        ret [(''status'', JStr ''executed''), (''namespace'', namespace), (''pod_name'', pod),
             (''container'', container), (''command'', command),
             (''output'', JStr (take EXEC_OUTPUT_MAX_CHARS output)),
             (''output_truncated'', JBool (EXEC_OUTPUT_MAX_CHARS < length output)),
             (''timeout_seconds'', JFloat (executor_timeout S)),
             (''executed_at'', JStr (utc_seconds now))])))))))"

text \<open>The manifest with its namespace set: \<open>{**manifest, "metadata": {**metadata, "namespace": ns}}\<close>.\<close>

definition manifest_in :: "dict \<Rightarrow> dict \<Rightarrow> json \<Rightarrow> dict" where
  "manifest_in manifest metadata namespace =
     dict_set ''metadata'' (JObj (dict_set ''namespace'' namespace metadata)) manifest"

text \<open>
  \<open>a == b\<close>: numbers by value, booleans among them; lists element by element; dictionaries without
  regard to order.
\<close>

definition num_value :: "json \<Rightarrow> pyfloat option" where
  "num_value v =
     (case v of JBool b \<Rightarrow> Some (Fin (of_bool b)) | JInt i \<Rightarrow> Some (Fin (of_int i))
              | JFloat x \<Rightarrow> Some x | _ \<Rightarrow> None)"

function (sequential) py_eq :: "json \<Rightarrow> json \<Rightarrow> bool" where
  "py_eq JNull b = (b = JNull)"
| "py_eq (JStr s) b = (b = JStr s)"
| "py_eq (JList xs) b =
     (case b of
        JList ys \<Rightarrow> length xs = length ys \<and> (\<forall>xy \<in> set (zip xs ys). py_eq (fst xy) (snd xy))
      | _ \<Rightarrow> False)"
| "py_eq (JObj d) b =
     (case b of
        JObj d' \<Rightarrow> length d = length d' \<and>
          (\<forall>kv \<in> set d. case map_of d' (fst kv) of None \<Rightarrow> False | Some v \<Rightarrow> py_eq (snd kv) v)
      | _ \<Rightarrow> False)"
| "py_eq a b = (num_value a = num_value b \<and> num_value a \<noteq> Some NaN)"
  by pat_completeness auto

termination
proof (relation "measure (\<lambda>p. size (fst p))")
  fix xs ys :: "json list" and b xy
  assume "xy \<in> set (zip xs ys)"
  then have "fst xy \<in> set xs" by (metis prod.collapse set_zip_leftD)
  then have "size (fst xy) \<le> size_list size xs" by (rule size_list_estimation') simp
  then show "((fst xy, snd xy), (JList xs, b)) \<in> measure (\<lambda>p. size (fst p))" by simp
next
  fix d b and kv :: "string \<times> json" and v
  assume "kv \<in> set d"
  then have "size (snd kv) \<le> size_list (size_prod (\<lambda>x. 0) size) d"
    by (rule size_list_estimation') (cases kv, simp)
  then show "((snd kv, v), (JObj d, b)) \<in> measure (\<lambda>p. size (fst p))" by simp
qed simp_all

definition namespace_conflict :: "tool_settings \<Rightarrow> json \<Rightarrow> json \<Rightarrow> exn" where
  "namespace_conflict S manifest_namespace namespace =
     validation_error (''manifest.metadata.namespace ('' @ quoted (py_str (set_fr S) manifest_namespace)
       @ '') must match the '' @ quoted ''namespace'' @ '' argument ('' @ quoted (py_str (set_fr S) namespace) @ '')'')"

text \<open>From the validated metadata on: the namespace check, the lookup of the kind, the apply.\<close>

definition apply_in ::
  "'k outside \<Rightarrow> tool_settings \<Rightarrow> json \<Rightarrow> dict \<Rightarrow> dict \<Rightarrow> ('k, dict) tool_monad" where
  "apply_in Out S namespace manifest metadata =
     (let api_version = dict_get manifest ''apiVersion''; kind = dict_get manifest ''kind'';
          name = dict_get metadata ''name''; manifest_namespace = dict_get metadata ''namespace'' in
      bind_st (require (truthy manifest_namespace \<longrightarrow> py_eq manifest_namespace namespace)
        (namespace_conflict S manifest_namespace namespace)) (\<lambda>_.
      bind_st (resource_for Out S api_version kind) (\<lambda>namespaced.
      bind_st (require namespaced (validation_error (quoted (py_str (set_fr S) kind)
          @ '' is a cluster-scoped resource; apply_k8s_manifest only supports namespaced resources''))) (\<lambda>_.
      bind_st (k8s_run S (out_apply Out api_version kind
                 [(''body'', JObj (manifest_in manifest metadata namespace)), (''name'', name),
                  (''namespace'', namespace), (''field_manager'', JStr ''mcp-control-plane''),
                  (''force_conflicts'', JBool True)])
                 (in_namespace_text S (py_str (set_fr S) kind) name namespace)) (\<lambda>_.
      bind_st (get_now Out) (\<lambda>now.
        ret [(''status'', JStr ''applied''), (''kind'', kind), (''api_version'', api_version),
             (''name'', name), (''namespace'', namespace), (''applied_at'', JStr (utc_seconds now)),
             (''message'', JStr ''Server-side apply submitted.'')]))))))"

definition apply_k8s_manifest :: "'k outside \<Rightarrow> tool_settings \<Rightarrow> dict \<Rightarrow> ('k, dict) tool_monad" where
  "apply_k8s_manifest Out S arguments =
     (let namespace = dict_get arguments ''namespace'' in
      bind_st (require (truthy namespace) (missing_fields [''namespace''])) (\<lambda>_.
        (case dict_get arguments ''manifest'' of
           JObj manifest \<Rightarrow>
             bind_st (lift_res (require_reason arguments)) (\<lambda>_.
             bind_st (require (truthy (dict_get manifest ''apiVersion'') \<and> truthy (dict_get manifest ''kind''))
               (validation_error (''manifest must include '' @ quoted ''apiVersion'' @ '' and '' @ quoted ''kind''))) (\<lambda>_.
               (case py_or (dict_get manifest ''metadata'') (JObj []) of
                  JObj metadata \<Rightarrow>
                    bind_st (require (truthy (dict_get metadata ''name''))
                      (validation_error ''manifest.metadata.name is required'')) (\<lambda>_.
                      apply_in Out S namespace manifest metadata)
                | v \<Rightarrow> lift_res (Inl (no_attr v ''get'')))))
         | _ \<Rightarrow> lift_res (Inl (validation_error (quoted ''manifest'' @ '' is required and must be an object''))))))"

end
