(* ===== verification/Http_Tools.thy ===== *)
theory Http_Tools
  imports K8s_Tools
begin

text \<open>
  The HTTP executors of \<open>app/tools/tools_spec.py\<close>: Terraform Cloud, Jenkins, Prometheus, PagerDuty
  and Jira, with the error mapping they share.  Decoded bodies are JSON values of any shape, so
  every subscript and attribute access of the source is an operation that can raise.
\<close>

section \<open>Subscripts and iteration on decoded bodies\<close>

text \<open>\<open>v[0]\<close>.\<close>

definition json_first :: "json \<Rightarrow> json result" where
  "json_first v =
     (case v of
        JList (x # _) \<Rightarrow> Inr x
      | JList [] \<Rightarrow> Inl (PyError IndexError ''list index out of range'')
      | JStr (c # _) \<Rightarrow> Inr (JStr [c])
      | JStr [] \<Rightarrow> Inl (PyError IndexError ''string index out of range'')
      | JObj _ \<Rightarrow> Inl (PyError KeyError ''0'')
      | _ \<Rightarrow> Inl (PyError TypeError (quoted (type_name v) @ '' object is not subscriptable'')))"

text \<open>\<open>for x in v\<close>.\<close>

definition json_iter :: "json \<Rightarrow> json list result" where
  "json_iter v =
     (case v of
        JList xs \<Rightarrow> Inr xs
      | JObj d \<Rightarrow> Inr (map (\<lambda>kv. JStr (fst kv)) d)
      | JStr s \<Rightarrow> Inr (map (\<lambda>c. JStr [c]) s)
      | _ \<Rightarrow> Inl (PyError TypeError (quoted (type_name v) @ '' object is not iterable'')))"

text \<open>\<open>(v.get(k) or {}).get(l)\<close>.\<close>

definition get_in :: "json \<Rightarrow> string \<Rightarrow> string \<Rightarrow> json result" where
  "get_in v k l = bind_res (json_get v k) (\<lambda>x. json_get (py_or x (JObj [])) l)"

section \<open>One request\<close>

definition set_text :: "string option \<Rightarrow> bool" where
  "set_text s \<longleftrightarrow> (case s of None \<Rightarrow> False | Some t \<Rightarrow> t \<noteq> [])"

definition opt_text :: "string option \<Rightarrow> string" where
  "opt_text s = (case s of None \<Rightarrow> ''None'' | Some t \<Rightarrow> t)"

definition send_request ::
  "'k outside \<Rightarrow> tool_settings \<Rightarrow> http_call \<Rightarrow> string \<Rightarrow> string \<Rightarrow> ('k, http_answer) tool_monad" where
  "send_request Out S request not_found_message upstream_label w =
     (let (reply, k) = out_http Out request (ts_out w); w1 = w\<lparr>ts_out := k\<rparr> in
      case reply of
        HttpTimeout _ \<Rightarrow>
          (Inl (ExecutorError ''executor_timeout''
             (upstream_label @ '' timed out after '' @ py_str (set_fr S) (JFloat (hc_timeout request)) @ ''s'')), w1)
      | HttpError m \<Rightarrow> (Inl (ExecutorError ''upstream_error'' (upstream_label @ '' unreachable: '' @ m)), w1)
      | HttpRaises cl m \<Rightarrow> (Inl (PyError cl m), w1)
      | HttpAnswer a \<Rightarrow>
          (if ha_status a = 404 then (Inl (ExecutorError ''not_found'' not_found_message), w1)
           else if \<not> (200 \<le> ha_status a \<and> ha_status a \<le> 299)
           then (Inl (ExecutorError ''upstream_error''
                   (upstream_label @ '' error ('' @ string_of_int (ha_status a) @ '')'')), w1)
           else (Inr a, w1)))"

text \<open>A client: base URL, headers, authentication; the timeout is the shared one.\<close>

record http_client =
  cl_base :: string
  cl_headers :: "(string \<times> string) list"
  cl_auth :: "(string \<times> string option) option"

definition client_call :: "tool_settings \<Rightarrow> http_client \<Rightarrow> string \<Rightarrow> string \<Rightarrow> json \<Rightarrow> http_call" where
  "client_call S cl meth path params =
     \<lparr>hc_method = meth, hc_base = cl_base cl, hc_path = path, hc_headers = cl_headers cl,
      hc_auth = cl_auth cl, hc_params = params, hc_timeout = executor_timeout S\<rparr>"

definition http_get ::
  "'k outside \<Rightarrow> tool_settings \<Rightarrow> http_client \<Rightarrow> string \<Rightarrow> json \<Rightarrow> string \<Rightarrow> string \<Rightarrow> ('k, http_answer) tool_monad" where
  "http_get Out S cl path params = send_request Out S (client_call S cl ''GET'' path params)"

definition http_post ::
  "'k outside \<Rightarrow> tool_settings \<Rightarrow> http_client \<Rightarrow> string \<Rightarrow> json \<Rightarrow> (string \<times> string) list
     \<Rightarrow> string \<Rightarrow> string \<Rightarrow> ('k, http_answer) tool_monad" where
  "http_post Out S cl path params headers =
     send_request Out S (client_call S (cl\<lparr>cl_headers := cl_headers cl @ headers\<rparr>) ''POST'' path params)"

definition answer_json :: "http_answer \<Rightarrow> json result" where
  "answer_json a = (case ha_json a of None \<Rightarrow> Inl (PyError ValueError ''invalid JSON'') | Some v \<Rightarrow> Inr v)"

definition not_configured :: "string \<Rightarrow> string \<Rightarrow> exn" where
  "not_configured what variables =
     ExecutorError ''upstream_error'' (what @ '' is not configured ('' @ variables @ '')'')"

section \<open>Terraform Cloud\<close>

definition terraform_client :: "tool_settings \<Rightarrow> http_client" where
  "terraform_client S =
     \<lparr>cl_base = TFC_URL S, cl_headers = [(''Authorization'', ''Bearer '' @ opt_text (TFC_TOKEN S))], cl_auth = None\<rparr>"

text \<open>\<open>(run.get("relationships", {}).get("plan", {}).get("data") or {}).get("id")\<close>.\<close>

definition plan_id_of :: "json \<Rightarrow> json result" where
  "plan_id_of run =
     bind_res (json_get_or run ''relationships'' (JObj [])) (\<lambda>rel.
     bind_res (json_get_or rel ''plan'' (JObj [])) (\<lambda>plan. get_in plan ''data'' ''id''))"

definition plan_changes :: "json \<Rightarrow> json result" where
  "plan_changes plan_data =
     bind_res (json_item plan_data ''attributes'') (\<lambda>attrs.
     bind_res (json_get_or attrs ''resource-additions'' (JInt 0)) (\<lambda>a.
     bind_res (json_get_or attrs ''resource-changes'' (JInt 0)) (\<lambda>c.
     bind_res (json_get_or attrs ''resource-destructions'' (JInt 0)) (\<lambda>d.
       Inr (JObj [(''add'', a), (''change'', c), (''destroy'', d)])))))"

text \<open>The plan of a run: its changes and its data, or nothing for a run without a plan.\<close>

definition fetch_plan :: "'k outside \<Rightarrow> tool_settings \<Rightarrow> json \<Rightarrow> ('k, json \<times> json) tool_monad" where
  "fetch_plan Out S plan_id =
     (if \<not> truthy plan_id then ret (JNull, JNull)
      else
        bind_st (http_get Out S (terraform_client S) (''/plans/'' @ py_str (set_fr S) plan_id) JNull
          (''plan '' @ quoted (py_str (set_fr S) plan_id) @ '' not found'') ''Terraform Cloud'') (\<lambda>resp.
          lift_res (bind_res (answer_json resp) (\<lambda>body.
            bind_res (json_item body ''data'') (\<lambda>plan_data.
            bind_res (plan_changes plan_data) (\<lambda>changes. Inr (changes, plan_data)))))))"

definition run_summary :: "dict \<Rightarrow> json \<Rightarrow> json \<Rightarrow> json \<Rightarrow> json \<times> json \<Rightarrow> dict result" where
  "run_summary arguments workspace run attrs plan =
     bind_res (json_item run ''id'') (\<lambda>run_id.
     bind_res (json_get attrs ''status'') (\<lambda>status.
     bind_res (json_get attrs ''created-at'') (\<lambda>created.
     bind_res (json_get_or attrs ''trigger-reason'' (JStr ''unknown'')) (\<lambda>trigger.
       Inr ([(''workspace'', workspace), (''run_id'', run_id), (''status'', status),
             (''created_at'', created), (''triggered_by'', trigger), (''changes'', fst plan)]
          @ (if truthy (dict_get arguments ''include_full_plan'') then [(''full_plan'', snd plan)] else []))))))"

definition latest_run :: "'k outside \<Rightarrow> tool_settings \<Rightarrow> dict \<Rightarrow> json \<Rightarrow> json \<Rightarrow> ('k, dict) tool_monad" where
  "latest_run Out S arguments workspace runs =
     (if \<not> truthy runs
      then ret [(''workspace'', workspace), (''run_id'', JNull), (''status'', JStr ''no_runs''), (''changes'', JNull)]
      else
        bind_st (lift_res (bind_res (json_first runs) (\<lambda>run.
          bind_res (json_item run ''attributes'') (\<lambda>attrs.
          bind_res (plan_id_of run) (\<lambda>plan_id. Inr (run, attrs, plan_id)))))) (\<lambda>(run, attrs, plan_id).
        bind_st (fetch_plan Out S plan_id) (\<lambda>plan.
          lift_res (run_summary arguments workspace run attrs plan))))"

definition query_terraform_plan :: "'k outside \<Rightarrow> tool_settings \<Rightarrow> dict \<Rightarrow> ('k, dict) tool_monad" where
  "query_terraform_plan Out S arguments =
     (let workspace = dict_get arguments ''workspace''; cl = terraform_client S; ws = py_str (set_fr S) workspace in
      bind_st (require (truthy workspace) (missing_fields [''workspace''])) (\<lambda>_.
      bind_st (require (set_text (TFC_TOKEN S) \<and> set_text (TFC_ORG S))
        (not_configured ''Terraform Cloud'' ''TFC_TOKEN/TFC_ORG'')) (\<lambda>_.
      bind_st (http_get Out S cl (''/organizations/'' @ opt_text (TFC_ORG S) @ ''/workspaces/'' @ ws) JNull
        (''Terraform Cloud workspace '' @ quoted ws @ '' not found'') ''Terraform Cloud'') (\<lambda>ws_resp.
      bind_st (lift_res (bind_res (answer_json ws_resp) (\<lambda>body.
        bind_res (json_item body ''data'') (\<lambda>d. json_item d ''id'')))) (\<lambda>workspace_id.
      bind_st (http_get Out S cl (''/workspaces/'' @ py_str (set_fr S) workspace_id @ ''/runs'')
        (JObj [(''page[size]'', JInt 1)]) (''no runs found for workspace '' @ quoted ws) ''Terraform Cloud'') (\<lambda>runs_resp.
      bind_st (lift_res (bind_res (answer_json runs_resp) (\<lambda>body. json_item body ''data''))) (\<lambda>runs.
        latest_run Out S arguments workspace runs)))))))"

section \<open>Jenkins\<close>

text \<open>\<open>a + b\<close> on decoded values; floats are added exactly.\<close>

fun float_add :: "pyfloat \<Rightarrow> pyfloat \<Rightarrow> pyfloat" where
  "float_add (Fin a) (Fin b) = Fin (a + b)"
| "float_add NaN _ = NaN"
| "float_add _ NaN = NaN"
| "float_add PosInf NegInf = NaN"
| "float_add NegInf PosInf = NaN"
| "float_add PosInf _ = PosInf"
| "float_add _ PosInf = PosInf"
| "float_add NegInf _ = NegInf"
| "float_add _ NegInf = NegInf"

fun int_value :: "json \<Rightarrow> int option" where
  "int_value (JBool b) = Some (of_bool b)"
| "int_value (JInt i) = Some i"
| "int_value _ = None"

definition bad_operands :: "string \<Rightarrow> json \<Rightarrow> json \<Rightarrow> exn" where
  "bad_operands op a b =
     PyError TypeError (''unsupported operand type(s) for '' @ op @ '': '' @ quoted (type_name a) @ '' and ''
       @ quoted (type_name b))"

definition py_add :: "json \<Rightarrow> json \<Rightarrow> json result" where
  "py_add a b =
     (case (int_value a, int_value b) of
        (Some i, Some j) \<Rightarrow> Inr (JInt (i + j))
      | _ \<Rightarrow>
          (case (num_value a, num_value b) of
             (Some x, Some y) \<Rightarrow> Inr (JFloat (float_add x y))
           | _ \<Rightarrow>
               (case (a, b) of
                  (JStr s, JStr t) \<Rightarrow> Inr (JStr (s @ t))
                | (JStr s, _) \<Rightarrow> Inl (PyError TypeError
                    (''can only concatenate str (not '' @ [CHR 0x22] @ type_name b @ [CHR 0x22] @ '') to str''))
                | (JList xs, JList ys) \<Rightarrow> Inr (JList (xs @ ys))
                | (JList xs, _) \<Rightarrow> Inl (PyError TypeError
                    (''can only concatenate list (not '' @ [CHR 0x22] @ type_name b @ [CHR 0x22] @ '') to list''))
                | _ \<Rightarrow> Inl (bad_operands ''+'' a b))))"

text \<open>The instants \<open>datetime\<close> can hold: the years 1 to 9999, in microseconds.\<close>

definition datetime_range :: "int \<Rightarrow> bool" where
  "datetime_range t \<longleftrightarrow> -62135596800000000 \<le> t \<and> t < 253402300800000000"

definition epoch_ms_to_iso :: "json \<Rightarrow> json result" where
  "epoch_ms_to_iso epoch_ms =
     (if epoch_ms = JNull then Inr JNull
      else
        (case num_value epoch_ms of
           None \<Rightarrow> Inl (bad_operands ''/'' epoch_ms (JInt 1000))
         | Some (Fin r) \<Rightarrow>
             (let t = fromtimestamp (r / 1000) in
              if datetime_range t then Inr (JStr (isoformat t))
              else Inl (PyError ValueError ''year is out of range''))
         | Some NaN \<Rightarrow> Inl (PyError ValueError ''cannot convert float NaN to integer'')
         | Some _ \<Rightarrow> Inl (PyError OverflowError ''cannot convert float infinity to integer'')))"

text \<open>The job's URL path: every folder is a \<open>/job/\<close> segment.\<close>

definition job_path :: "json \<Rightarrow> string result" where
  "job_path job_name =
     (case job_name of
        JStr s \<Rightarrow> Inr (''/job/'' @ join ''/job/'' (split_on (CHR ''/'') s))
      | v \<Rightarrow> Inl (no_attr v ''split''))"

definition jenkins_client :: "tool_settings \<Rightarrow> http_client" where
  "jenkins_client S =
     \<lparr>cl_base = JENKINS_URL S, cl_headers = [],
      cl_auth = (if set_text (JENKINS_USER S)
                 then Some (opt_text (JENKINS_USER S), JENKINS_API_TOKEN S) else None)\<rparr>"

text \<open>The first cause of the first action that has one: its user, or else its description.\<close>

fun triggered_by :: "json list \<Rightarrow> json result" where
  "triggered_by [] = Inr (JStr ''unknown'')"
| "triggered_by (action # actions) =
     bind_res (json_get_or action ''causes'' (JList [])) (\<lambda>causes.
     bind_res (json_iter causes) (\<lambda>cs.
       (case cs of
          [] \<Rightarrow> triggered_by actions
        | cause # _ \<Rightarrow>
            bind_res (json_get cause ''userId'') (\<lambda>user.
              if truthy user then Inr user
              else json_get_or cause ''shortDescription'' (JStr ''unknown'')))))"

definition build_summary :: "json \<Rightarrow> json \<Rightarrow> dict result" where
  "build_summary job_name data =
     bind_res (json_get_or data ''actions'' (JList [])) (\<lambda>actions.
     bind_res (json_iter actions) (\<lambda>acts.
     bind_res (triggered_by acts) (\<lambda>who.
     bind_res (json_get data ''timestamp'') (\<lambda>timestamp_ms.
     bind_res (json_get data ''duration'') (\<lambda>duration_ms.
     bind_res (if timestamp_ms \<noteq> JNull \<and> truthy duration_ms then py_add timestamp_ms duration_ms else Inr JNull)
       (\<lambda>finished_ms.
     bind_res (json_get data ''number'') (\<lambda>build_number.
     bind_res (json_get data ''result'') (\<lambda>res.
     bind_res (json_get data ''building'') (\<lambda>building.
     bind_res (epoch_ms_to_iso timestamp_ms) (\<lambda>started.
     bind_res (epoch_ms_to_iso finished_ms) (\<lambda>finished.
     bind_res (json_get data ''url'') (\<lambda>url.
       Inr [(''job_name'', job_name), (''build_number'', build_number),
            (''status'', py_or res (JStr (if truthy building then ''IN_PROGRESS'' else ''UNKNOWN''))),
            (''duration_ms'', duration_ms), (''started_at'', started), (''finished_at'', finished),
            (''triggered_by'', who), (''url'', url)]))))))))))))"

definition get_jenkins_job_status :: "'k outside \<Rightarrow> tool_settings \<Rightarrow> dict \<Rightarrow> ('k, dict) tool_monad" where
  "get_jenkins_job_status Out S arguments =
     (let job_name = dict_get arguments ''job_name'';
          build = py_str (set_fr S) (dict_get_or arguments ''build_number'' (JStr ''lastBuild'')) in
      bind_st (require (truthy job_name) (missing_fields [''job_name''])) (\<lambda>_.
      bind_st (require (JENKINS_URL S \<noteq> []) (not_configured ''Jenkins'' ''JENKINS_URL'')) (\<lambda>_.
      bind_st (lift_res (job_path job_name)) (\<lambda>path.
      bind_st (http_get Out S (jenkins_client S) (path @ ''/'' @ build @ ''/api/json'') JNull
        (''Jenkins job '' @ quoted (py_str (set_fr S) job_name) @ '' build '' @ quoted build @ '' not found'')
        ''Jenkins'') (\<lambda>response.
        lift_res (bind_res (answer_json response) (build_summary job_name)))))))"

text \<open>The crumb is best effort: no answer, or not 200, means no header.\<close>

definition crumb_header :: "json \<Rightarrow> (string \<times> string) list result" where
  "crumb_header data =
     bind_res (json_item data ''crumbRequestField'') (\<lambda>field.
     bind_res (json_item data ''crumb'') (\<lambda>crumb.
       (case (field, crumb) of
          (JStr f, JStr c) \<Rightarrow> Inr [(f, c)]
        | _ \<Rightarrow> Inl (PyError TypeError ''header names and values must be str or bytes''))))"

definition jenkins_crumb :: "'k outside \<Rightarrow> tool_settings \<Rightarrow> ('k, (string \<times> string) list) tool_monad" where
  "jenkins_crumb Out S w =
     (let (reply, k) = out_http Out (client_call S (jenkins_client S) ''GET'' ''/crumbIssuer/api/json'' JNull) (ts_out w);
          w1 = w\<lparr>ts_out := k\<rparr> in
      case reply of
        HttpRaises cl m \<Rightarrow> (Inl (PyError cl m), w1)
      | HttpAnswer a \<Rightarrow>
          (if ha_status a \<noteq> 200 then Inr [] else bind_res (answer_json a) crumb_header, w1)
      | _ \<Rightarrow> (Inr [], w1))"

definition trigger_jenkins_job :: "'k outside \<Rightarrow> tool_settings \<Rightarrow> dict \<Rightarrow> ('k, dict) tool_monad" where
  "trigger_jenkins_job Out S arguments =
     (let job_name = dict_get arguments ''job_name''; parameters = py_or (dict_get arguments ''parameters'') (JObj []) in
      bind_st (require (truthy job_name) (missing_fields [''job_name''])) (\<lambda>_.
      bind_st (lift_res (require_reason arguments)) (\<lambda>_.
      bind_st (require (JENKINS_URL S \<noteq> []) (not_configured ''Jenkins'' ''JENKINS_URL'')) (\<lambda>_.
      bind_st (lift_res (job_path job_name)) (\<lambda>path.
      bind_st (jenkins_crumb Out S) (\<lambda>crumb.
      bind_st (http_post Out S (jenkins_client S) (path @ ''/buildWithParameters'') parameters crumb
        (''Jenkins job '' @ quoted (py_str (set_fr S) job_name) @ '' not found'') ''Jenkins'') (\<lambda>response.
        ret [(''status'', JStr ''triggered''), (''job_name'', job_name), (''build_number'', JNull),
             (''queue_item_url'', opt_json JStr (ha_location response)),
             (''message'', JStr ''Build queued. Use get_jenkins_job_status to poll for completion.'')])))))))"

section \<open>Prometheus\<close>

definition prometheus_params :: "dict \<Rightarrow> string \<times> json" where
  "prometheus_params arguments =
     (let query = dict_get arguments ''query'' in
      if \<exists>k \<in> set [''start'', ''end'', ''step'']. truthy (dict_get arguments k)
      then (''/api/v1/query_range'',
            JObj [(''query'', query), (''start'', dict_get arguments ''start''),
                  (''end'', dict_get arguments ''end''), (''step'', dict_get arguments ''step'')])
      else (''/api/v1/query'', JObj ((''query'', query) # passed_on arguments [''time''])))"

definition prometheus_result :: "tool_settings \<Rightarrow> json \<Rightarrow> json \<Rightarrow> dict result" where
  "prometheus_result S query body =
     bind_res (json_get body ''status'') (\<lambda>status.
       if status \<noteq> JStr ''success''
       then bind_res (json_get_or body ''error'' (JStr ''unknown error'')) (\<lambda>e.
         Inl (ExecutorError ''upstream_error'' (''Prometheus query failed: '' @ py_str (set_fr S) e)))
       else
         bind_res (json_get_or body ''data'' (JObj [])) (\<lambda>data.
         bind_res (json_get data ''resultType'') (\<lambda>result_type.
         bind_res (json_get_or data ''result'' (JList [])) (\<lambda>result.
           Inr [(''query'', query), (''result_type'', result_type), (''result'', result)]))))"

definition read_prometheus_metrics :: "'k outside \<Rightarrow> tool_settings \<Rightarrow> dict \<Rightarrow> ('k, dict) tool_monad" where
  "read_prometheus_metrics Out S arguments =
     (let query = dict_get arguments ''query''; (path, params) = prometheus_params arguments in
      bind_st (require (truthy query) (missing_fields [''query''])) (\<lambda>_.
      bind_st (http_get Out S \<lparr>cl_base = PROMETHEUS_URL S, cl_headers = [], cl_auth = None\<rparr> path params
        ''Prometheus endpoint not found'' ''Prometheus'') (\<lambda>response.
        lift_res (bind_res (answer_json response) (prometheus_result S query)))))"

section \<open>Tickets\<close>

definition open_ticket :: "dict \<Rightarrow> ('k, dict) tool_monad" where
  "open_ticket arguments = ret [(''status'', JStr ''success'')]"

text \<open>The summary of the first assignment that has an assignee.\<close>

fun first_assignee :: "json list \<Rightarrow> json result" where
  "first_assignee [] = Inr JNull"
| "first_assignee (a # as) =
     bind_res (json_get a ''assignee'') (\<lambda>assignee.
       if truthy assignee then json_item assignee ''summary'' else first_assignee as)"

definition incident_summary :: "json \<Rightarrow> dict result" where
  "incident_summary incident =
     bind_res (json_item incident ''id'') (\<lambda>i.
     bind_res (json_get incident ''status'') (\<lambda>status.
     bind_res (json_get incident ''title'') (\<lambda>title.
     bind_res (get_in incident ''priority'' ''summary'') (\<lambda>priority.
     bind_res (if truthy priority then Inr priority else json_get incident ''urgency'') (\<lambda>severity.
     bind_res (json_get incident ''created_at'') (\<lambda>created.
     bind_res (json_get_or incident ''assignments'' (JList [])) (\<lambda>assignments.
     bind_res (json_iter assignments) (\<lambda>as.
     bind_res (first_assignee as) (\<lambda>assigned.
     bind_res (json_get incident ''last_status_change_at'') (\<lambda>last_activity.
       Inr [(''system'', JStr ''pagerduty''), (''ticket_id'', i), (''status'', status), (''title'', title),
            (''severity'', severity), (''created_at'', created), (''assigned_to'', assigned),
            (''last_activity'', last_activity), (''notes_count'', JNull)]))))))))))"

definition read_pagerduty_incident :: "'k outside \<Rightarrow> tool_settings \<Rightarrow> json \<Rightarrow> ('k, dict) tool_monad" where
  "read_pagerduty_incident Out S ticket_id =
     (let i = py_str (set_fr S) ticket_id in
      bind_st (require (set_text (PAGERDUTY_API_TOKEN S)) (not_configured ''PagerDuty'' ''PAGERDUTY_API_TOKEN'')) (\<lambda>_.
      bind_st (http_get Out S
        \<lparr>cl_base = PAGERDUTY_URL S,
         cl_headers = [(''Authorization'', ''Token token='' @ opt_text (PAGERDUTY_API_TOKEN S)),
                       (''Accept'', ''application/vnd.pagerduty+json;version=2'')], cl_auth = None\<rparr>
        (''/incidents/'' @ i) JNull (''PagerDuty incident '' @ quoted i @ '' not found'') ''PagerDuty'') (\<lambda>response.
        lift_res (bind_res (answer_json response) (\<lambda>body.
          bind_res (json_item body ''incident'') incident_summary)))))"

definition issue_summary :: "json \<Rightarrow> json \<Rightarrow> dict result" where
  "issue_summary ticket_id issue =
     bind_res (get_in issue ''status'' ''name'') (\<lambda>status.
     bind_res (json_get issue ''summary'') (\<lambda>title.
     bind_res (get_in issue ''priority'' ''name'') (\<lambda>severity.
     bind_res (json_get issue ''created'') (\<lambda>created.
     bind_res (get_in issue ''assignee'' ''emailAddress'') (\<lambda>assigned.
     bind_res (json_get issue ''updated'') (\<lambda>updated.
     bind_res (get_in issue ''comment'' ''total'') (\<lambda>notes.
       Inr [(''system'', JStr ''jira''), (''ticket_id'', ticket_id), (''status'', status), (''title'', title),
            (''severity'', severity), (''created_at'', created), (''assigned_to'', assigned),
            (''last_activity'', updated), (''notes_count'', notes)])))))))"

definition read_jira_issue :: "'k outside \<Rightarrow> tool_settings \<Rightarrow> json \<Rightarrow> ('k, dict) tool_monad" where
  "read_jira_issue Out S ticket_id =
     (let i = py_str (set_fr S) ticket_id in
      bind_st (require (JIRA_URL S \<noteq> [] \<and> set_text (JIRA_USER S) \<and> set_text (JIRA_API_TOKEN S))
        (not_configured ''Jira'' ''JIRA_URL/JIRA_USER/JIRA_API_TOKEN'')) (\<lambda>_.
      bind_st (http_get Out S
        \<lparr>cl_base = JIRA_URL S, cl_headers = [],
         cl_auth = Some (opt_text (JIRA_USER S), JIRA_API_TOKEN S)\<rparr>
        (''/rest/api/2/issue/'' @ i) JNull (''Jira issue '' @ quoted i @ '' not found'') ''Jira'') (\<lambda>response.
        lift_res (bind_res (answer_json response) (\<lambda>body.
          bind_res (json_item body ''fields'') (issue_summary ticket_id))))))"

definition read_ticket :: "'k outside \<Rightarrow> tool_settings \<Rightarrow> dict \<Rightarrow> ('k, dict) tool_monad" where
  "read_ticket Out S arguments =
     (let sys = dict_get arguments ''system''; ticket_id = dict_get arguments ''ticket_id'' in
      bind_st (require (sys \<in> {JStr ''pagerduty'', JStr ''jira''} \<and> truthy ticket_id)
        (validation_error (quoted ''system'' @ '' (pagerduty|jira) and '' @ quoted ''ticket_id'' @ '' are required''))) (\<lambda>_.
        if sys = JStr ''pagerduty'' then read_pagerduty_incident Out S ticket_id
        else read_jira_issue Out S ticket_id))"

end
