(* ===== verification/Tool_Registry.thy ===== *)
theory Tool_Registry
  imports Http_Tools Gateway_Cases
begin

text \<open>
  The registry \<open>TOOLS\<close> of \<open>app/main.py\<close> over the executors, and what the gateway relies on a
  registry for: the locale \<open>tool_registry\<close> asks that every error an executor raises on purpose has
  a type the gateway can answer, and the registry of the repository is shown to be one.
\<close>

section \<open>The registry\<close>

definition TOOLS :: "'k outside \<Rightarrow> tool_settings \<Rightarrow> (string \<times> 'k tool_state executor) list" where
  "TOOLS Out S =
     [(''list_pods'', list_pods Out S),
      (''get_pod_logs'', get_pod_logs Out S),
      (''get_deployment_status'', get_deployment_status Out S),
      (''restart_deployment'', restart_deployment Out S),
      (''scale_deployment'', scale_deployment Out S),
      (''exec_into_pod'', exec_into_pod Out S),
      (''apply_k8s_manifest'', apply_k8s_manifest Out S),
      (''query_terraform_plan'', query_terraform_plan Out S),
      (''trigger_jenkins_job'', trigger_jenkins_job Out S),
      (''get_jenkins_job_status'', get_jenkins_job_status Out S),
      (''read_prometheus_metrics'', read_prometheus_metrics Out S),
      (''open_ticket'', open_ticket),
      (''read_ticket'', read_ticket Out S)]"

lemma TOOLS_cases:
  assumes "map_of (TOOLS Out S) tool = Some f"
  shows "f \<in> {list_pods Out S, get_pod_logs Out S, get_deployment_status Out S, restart_deployment Out S,
    scale_deployment Out S, exec_into_pod Out S, apply_k8s_manifest Out S, query_terraform_plan Out S,
    trigger_jenkins_job Out S, get_jenkins_job_status Out S, read_prometheus_metrics Out S, open_ticket,
    read_ticket Out S}"
  using assms by (auto simp: TOOLS_def split: if_splits)

text \<open>
  The three places that name tools agree: what a key may call is what its role may call in the
  policy data, and all of it is registered.
\<close>

lemma scopes_in_sync:
  assumes "API_KEYS k = Some a"
  shows "\<exists>rc. data_roles (agent_role a) = Some rc \<and> set (allowed_tools a) = set (rc_tools rc)"
    "set (allowed_tools a) \<subseteq> fst ` set (TOOLS Out S)"
  using assms by (auto simp: API_KEYS_def data_roles_def TOOLS_def split: if_splits)

section \<open>The contract of a registry\<close>

locale tool_registry =
  fixes tools :: "(string \<times> 'x executor) list"
  assumes error_types: "map_of tools tool = Some f \<Longrightarrow> f args x = (Inl (ExecutorError t m), x') \<Longrightarrow>
    ERROR_TYPE_STATUS t \<noteq> None"
begin

lemma executor_error_has_status:
  assumes "execute_tool tools tool args x = (Executor_error t m, x')"
  shows "\<exists>s \<in> {400, 403, 404, 502, 504}. ERROR_TYPE_STATUS t = Some s"
proof -
  obtain f where "map_of tools tool = Some f" "f args x = (Inl (ExecutorError t m), x')"
    using assms by (auto simp: execute_tool_def split: option.splits prod.splits sum.splits exn.splits)
  from error_types [OF this] show ?thesis by (auto simp: ERROR_TYPE_STATUS_def split: if_splits)
qed

text \<open>So answering a run never fails for want of a status: an exception of \<open>mcp_run\<close> is an audit failure
  or an answer that cannot be rendered.\<close>

lemma run_raises_only_from_audit:
  assumes "c_tools c = tools" "mcp_run c e k d w = (Inl ex, w')"
  shows "(\<exists>ev w1. audit c e ev w1 = (Inl ex, w')) \<or> (\<exists>body s. respond body s = Inl ex)"
proof -
  obtain oc y where ex: "execute_tool tools (ca_tool k) (ca_args k) (w_ext w) = (oc, y)" by fastforce
  have at: "(\<exists>ev w1. audit c e ev w1 = (Inl ex, w')) \<or> (\<exists>body s. respond body s = Inl ex)"
    if "audit_then c e ev (respond b s) v = (Inl ex, w')" for ev b s v
    using that by (auto simp: audit_then_def split: prod.splits sum.splits)
  show ?thesis
  proof (cases oc)
    case (Executor_error t m)
    with executor_error_has_status ex obtain s where "ERROR_TYPE_STATUS t = Some s" by blast
    with assms ex Executor_error show ?thesis by (intro at) (auto simp: mcp_run_def Let_def)
  next
    case (Success r)
    with assms ex show ?thesis by (intro at) (auto simp: mcp_run_def Let_def)
  next
    case (Unhandled_error m)
    with assms ex show ?thesis by (intro at) (auto simp: mcp_run_def Let_def)
  qed
qed

end

section \<open>The error types of the executors\<close>

named_theorems typed

definition typed_exn :: "exn \<Rightarrow> bool" where
  "typed_exn e \<longleftrightarrow> (\<forall>t m. e = ExecutorError t m \<longrightarrow> ERROR_TYPE_STATUS t \<noteq> None)"

definition typed_res :: "'a result \<Rightarrow> bool" where
  "typed_res r \<longleftrightarrow> (\<forall>e. r = Inl e \<longrightarrow> typed_exn e)"

definition typed_tool :: "('w \<Rightarrow> 'a result \<times> 'w) \<Rightarrow> bool" where
  "typed_tool p \<longleftrightarrow> (\<forall>w. typed_res (fst (p w)))"

lemma typed_exn_simps [simp]:
  "typed_exn (PyError cl m)" "typed_exn (ExecutorError ''validation_error'' m)"
  "typed_exn (ExecutorError ''not_found'' m)" "typed_exn (ExecutorError ''permission_denied'' m)"
  "typed_exn (ExecutorError ''executor_timeout'' m)" "typed_exn (ExecutorError ''upstream_error'' m)"
  "typed_exn (validation_error m)" "typed_exn (missing_fields names)" "typed_exn (not_configured what vars)"
  "typed_exn (no_attr v a)" "typed_exn (bad_operands p u v)" "typed_exn (namespace_conflict S u v)"
  by (simp_all add: typed_exn_def ERROR_TYPE_STATUS_def validation_error_def missing_fields_def not_configured_def
      no_attr_def bad_operands_def namespace_conflict_def)

lemma typed_res_simps [simp]: "typed_res (Inr a)" "typed_res (Inl e) \<longleftrightarrow> typed_exn e"
  by (simp_all add: typed_res_def)

lemma typed_bind_res [typed, intro]: "typed_res r \<Longrightarrow> (\<And>a. typed_res (f a)) \<Longrightarrow> typed_res (bind_res r f)"
  by (cases r) auto

lemma typed_bind_st [typed]: "typed_tool p \<Longrightarrow> (\<And>a. typed_tool (f a)) \<Longrightarrow> typed_tool (bind_st p f)"
  by (auto simp: typed_tool_def bind_st_def split: prod.split sum.split)
    (metis fst_conv typed_res_simps(2))

lemma typed_basic [typed]:
  "typed_tool (ret a)" "typed_res r \<Longrightarrow> typed_tool (lift_res r)" "typed_exn e \<Longrightarrow> typed_tool (require b e)"
  "typed_tool (get_now Out)"
  by (auto simp: typed_tool_def ret_def lift_res_def require_def get_now_def)

lemma typed_py_add [typed, simp]: "typed_res (py_add u v)"
  unfolding py_add_def by (cases u; cases v) (simp_all add: num_value_def split: option.split)

lemma typed_epoch [typed, simp]: "typed_res (epoch_ms_to_iso v)"
  by (auto simp: epoch_ms_to_iso_def Let_def split: option.split pyfloat.split)

lemma typed_access [typed, simp]:
  "typed_res (json_get v k)" "typed_res (json_get_or v k d)" "typed_res (json_item v k)"
  "typed_res (json_first v)" "typed_res (json_iter v)" "typed_res (answer_json a)" "typed_res (job_path v)"
proof -
  show *: "typed_res (json_get_or v k d)" for d by (cases v) (simp_all add: json_get_or_def)
  show "typed_res (json_get v k)" by (simp add: json_get_def *)
  show "typed_res (json_item v k)" by (cases v) (simp_all add: json_item_def split: option.split)
  show "typed_res (json_first v)" by (cases v) (simp_all add: json_first_def split: list.split)
  show "typed_res (json_iter v)" by (cases v) (simp_all add: json_iter_def)
  show "typed_res (answer_json a)" by (simp add: answer_json_def split: option.split)
  show "typed_res (job_path v)" by (cases v) (simp_all add: job_path_def)
qed

lemma typed_require_reason [typed, simp]: "typed_res (require_reason args)"
  by (cases "py_or (dict_get args ''reason'') (JStr [])") (simp_all add: require_reason_def Let_def)

lemma typed_get_in [typed, simp]: "typed_res (get_in v k l)"
  by (auto simp: get_in_def)

lemma typed_load_config [typed]: "typed_tool (load_config Out)"
  by (simp add: typed_tool_def load_config_def split: load_reply.split)

lemma typed_if: "(b \<Longrightarrow> typed_tool p) \<Longrightarrow> (\<not> b \<Longrightarrow> typed_tool q) \<Longrightarrow> typed_tool (\<lambda>w. if b then p w else q w)"
  by (simp add: typed_tool_def)

lemma typed_cached: "typed_tool p \<Longrightarrow> typed_tool (\<lambda>w. if b w then (Inr (), w) else p w)"
  by (simp add: typed_tool_def)

lemma typed_clients [typed]:
  "typed_tool (core_v1_api Out)" "typed_tool (apps_v1_api Out)" "typed_tool (dynamic_client Out)"
  unfolding core_v1_api_def [abs_def] apps_v1_api_def [abs_def] dynamic_client_def [abs_def]
  by (intro typed_cached typed_bind_st typed_load_config;
      simp add: typed_tool_def split: prod.split option.split)+

lemma typed_k8s_run [typed]: "typed_tool (k8s_run S fn r)"
  by (simp add: typed_tool_def k8s_run_def Let_def split: k8s_reply.split prod.split)

lemma typed_send_request [typed]: "typed_tool (send_request Out S q n l)"
  by (simp add: typed_tool_def send_request_def Let_def split: http_reply.split prod.split)

lemma typed_resource_for [typed]: "typed_tool (resource_for Out S v k)"
  unfolding resource_for_def
  by (intro typed_bind_st typed; simp add: typed_tool_def Let_def split: resource_reply.split prod.split)

lemma typed_triggered_by [typed, simp]: "typed_res (triggered_by acts)"
proof (induction acts rule: triggered_by.induct)
  case (2 a acts)
  then show ?case by (auto intro!: typed_bind_res split: list.split)
qed simp

lemma typed_first_assignee [typed, simp]: "typed_res (first_assignee as)"
  by (induction as) (auto intro!: typed_bind_res)

lemma typed_summaries [typed, simp]:
  "typed_res (plan_id_of run)" "typed_res (plan_changes pd)" "typed_res (run_summary args ws run attrs plan)"
  "typed_res (build_summary job data)" "typed_res (crumb_header data)" "typed_res (prometheus_result S q body)"
  "typed_res (incident_summary inc)" "typed_res (issue_summary tid flds)"
  by (auto simp: plan_id_of_def plan_changes_def run_summary_def build_summary_def crumb_header_def
      prometheus_result_def incident_summary_def issue_summary_def intro!: typed_bind_res split: json.split)

lemma typed_requests [typed]:
  "typed_tool (http_get Out S cl p q n l)" "typed_tool (http_post Out S cl p q h n l)"
  "typed_tool (jenkins_crumb Out S)"
  by (auto simp: http_get_def http_post_def typed typed_tool_def jenkins_crumb_def Let_def
      intro!: typed_bind_res typed_send_request [unfolded typed_tool_def, rule_format]
      split: http_reply.split prod.split)

lemma typed_fetch_plan [typed]: "typed_tool (fetch_plan Out S i)"
  by (auto simp: fetch_plan_def intro!: typed typed_bind_res)

lemma typed_latest_run [typed]: "typed_tool (latest_run Out S args ws runs)"
  by (auto simp: latest_run_def intro!: typed typed_bind_res)

lemma typed_apply_in [typed]: "typed_tool (apply_in Out S ns m md)"
  by (auto simp: apply_in_def Let_def simp del: bind_require intro!: typed)

lemma typed_tickets [typed]:
  "typed_tool (read_pagerduty_incident Out S i)" "typed_tool (read_jira_issue Out S i)"
  unfolding read_pagerduty_incident_def read_jira_issue_def Let_def
  by (intro typed typed_bind_res; simp)+

lemma typed_reading:
  "typed_tool (list_pods Out S args)" "typed_tool (get_pod_logs Out S args)"
  "typed_tool (get_deployment_status Out S args)" "typed_tool (query_terraform_plan Out S args)"
  "typed_tool (get_jenkins_job_status Out S args)" "typed_tool (read_ticket Out S args)"
  unfolding list_pods_def get_pod_logs_def get_deployment_status_def query_terraform_plan_def
    get_jenkins_job_status_def read_ticket_def Let_def
  by (intro typed typed_bind_res; simp add: typed)+

lemma typed_open_ticket: "typed_tool (open_ticket args)"
  by (simp add: open_ticket_def typed)

lemma typed_prometheus: "typed_tool (read_prometheus_metrics Out S args)"
  unfolding read_prometheus_metrics_def Let_def by (cases "prometheus_params args") (auto simp del: bind_require intro!: typed typed_bind_res)

lemma typed_writing:
  "typed_tool (restart_deployment Out S args)" "typed_tool (scale_deployment Out S args)"
  "typed_tool (exec_into_pod Out S args)" "typed_tool (trigger_jenkins_job Out S args)"
  unfolding restart_deployment_def scale_deployment_def exec_into_pod_def trigger_jenkins_job_def Let_def
  by (intro typed; simp)+

lemma typed_apply: "typed_tool (apply_k8s_manifest Out S args)"
  by (auto simp: apply_k8s_manifest_def Let_def simp del: bind_require intro!: typed split: json.split)

lemma typed_TOOLS: "map_of (TOOLS Out S) tool = Some f \<Longrightarrow> typed_tool (f args)"
  using TOOLS_cases [of Out S tool f] typed_reading [of Out S args] typed_writing [of Out S args]
    typed_prometheus [of Out S args] typed_apply [of Out S args] typed_open_ticket
  by auto

interpretation tools: tool_registry "TOOLS Out S" for Out :: "'k outside" and S
proof unfold_locales
  fix tool args t m and f :: "'k tool_state executor" and x x'
  assume "map_of (TOOLS Out S) tool = Some f" "f args x = (Inl (ExecutorError t m), x')"
  then have "typed_exn (ExecutorError t m)"
    using typed_TOOLS [of Out S tool f args] unfolding typed_tool_def
    by (metis fst_conv typed_res_simps(2))
  then show "ERROR_TYPE_STATUS t \<noteq> None" by (simp add: typed_exn_def)
qed

end
