(* ===== verification/Tool_Calls.thy ===== *)
theory Tool_Calls
  imports Tool_Registry
begin

text \<open>
  What the executors guarantee whatever the systems behind them do: which calls they make, how many,
  with which arguments and timeouts.  The calls are observed by running the executors in a watched
  world, an instance of \<open>outside\<close> whose state also holds the list of the calls made so far; the
  executors are parametric in that state and cannot tell.
\<close>

section \<open>A watched world\<close>

datatype downstream_call =
    Cluster string dict pyfloat
  | Discover
  | Lookup json json
  | Http http_call

definition observed :: "downstream_call \<Rightarrow> ('k \<Rightarrow> 'a \<times> 'k) \<Rightarrow> 'k \<times> downstream_call list \<Rightarrow> 'a \<times> 'k \<times> downstream_call list" where
  "observed c op s = (let (reply, k) = op (fst s) in (reply, k, snd s @ [c]))"

definition watched :: "'k outside \<Rightarrow> ('k \<times> downstream_call list) outside" where
  "watched Out =
     \<lparr>out_clock = out_clock Out \<circ> fst, out_incluster = out_incluster Out \<circ> fst,
      out_kubeconfig = out_kubeconfig Out \<circ> fst,
      out_discover = observed Discover (out_discover Out),
      out_pod_log = \<lambda>kw t. observed (Cluster ''pod_log'' kw t) (out_pod_log Out kw t),
      out_list_pods = \<lambda>kw t. observed (Cluster ''list_pods'' kw t) (out_list_pods Out kw t),
      out_read_deployment = \<lambda>kw t. observed (Cluster ''read_deployment'' kw t) (out_read_deployment Out kw t),
      out_patch_deployment = \<lambda>kw t. observed (Cluster ''patch_deployment'' kw t) (out_patch_deployment Out kw t),
      out_patch_scale = \<lambda>kw t. observed (Cluster ''patch_scale'' kw t) (out_patch_scale Out kw t),
      out_exec = \<lambda>kw t. observed (Cluster ''exec'' kw t) (out_exec Out kw t),
      out_resource = \<lambda>v kd. observed (Lookup v kd) (out_resource Out v kd),
      out_apply = \<lambda>v kd kw t. observed (Cluster ''apply'' kw t) (out_apply Out v kd kw t),
      out_http = \<lambda>q. observed (Http q) (out_http Out q)\<rparr>"

type_synonym 'k watched_state = "('k \<times> downstream_call list) tool_state"

definition calls_of :: "'k watched_state \<Rightarrow> downstream_call list" where
  "calls_of w = snd (ts_out w)"

section \<open>The calls an executor can make\<close>

named_theorems calls

definition calls_within :: "nat \<Rightarrow> (downstream_call \<Rightarrow> bool) \<Rightarrow> ('k \<times> downstream_call list, 'a) tool_monad \<Rightarrow> bool" where
  "calls_within n P p \<longleftrightarrow>
     (\<forall>w. \<exists>cs. calls_of (snd (p w)) = calls_of w @ cs \<and> length cs \<le> n \<and> (\<forall>c \<in> set cs. P c))"

lemma calls_withinI:
  "(\<And>w. calls_of (snd (p w)) = calls_of w) \<Longrightarrow> calls_within n P p"
  by (simp add: calls_within_def)

lemma calls_within_more: "calls_within m P p \<Longrightarrow> m \<le> n \<Longrightarrow> calls_within n P p"
  unfolding calls_within_def by (meson order_trans)

lemma calls_bind:
  assumes p: "calls_within m P p" and f: "\<And>a. calls_within n P (f a)"
  shows "calls_within (m + n) P (bind_st p f)"
  unfolding calls_within_def
proof
  fix w
  obtain r w1 where run: "p w = (r, w1)" by fastforce
  then obtain cs where cs: "calls_of w1 = calls_of w @ cs" "length cs \<le> m" "\<forall>c \<in> set cs. P c"
    using p unfolding calls_within_def by (metis snd_conv)
  show "\<exists>cs. calls_of (snd (bind_st p f w)) = calls_of w @ cs \<and> length cs \<le> m + n \<and> (\<forall>c \<in> set cs. P c)"
  proof (cases r)
    case (Inl e)
    with run cs show ?thesis by (auto simp: bind_st_simps intro!: exI [of _ cs])
  next
    case (Inr a)
    obtain cs' where "calls_of (snd (f a w1)) = calls_of w1 @ cs'" "length cs' \<le> n" "\<forall>c \<in> set cs'. P c"
      using f [of a] unfolding calls_within_def by blast
    with run cs Inr show ?thesis by (auto simp: bind_st_simps intro!: exI [of _ "cs @ cs'"])
  qed
qed

text \<open>The steps that make no call, and those that make one.\<close>

lemma calls_quiet [calls]:
  "calls_within n P (ret a)" "calls_within n P (lift_res r)" "calls_within n P (require b e)"
  "calls_within n P (get_now Out)" "calls_within n P (load_config Out)"
  by (rule calls_withinI; simp add: ret_def lift_res_def require_def get_now_def load_config_def calls_of_def
      split: load_reply.split)+

lemma calls_clients [calls]: "calls_within n P (core_v1_api Out)" "calls_within n P (apps_v1_api Out)"
  by (rule calls_withinI; simp add: core_v1_api_def apps_v1_api_def bind_st_def load_config_def calls_of_def
      split: load_reply.split)+

lemma calls_one:
  assumes "P c" "\<And>w. snd (ts_out (snd (p w))) = snd (ts_out w) @ [c]"
  shows "calls_within (Suc n) P p"
  unfolding calls_within_def
proof
  fix w
  show "\<exists>cs. calls_of (snd (p w)) = calls_of w @ cs \<and> length cs \<le> Suc n \<and> (\<forall>c \<in> set cs. P c)"
    using assms by (intro exI [of _ "[c]"]) (simp add: calls_of_def)
qed

lemma snd_observed [simp]: "snd (snd (observed c op s)) = snd s @ [c]"
  by (simp add: observed_def split: prod.split)

lemma ts_out_calls:
  "ts_out (snd (k8s_run S fn r w)) = snd (fn (executor_timeout S) (ts_out w))"
  "ts_out (snd (send_request Out S q nf l w)) = snd (out_http Out q (ts_out w))"
  "ts_out (snd (jenkins_crumb Out S w)) =
     snd (out_http Out (client_call S (jenkins_client S) ''GET'' ''/crumbIssuer/api/json'' JNull) (ts_out w))"
  by (auto simp: k8s_run_def send_request_def jenkins_crumb_def Let_def
      split: prod.split k8s_reply.split http_reply.split)

lemma calls_cluster [calls]:
  "P (Cluster ''pod_log'' kw (executor_timeout S)) \<Longrightarrow>
    calls_within (Suc n) P (k8s_run S (out_pod_log (watched Out) kw) r)"
  "P (Cluster ''list_pods'' kw (executor_timeout S)) \<Longrightarrow>
    calls_within (Suc n) P (k8s_run S (out_list_pods (watched Out) kw) r)"
  "P (Cluster ''read_deployment'' kw (executor_timeout S)) \<Longrightarrow>
    calls_within (Suc n) P (k8s_run S (out_read_deployment (watched Out) kw) r)"
  "P (Cluster ''patch_deployment'' kw (executor_timeout S)) \<Longrightarrow>
    calls_within (Suc n) P (k8s_run S (out_patch_deployment (watched Out) kw) r)"
  "P (Cluster ''patch_scale'' kw (executor_timeout S)) \<Longrightarrow>
    calls_within (Suc n) P (k8s_run S (out_patch_scale (watched Out) kw) r)"
  "P (Cluster ''exec'' kw (executor_timeout S)) \<Longrightarrow>
    calls_within (Suc n) P (k8s_run S (out_exec (watched Out) kw) r)"
  "P (Cluster ''apply'' kw (executor_timeout S)) \<Longrightarrow>
    calls_within (Suc n) P (k8s_run S (out_apply (watched Out) v kd kw) r)"
  by (rule calls_one; simp add: ts_out_calls watched_def)+

lemma calls_http [calls]:
  "P (Http (client_call S cl ''GET'' path params)) \<Longrightarrow>
    calls_within (Suc n) P (http_get (watched Out) S cl path params nf l)"
  "(\<And>hs. P (Http (client_call S (cl\<lparr>cl_headers := hs\<rparr>) ''POST'' path params))) \<Longrightarrow>
    calls_within (Suc n) P (http_post (watched Out) S cl path params headers nf l)"
  "P (Http (client_call S (jenkins_client S) ''GET'' ''/crumbIssuer/api/json'' JNull)) \<Longrightarrow>
    calls_within (Suc n) P (jenkins_crumb (watched Out) S)"
  unfolding http_get_def http_post_def
  by (rule calls_one, assumption, simp add: ts_out_calls watched_def)+

lemma calls_dynamic_client:
  assumes "P Discover"
  shows "calls_within (Suc n) P (dynamic_client (watched Out))"
  unfolding calls_within_def
proof
  fix w
  show "\<exists>cs. calls_of (snd (dynamic_client (watched Out) w)) = calls_of w @ cs \<and> length cs \<le> Suc n \<and>
      (\<forall>c \<in> set cs. P c)"
    using assms by (auto simp: dynamic_client_def watched_def observed_def load_config_def bind_st_def calls_of_def
        split: load_reply.split prod.split option.split sum.split intro: exI [of _ "[Discover]"])
qed

lemma calls_resource_for:
  assumes "P Discover" "P (Lookup v kd)"
  shows "calls_within (Suc (Suc n)) P (resource_for (watched Out) S v kd)"
proof -
  have step: "calls_within (Suc n) P (\<lambda>w. let (reply, k) = out_resource (watched Out) v kd (ts_out w);
      w1 = w\<lparr>ts_out := k\<rparr>; t = what in case reply of ResourceFound b \<Rightarrow> (Inr b, w1)
      | ResourceNotFoundError \<Rightarrow> (Inl (e t), w1) | ResourceNotUniqueError m \<Rightarrow> (Inl (e' t m), w1)
      | ResourceRaises cl m \<Rightarrow> (Inl (e'' cl m), w1))" for what :: string and e e' e''
    by (rule calls_one [of P, OF assms(2)])
      (simp add: watched_def Let_def split_def split: resource_reply.split)
  have "calls_within (1 + Suc n) P (resource_for (watched Out) S v kd)"
    unfolding resource_for_def
    by (intro calls_bind step) (use calls_dynamic_client [of P 0, OF assms(1)] in simp)
  then show ?thesis by simp
qed

text \<open>Sequencing: what comes before the calls costs nothing, and may fix what the calls carry.\<close>

lemma calls_quiet_then:
  assumes "calls_within 0 P p" "\<And>a. calls_within n P (f a)"
  shows "calls_within n P (bind_st p f)"
  using calls_bind [of 0 P p n f] assms by simp

lemma calls_then_require [calls]:
  "(b \<Longrightarrow> calls_within n P (f ())) \<Longrightarrow> calls_within n P (bind_st (require b e) f)"
  by (cases b) (auto simp: calls_within_def)

lemma calls_then_res [calls]:
  "(\<And>a. r = Inr a \<Longrightarrow> calls_within n P (f a)) \<Longrightarrow> calls_within n P (bind_st (lift_res r) f)"
  by (cases r) (auto simp: calls_within_def bind_lift_res)

lemma calls_then_now [calls]: "(\<And>a. calls_within n P (f a)) \<Longrightarrow> calls_within n P (bind_st (get_now Out) f)"
  by (blast intro: calls_quiet_then calls)

lemma calls_then_client [calls]:
  "(\<And>a. calls_within n P (f a)) \<Longrightarrow> calls_within n P (bind_st (core_v1_api Out) f)"
  "(\<And>a. calls_within n P (f a)) \<Longrightarrow> calls_within n P (bind_st (apps_v1_api Out) f)"
  by (blast intro: calls_quiet_then calls)+

lemma calls_after [calls]:
  "calls_within 1 P (k8s_run S g r) \<Longrightarrow> (\<And>a. calls_within n P (f a)) \<Longrightarrow>
    calls_within (Suc n) P (bind_st (k8s_run S g r) f)"
  "calls_within 1 P (http_get Out S cl p q nf l) \<Longrightarrow> (\<And>a. calls_within n P (f' a)) \<Longrightarrow>
    calls_within (Suc n) P (bind_st (http_get Out S cl p q nf l) f')"
  "calls_within 1 P (http_post Out S cl p q h nf l) \<Longrightarrow> (\<And>a. calls_within n P (f' a)) \<Longrightarrow>
    calls_within (Suc n) P (bind_st (http_post Out S cl p q h nf l) f')"
  "calls_within 1 P (jenkins_crumb Out S) \<Longrightarrow> (\<And>a. calls_within n P (f'' a)) \<Longrightarrow>
    calls_within (Suc n) P (bind_st (jenkins_crumb Out S) f'')"
  using calls_bind [of 1 P _ n] by auto

lemma calls_lookup [calls]:
  "P Discover \<Longrightarrow> P (Lookup v kd) \<Longrightarrow> (\<And>a. calls_within n P (f a)) \<Longrightarrow>
    calls_within (Suc (Suc n)) P (bind_st (resource_for (watched Out) S v kd) f)"
  using calls_bind [of 2 P "resource_for (watched Out) S v kd" n f] calls_resource_for [of P v kd 0 Out S]
  by (simp add: numeral_2_eq_2)

lemma calls_if [calls]:
  "(b \<Longrightarrow> calls_within n P p) \<Longrightarrow> (\<not> b \<Longrightarrow> calls_within n P q) \<Longrightarrow> calls_within n P (if b then p else q)"
  by simp

section \<open>What each tool may call\<close>

text \<open>The cluster operation behind each Kubernetes tool, and the service behind each HTTP tool.\<close>

definition cluster_ops :: "(string \<times> string) list" where
  "cluster_ops =
     [(''list_pods'', ''list_pods''), (''get_pod_logs'', ''pod_log''),
      (''get_deployment_status'', ''read_deployment''), (''restart_deployment'', ''patch_deployment''),
      (''scale_deployment'', ''patch_scale''), (''exec_into_pod'', ''exec''), (''apply_k8s_manifest'', ''apply'')]"

definition service_urls :: "tool_settings \<Rightarrow> (string \<times> string list) list" where
  "service_urls S =
     [(''query_terraform_plan'', [TFC_URL S]), (''trigger_jenkins_job'', [JENKINS_URL S]),
      (''get_jenkins_job_status'', [JENKINS_URL S]), (''read_prometheus_metrics'', [PROMETHEUS_URL S]),
      (''read_ticket'', [PAGERDUTY_URL S, JIRA_URL S])]"

definition reason_given :: "dict \<Rightarrow> bool" where
  "reason_given args \<longleftrightarrow>
     (case dict_get args ''reason'' of
        JStr s \<Rightarrow> 10 \<le> length (py_strip s) \<and> length (py_strip s) \<le> 500
      | _ \<Rightarrow> False)"

text \<open>The keyword arguments of a writing operation, against the arguments of the tool call.\<close>

definition write_checked :: "dict \<Rightarrow> string \<Rightarrow> dict \<Rightarrow> bool" where
  "write_checked args op kw \<longleftrightarrow>
     reason_given args \<and>
     (op = ''patch_deployment'' \<and> dict_get kw ''name'' = dict_get args ''deployment'' \<or>
      op = ''patch_scale'' \<and> dict_get kw ''name'' = dict_get args ''deployment'' \<and>
        valid_replicas (dict_get args ''replicas'') \<and>
        dict_get kw ''body'' = JObj [(''spec'', JObj [(''replicas'', dict_get args ''replicas'')])] \<or>
      op = ''exec'' \<and> dict_get kw ''name'' = dict_get args ''pod_name'' \<and>
        valid_command (dict_get args ''command'') \<and> dict_get kw ''command'' = dict_get args ''command'' \<and>
        dict_get kw ''stdin'' = JBool False \<and> dict_get kw ''tty'' = JBool False \<or>
      op = ''apply'' \<and>
        (case dict_get kw ''body'' of
           JObj manifest \<Rightarrow>
             (case dict_get manifest ''metadata'' of
                JObj metadata \<Rightarrow> dict_get metadata ''namespace'' = dict_get args ''namespace''
              | _ \<Rightarrow> False)
         | _ \<Rightarrow> False))"

definition reading_ops :: "string list" where
  "reading_ops = [''pod_log'', ''list_pods'', ''read_deployment'']"

definition cluster_allowed :: "string \<Rightarrow> dict \<Rightarrow> string \<Rightarrow> dict \<Rightarrow> bool" where
  "cluster_allowed tool args op kw \<longleftrightarrow>
     map_of cluster_ops tool = Some op \<and>
     truthy (dict_get args ''namespace'') \<and> dict_get kw ''namespace'' = dict_get args ''namespace'' \<and>
     (op \<in> set reading_ops \<or> write_checked args op kw)"

definition http_allowed :: "tool_settings \<Rightarrow> string \<Rightarrow> dict \<Rightarrow> http_call \<Rightarrow> bool" where
  "http_allowed S tool args q \<longleftrightarrow>
     (case map_of (service_urls S) tool of None \<Rightarrow> False | Some urls \<Rightarrow> hc_base q \<in> set urls) \<and>
     (hc_method q = ''GET'' \<or> hc_method q = ''POST'' \<and> tool = ''trigger_jenkins_job'' \<and> reason_given args)"

definition call_allowed :: "tool_settings \<Rightarrow> string \<Rightarrow> dict \<Rightarrow> downstream_call \<Rightarrow> bool" where
  "call_allowed S tool args c =
     (case c of
        Cluster op kw t \<Rightarrow> t = executor_timeout S \<and> cluster_allowed tool args op kw
      | Discover \<Rightarrow> tool = ''apply_k8s_manifest'' \<and> reason_given args
      | Lookup v kd \<Rightarrow> tool = ''apply_k8s_manifest'' \<and> reason_given args
      | Http q \<Rightarrow> hc_timeout q = executor_timeout S \<and> http_allowed S tool args q)"

lemma require_reason_given: "require_reason args = Inr r \<Longrightarrow> reason_given args"
  by (auto simp: require_reason_def reason_given_def py_or_def Let_def py_strip_def strip_by_def split: json.splits if_splits)

lemmas allowed_defs = call_allowed_def cluster_allowed_def http_allowed_def write_checked_def cluster_ops_def
  service_urls_def reading_ops_def client_call_def

lemma calls_cluster_tools:
  "calls_within 1 (call_allowed S ''list_pods'' args) (list_pods (watched Out) S args)"
  "calls_within 1 (call_allowed S ''get_pod_logs'' args) (get_pod_logs (watched Out) S args)"
  "calls_within 1 (call_allowed S ''get_deployment_status'' args) (get_deployment_status (watched Out) S args)"
  "calls_within 1 (call_allowed S ''restart_deployment'' args) (restart_deployment (watched Out) S args)"
  "calls_within 1 (call_allowed S ''scale_deployment'' args) (scale_deployment (watched Out) S args)"
  "calls_within 1 (call_allowed S ''exec_into_pod'' args) (exec_into_pod (watched Out) S args)"
  unfolding list_pods_def get_pod_logs_def get_deployment_status_def restart_deployment_def
    scale_deployment_def exec_into_pod_def Let_def One_nat_def
  by (intro calls [unfolded One_nat_def]; simp add: allowed_defs require_reason_given)+

lemma calls_apply_in:
  assumes "truthy namespace" "reason_given args" "dict_get args ''namespace'' = namespace"
  shows "calls_within 3 (call_allowed S ''apply_k8s_manifest'' args) (apply_in (watched Out) S namespace manifest metadata)"
  unfolding apply_in_def Let_def One_nat_def numeral_3_eq_3
  by (intro calls [unfolded One_nat_def]; simp add: allowed_defs assms manifest_in_def)

lemma calls_apply: "calls_within 3 (call_allowed S ''apply_k8s_manifest'' args) (apply_k8s_manifest (watched Out) S args)"
proof -
  have check: "calls_within 3 P (case v of JNull \<Rightarrow> lift_res a | JBool x \<Rightarrow> lift_res (b x) | JInt x \<Rightarrow> lift_res (c x)
      | JFloat x \<Rightarrow> lift_res (d x) | JStr x \<Rightarrow> lift_res (e x) | JList x \<Rightarrow> lift_res (f x) | JObj x \<Rightarrow> p x)"
    if "\<And>d. v = JObj d \<Longrightarrow> calls_within 3 P (p d)"
    for P v a b c d e f and p :: "dict \<Rightarrow> ('a \<times> downstream_call list, dict) tool_monad"
    using that by (cases v) (simp_all add: calls_quiet)
  show ?thesis
    unfolding apply_k8s_manifest_def Let_def
    by (intro calls_then_require calls_then_res check calls_apply_in)
      (auto dest: require_reason_given)
qed

lemma calls_http_tools:
  "calls_within 2 (call_allowed S ''trigger_jenkins_job'' args) (trigger_jenkins_job (watched Out) S args)"
  "calls_within 1 (call_allowed S ''get_jenkins_job_status'' args) (get_jenkins_job_status (watched Out) S args)"
  "calls_within 1 (call_allowed S ''read_ticket'' args) (read_ticket (watched Out) S args)"
  unfolding trigger_jenkins_job_def get_jenkins_job_status_def read_ticket_def read_pagerduty_incident_def
    read_jira_issue_def Let_def One_nat_def numeral_2_eq_2
  by (intro calls [unfolded One_nat_def]; simp add: allowed_defs jenkins_client_def require_reason_given)+

lemma calls_prometheus:
  "calls_within 1 (call_allowed S ''read_prometheus_metrics'' args) (read_prometheus_metrics (watched Out) S args)"
  unfolding read_prometheus_metrics_def Let_def One_nat_def
  by (cases "prometheus_params args")
    (simp del: bind_require, intro calls [unfolded One_nat_def], simp_all add: allowed_defs)

lemma calls_fetch_plan: "calls_within 1 (call_allowed S ''query_terraform_plan'' args) (fetch_plan (watched Out) S i)"
  unfolding fetch_plan_def Let_def One_nat_def
  by (intro calls [unfolded One_nat_def]; simp add: allowed_defs terraform_client_def)

lemma calls_terraform:
  "calls_within 3 (call_allowed S ''query_terraform_plan'' args) (query_terraform_plan (watched Out) S args)"
proof -
  have "calls_within 1 (call_allowed S ''query_terraform_plan'' args) (latest_run (watched Out) S args ws runs)" for ws runs
    unfolding latest_run_def
    by (auto intro!: calls_if calls_quiet calls_then_res simp del: One_nat_def)
       (use calls_bind [of 1 _ _ 0, OF calls_fetch_plan calls_quiet(2)] in simp)
  then show ?thesis
    unfolding query_terraform_plan_def Let_def One_nat_def numeral_3_eq_3
    by (intro calls [unfolded One_nat_def]; simp add: allowed_defs terraform_client_def)
qed

lemma calls_open_ticket: "calls_within n P (open_ticket args)"
  by (simp add: open_ticket_def calls_quiet)

lemma calls_TOOLS:
  assumes "map_of (TOOLS (watched Out) S) tool = Some f"
  shows "calls_within 3 (call_allowed S tool args) (f args)"
proof -
  note up = calls_within_more [where m = 1 and n = 3] calls_within_more [where m = 2 and n = 3]
  have "\<forall>(tool, f) \<in> set (TOOLS (watched Out) S). calls_within 3 (call_allowed S tool args) (f args)"
    by (simp add: TOOLS_def calls_cluster_tools [THEN up(1)] calls_http_tools(1) [THEN up(2)]
        calls_http_tools(2,3) [THEN up(1)] calls_prometheus [THEN up(1)] calls_apply calls_terraform calls_open_ticket)
  then show ?thesis using map_of_SomeD [OF assms] by blast
qed

lemma TOOLS_makes:
  assumes "map_of (TOOLS (watched Out) S) tool = Some f"
  shows "\<exists>cs. calls_of (snd (f args w)) = calls_of w @ cs \<and> length cs \<le> 3 \<and> (\<forall>c \<in> set cs. call_allowed S tool args c)"
  using calls_TOOLS [OF assms] unfolding calls_within_def by blast

end
