(* ===== verification/Tool_Props.thy ===== *)
theory Tool_Props
  imports Tool_Calls Gateway_Props
begin

text \<open>
  The guarantees of the executors, alone and behind the gateway: the calls they make, the errors
  they raise, what they check before they act, and what the repository's policy lets them reach.
\<close>

section \<open>A concrete outside world\<close>

definition demo_outside :: "unit outside" where
  "demo_outside =
     \<lparr>out_clock = \<lambda>_. 0, out_incluster = \<lambda>_. ConfigException ''none'', out_kubeconfig = \<lambda>_. Loaded,
      out_discover = \<lambda>k. (None, k), out_pod_log = \<lambda>kw t k. (K8sOk ''up'', k),
      out_list_pods = \<lambda>kw t k. (K8sOk [], k), out_read_deployment = \<lambda>kw t k. (ApiException 404 ''Not Found'', k),
      out_patch_deployment = \<lambda>kw t k. (K8sOk (), k), out_patch_scale = \<lambda>kw t k. (K8sOk (), k),
      out_exec = \<lambda>kw t k. (K8sOk ''root'', k), out_resource = \<lambda>v kd k. (ResourceFound True, k),
      out_apply = \<lambda>v kd kw t k. (K8sOk (), k), out_http = \<lambda>q k. (HttpTimeout ''slow'', k)\<rparr>"

definition demo_settings :: tool_settings where
  "demo_settings =
     \<lparr>set_to_float = \<lambda>_. Some PosInf, set_fr = whole_repr, EXECUTOR_TIMEOUT_SECONDS = Some ''inf'',
      TFC_URL = ''https://tfc'', TFC_ORG = None, TFC_TOKEN = None, JENKINS_URL = ''https://ci'',
      JENKINS_USER = None, JENKINS_API_TOKEN = None, PROMETHEUS_URL = ''http://prom'',
      PAGERDUTY_URL = ''https://pd'', PAGERDUTY_API_TOKEN = None, JIRA_URL = '''', JIRA_USER = None,
      JIRA_API_TOKEN = None\<rparr>"

definition demo_tool_state :: "unit watched_state" where
  "demo_tool_state =
     \<lparr>ts_config = False, ts_core = False, ts_apps = False, ts_dynamic = False, ts_out = ((), [])\<rparr>"

abbreviation demo_registry :: "(string \<times> unit watched_state executor) list" where
  "demo_registry \<equiv> TOOLS (watched demo_outside) demo_settings"

lemma demo_registered:
  "map_of demo_registry ''get_pod_logs'' = Some (get_pod_logs (watched demo_outside) demo_settings)"
  "map_of demo_registry ''exec_into_pod'' = Some (exec_into_pod (watched demo_outside) demo_settings)"
  by (simp_all add: TOOLS_def)

section \<open>The calls\<close>

text \<open>
  C13: the executors keep to their calls.  Whatever the systems behind the tools answer, one run of
  a registered tool makes at most three calls, and each is the one the tool stands for: the cluster
  operation of the tool, in the namespace of the arguments, writing only with a reason of 10 to 500
  characters, replicas from 0 to 20, a command of non-empty strings and a manifest moved into that
  namespace; or a request to the service of the tool, which is a GET unless a Jenkins job is
  triggered with a reason.
\<close>

theorem executors_keep_to_their_calls:
  assumes "map_of (TOOLS (watched Out) S) tool = Some f"
  shows "\<exists>cs. calls_of (snd (f args w)) = calls_of w @ cs \<and> length cs \<le> 3 \<and> list_all (call_allowed S tool args) cs"
  using TOOLS_makes [OF assms] by (simp add: list_all_iff)

theorem executors_keep_to_their_calls_witness:
  "\<exists>cs. calls_of (snd (exec_into_pod (watched demo_outside) demo_settings [] demo_tool_state)) =
      calls_of demo_tool_state @ cs \<and> length cs \<le> 3 \<and> list_all (call_allowed demo_settings ''exec_into_pod'' []) cs"
  by (rule executors_keep_to_their_calls [OF demo_registered(2)])

definition timed_call :: "downstream_call \<Rightarrow> bool" where
  "timed_call c =
     (let in_bounds = (\<lambda>t. case t of Fin r \<Rightarrow> 1 \<le> r \<and> r \<le> 30 | _ \<Rightarrow> False) in
      case c of Cluster op kw t \<Rightarrow> in_bounds t | Http q \<Rightarrow> in_bounds (hc_timeout q) | _ \<Rightarrow> False)"

text \<open>The look-up of a resource type in the discovery document of the cluster, which takes no timeout.\<close>

definition discovery_call :: "downstream_call \<Rightarrow> bool" where
  "discovery_call c = (case c of Discover \<Rightarrow> True | Lookup v k \<Rightarrow> True | _ \<Rightarrow> False)"

lemma allowed_call_timed:
  "call_allowed S tool args c \<Longrightarrow> timed_call c \<or> discovery_call c \<and> tool = ''apply_k8s_manifest''"
  using timeout_in_range [of "set_to_float S" "EXECUTOR_TIMEOUT_SECONDS S"]
  by (auto simp: call_allowed_def timed_call_def discovery_call_def executor_timeout_def split: downstream_call.splits)

text \<open>
  C28: downstream calls are bounded in time, but for discovery.  Every call a run makes to a service
  or to the cluster API carries a timeout of 1 to 30 seconds, whatever the environment sets and
  however the text is read as a float.  The one exception is the look-up of the resource type that
  \<open>apply_k8s_manifest\<close> makes through the dynamic client, which carries none.
\<close>

theorem downstream_calls_bounded:
  assumes "map_of (TOOLS (watched Out) S) tool = Some f"
  shows "\<exists>cs. calls_of (snd (f args w)) = calls_of w @ cs \<and> length cs \<le> 3 \<and>
    list_all (\<lambda>c. timed_call c \<or> discovery_call c \<and> tool = ''apply_k8s_manifest'') cs"
  using TOOLS_makes [OF assms] allowed_call_timed unfolding list_all_iff by meson

theorem downstream_calls_bounded_witness:
  "\<exists>cs. calls_of (snd (get_pod_logs (watched demo_outside) demo_settings demo_args demo_tool_state)) =
      calls_of demo_tool_state @ cs \<and> length cs \<le> 3 \<and> list_all timed_call cs"
  using downstream_calls_bounded [OF demo_registered(1)] by simp

definition read_only_tools :: "string list" where
  "read_only_tools =
     [''list_pods'', ''get_pod_logs'', ''get_deployment_status'', ''query_terraform_plan'',
      ''get_jenkins_job_status'', ''read_prometheus_metrics'', ''read_ticket'', ''open_ticket'']"

definition reading_call :: "downstream_call \<Rightarrow> bool" where
  "reading_call c =
     (case c of Cluster op kw t \<Rightarrow> op \<in> set reading_ops | Http q \<Rightarrow> hc_method q = ''GET'' | _ \<Rightarrow> False)"

lemma allowed_call_reads: "call_allowed S tool args c \<Longrightarrow> tool \<in> set read_only_tools \<Longrightarrow> reading_call c"
  by (auto simp: call_allowed_def cluster_allowed_def http_allowed_def reading_call_def read_only_tools_def
      cluster_ops_def reading_ops_def split: downstream_call.splits)

text \<open>
  The reading tools only read.  A run of a tool that is not a write in the tool specification
  makes only GET requests and reading cluster operations.
\<close>

theorem reading_tools_only_read:
  assumes "map_of (TOOLS (watched Out) S) tool = Some f" and "tool \<in> set read_only_tools"
  shows "\<exists>cs. calls_of (snd (f args w)) = calls_of w @ cs \<and> list_all reading_call cs"
  using TOOLS_makes [OF assms(1)] allowed_call_reads [OF _ assms(2)] unfolding list_all_iff by meson

theorem reading_tools_only_read_witness:
  "\<exists>cs. calls_of (snd (get_pod_logs (watched demo_outside) demo_settings demo_args demo_tool_state)) =
      calls_of demo_tool_state @ cs \<and> list_all reading_call cs"
  by (rule reading_tools_only_read [OF demo_registered(1)]) (simp add: read_only_tools_def)

section \<open>The errors\<close>

text \<open>
  C36: every error an executor raises on purpose has an answer.  A run of a registered tool that
  ends in an \<open>ExecutorError\<close> ends in one of the five documented types, and each has its HTTP status.
\<close>

theorem executor_errors_are_answerable:
  assumes "execute_tool (TOOLS Out S) tool args w = (Executor_error t m, w')"
  shows "\<exists>s. ERROR_TYPE_STATUS t = Some s \<and> s \<in> {400, 403, 404, 502, 504}"
  using tools.executor_error_has_status [OF assms] by blast

definition required_fields :: "(string \<times> string list) list" where
  "required_fields =
     [(''list_pods'', [''namespace'']), (''get_pod_logs'', [''namespace'', ''pod_name'']),
      (''get_deployment_status'', [''namespace'', ''deployment'']),
      (''restart_deployment'', [''namespace'', ''deployment'']),
      (''scale_deployment'', [''namespace'', ''deployment'']),
      (''exec_into_pod'', [''namespace'', ''pod_name'']), (''apply_k8s_manifest'', [''namespace'']),
      (''query_terraform_plan'', [''workspace'']), (''trigger_jenkins_job'', [''job_name'']),
      (''get_jenkins_job_status'', [''job_name'']), (''read_prometheus_metrics'', [''query''])]"

lemma required_checked:
  "\<not> truthy (dict_get args ''namespace'') \<Longrightarrow> list_pods Out S args w = (Inl (missing_fields [''namespace'']), w)"
  "\<not> (truthy (dict_get args ''namespace'') \<and> truthy (dict_get args ''pod_name'')) \<Longrightarrow>
    get_pod_logs Out S args w = (Inl (missing_fields [''namespace'', ''pod_name'']), w)"
  "\<not> (truthy (dict_get args ''namespace'') \<and> truthy (dict_get args ''deployment'')) \<Longrightarrow>
    get_deployment_status Out S args w = (Inl (missing_fields [''namespace'', ''deployment'']), w)"
  "\<not> (truthy (dict_get args ''namespace'') \<and> truthy (dict_get args ''deployment'')) \<Longrightarrow>
    restart_deployment Out S args w = (Inl (missing_fields [''namespace'', ''deployment'']), w)"
  "\<not> (truthy (dict_get args ''namespace'') \<and> truthy (dict_get args ''deployment'')) \<Longrightarrow>
    scale_deployment Out S args w = (Inl (missing_fields [''namespace'', ''deployment'']), w)"
  "\<not> (truthy (dict_get args ''namespace'') \<and> truthy (dict_get args ''pod_name'')) \<Longrightarrow>
    exec_into_pod Out S args w = (Inl (missing_fields [''namespace'', ''pod_name'']), w)"
  "\<not> truthy (dict_get args ''namespace'') \<Longrightarrow> apply_k8s_manifest Out S args w = (Inl (missing_fields [''namespace'']), w)"
  "\<not> truthy (dict_get args ''workspace'') \<Longrightarrow> query_terraform_plan Out S args w = (Inl (missing_fields [''workspace'']), w)"
  "\<not> truthy (dict_get args ''job_name'') \<Longrightarrow> trigger_jenkins_job Out S args w = (Inl (missing_fields [''job_name'']), w)"
  "\<not> truthy (dict_get args ''job_name'') \<Longrightarrow> get_jenkins_job_status Out S args w = (Inl (missing_fields [''job_name'']), w)"
  "\<not> truthy (dict_get args ''query'') \<Longrightarrow> read_prometheus_metrics Out S args w = (Inl (missing_fields [''query'']), w)"
  by (auto simp: list_pods_def get_pod_logs_def get_deployment_status_def restart_deployment_def
      scale_deployment_def exec_into_pod_def apply_k8s_manifest_def query_terraform_plan_def
      trigger_jenkins_job_def get_jenkins_job_status_def read_prometheus_metrics_def Let_def split: prod.split)

lemma required_refused:
  "\<forall>(tool, names) \<in> set required_fields. \<not> list_all (\<lambda>k. truthy (dict_get args k)) names \<longrightarrow>
     (\<exists>f. map_of (TOOLS Out S) tool = Some f \<and> f args w = (Inl (missing_fields names), w))"
  by (simp add: required_fields_def TOOLS_def required_checked)

text \<open>
  A missing argument is refused before anything happens.  If a required argument is missing or
  empty, the run is a \<open>validation_error\<close> that names the required arguments, and no client is
  built, no call made and no state changed.
\<close>

theorem missing_argument_refused:
  assumes "map_of required_fields tool = Some names" and "\<not> list_all (\<lambda>k. truthy (dict_get args k)) names"
  shows "execute_tool (TOOLS Out S) tool args w =
    (Executor_error ''validation_error'' (join '' and '' (map quoted names)
       @ (case names of [_] \<Rightarrow> '' is required'' | _ \<Rightarrow> '' are required'')), w)"
proof -
  obtain f where "map_of (TOOLS Out S) tool = Some f" "f args w = (Inl (missing_fields names), w)"
    using required_refused [of args Out S w] map_of_SomeD [OF assms(1)] assms(2) by blast
  then show ?thesis by (simp add: execute_tool_def missing_fields_def validation_error_def)
qed

theorem missing_argument_refused_witness:
  "execute_tool demo_registry ''exec_into_pod'' [(''namespace'', JStr ''web'')] demo_tool_state =
    (Executor_error ''validation_error'' (join '' and '' (map quoted [''namespace'', ''pod_name''])
       @ (case [''namespace'', ''pod_name''] of [_] \<Rightarrow> '' is required'' | _ \<Rightarrow> '' are required'')), demo_tool_state)"
  by (rule missing_argument_refused) (simp_all add: required_fields_def)

section \<open>Effects on the cluster\<close>

lemma k8s_run_Inr:
  "k8s_run S fn r w = (Inr a, w') \<longleftrightarrow>
     fn (executor_timeout S) (ts_out w) = (K8sOk a, ts_out w') \<and> w' = w\<lparr>ts_out := ts_out w'\<rparr>"
  by (cases "fn (executor_timeout S) (ts_out w)")
    (auto simp: k8s_run_def Let_def split: k8s_reply.split)

text \<open>
  What a command printed is reported up to 4000 characters.  A run of \<open>exec_into_pod\<close> that
  succeeds has made the \<open>exec\<close> call on the named pod and reports the first 4000 characters of its
  output, says whether that is all of it, and repeats the command it ran.
\<close>

theorem exec_output_capped:
  assumes "exec_into_pod Out S args w = (Inr result, w')"
  shows "\<exists>out kw k k'. out_exec Out kw (executor_timeout S) k = (K8sOk out, k') \<and>
    dict_get kw ''name'' = dict_get args ''pod_name'' \<and> dict_get kw ''command'' = dict_get args ''command'' \<and>
    dict_get result ''output'' = JStr (take 4000 out) \<and>
    dict_get result ''output_truncated'' = JBool (4000 < length out) \<and>
    dict_get result ''command'' = dict_get args ''command''"
proof -
  let ?kw = "[(''name'', dict_get args ''pod_name''), (''namespace'', dict_get args ''namespace''),
     (''command'', dict_get args ''command''), (''stderr'', JBool True), (''stdin'', JBool False),
     (''stdout'', JBool True), (''tty'', JBool False)] @ passed_on args [''container'']"
  obtain out w1 w2 w3 where
    "k8s_run S (out_exec Out ?kw) (in_namespace_text S ''pod'' (dict_get args ''pod_name'') (dict_get args ''namespace'')) w1
       = (Inr out, w2)"
    "result = [(''status'', JStr ''executed''), (''namespace'', dict_get args ''namespace''),
       (''pod_name'', dict_get args ''pod_name''), (''container'', dict_get args ''container''),
       (''command'', dict_get args ''command''), (''output'', JStr (take EXEC_OUTPUT_MAX_CHARS out)),
       (''output_truncated'', JBool (EXEC_OUTPUT_MAX_CHARS < length out)),
       (''timeout_seconds'', JFloat (executor_timeout S)), (''executed_at'', JStr (utc_seconds w3))]"
    using assms unfolding exec_into_pod_def Let_def by (auto simp: bind_st_Inr ret_def split: if_splits)
  then show ?thesis
    by (intro exI [of _ out] exI [of _ ?kw]) (auto simp: k8s_run_Inr EXEC_OUTPUT_MAX_CHARS_def)
qed

definition demo_exec_args :: dict where
  "demo_exec_args =
     [(''namespace'', JStr ''web''), (''pod_name'', JStr ''web-1''), (''command'', JList [JStr ''id'']),
      (''reason'', JStr ''check the user'')]"

lemma demo_exec_answer:
  "fst (exec_into_pod (watched demo_outside) demo_settings demo_exec_args demo_tool_state) \<in> range Inr"
  by (simp add: exec_into_pod_def demo_exec_args_def valid_command_def require_reason_def py_or_def
      py_strip_def strip_by_def py_isspace_def Let_def lift_res_def bind_st_def core_v1_api_def load_config_def
      k8s_run_def get_now_def ret_def watched_def observed_def demo_outside_def demo_tool_state_def)

theorem exec_output_capped_witness:
  "\<exists>result w'. exec_into_pod (watched demo_outside) demo_settings demo_exec_args demo_tool_state = (Inr result, w') \<and>
    (\<exists>out kw k k'. out_exec (watched demo_outside) kw (executor_timeout demo_settings) k = (K8sOk out, k') \<and>
      dict_get kw ''name'' = dict_get demo_exec_args ''pod_name'' \<and>
      dict_get kw ''command'' = dict_get demo_exec_args ''command'' \<and>
      dict_get result ''output'' = JStr (take 4000 out) \<and>
      dict_get result ''output_truncated'' = JBool (4000 < length out) \<and>
      dict_get result ''command'' = dict_get demo_exec_args ''command'')"
proof -
  obtain result where "fst (exec_into_pod (watched demo_outside) demo_settings demo_exec_args demo_tool_state) = Inr result"
    using demo_exec_answer by blast
  then have run: "exec_into_pod (watched demo_outside) demo_settings demo_exec_args demo_tool_state =
      (Inr result, snd (exec_into_pod (watched demo_outside) demo_settings demo_exec_args demo_tool_state))"
    by (metis prod.collapse)
  from exec_output_capped [OF run] run show ?thesis by blast
qed

theorem executor_errors_are_answerable_witness:
  "\<exists>t m w'. execute_tool demo_registry ''exec_into_pod'' [] demo_tool_state = (Executor_error t m, w') \<and>
    (\<exists>s. ERROR_TYPE_STATUS t = Some s \<and> s \<in> {400, 403, 404, 502, 504})"
proof -
  have run: "execute_tool demo_registry ''exec_into_pod'' [] demo_tool_state =
      (Executor_error ''validation_error'' (quoted ''namespace'' @ '' and '' @ quoted ''pod_name'' @ '' are required''), demo_tool_state)"
    by (simp add: execute_tool_def demo_registered exec_into_pod_def missing_fields_def validation_error_def Let_def)
  from executor_errors_are_answerable [OF run] run show ?thesis by blast
qed

section \<open>Behind the gateway\<close>

definition production_write :: "downstream_call \<Rightarrow> bool" where
  "production_write c =
     (case c of
        Cluster op kw t \<Rightarrow> op \<notin> set reading_ops \<and>
          (case dict_get kw ''namespace'' of JStr ns \<Rightarrow> startswith ns ''prod'' | _ \<Rightarrow> True)
      | _ \<Rightarrow> False)"

lemma infer_environment_prod:
  assumes "infer_environment args = Inr env" "truthy (dict_get args ''namespace'')"
  shows "\<exists>ns. dict_get args ''namespace'' = JStr ns \<and> (startswith ns ''prod'' \<longrightarrow> env = ''prod'')"
proof -
  have "is_str (dict_get args ''namespace'')" using assms infer_environment_raises by fastforce
  then obtain ns where "dict_get args ''namespace'' = JStr ns" by (cases "dict_get args ''namespace''") auto
  with assms(1) show ?thesis by (auto simp: infer_environment_str)
qed

lemma unheld_call_not_production:
  assumes "call_allowed S tool args c" "infer_environment args = Inr env"
    and "tool \<notin> set always_require_approval_tools" "tool \<notin> set destructive_tools \<or> env \<noteq> ''prod''"
  shows "\<not> production_write c"
proof (cases c)
  case (Cluster op kw t)
  show ?thesis
  proof
    assume "production_write c"
    with assms(1) have "op \<notin> set reading_ops" "map_of cluster_ops tool = Some op"
      and ns: "truthy (dict_get args ''namespace'')" "dict_get kw ''namespace'' = dict_get args ''namespace''"
      by (auto simp: Cluster production_write_def call_allowed_def cluster_allowed_def)
    then have "tool \<in> set destructive_tools"
      using assms(3) by (auto simp: cluster_ops_def reading_ops_def destructive_tools_def
          always_require_approval_tools_def split: if_splits)
    moreover have "env = ''prod''"
      using infer_environment_prod [OF assms(2) ns(1)] \<open>production_write c\<close> ns(2)
      by (auto simp: Cluster production_write_def)
    ultimately show False using assms(4) by blast
  qed
qed (simp_all add: production_write_def)

text \<open>
  C3: no write reaches a production namespace without a human.  With the repository's policy and
  executors, whatever a request to \<open>/mcp\<close> asks for and whatever the systems behind the tools
  answer, it makes at most three calls, and none of them is a writing cluster operation in a namespace
  that starts with \<open>prod\<close>: such a call is held for approval or refused.
\<close>

theorem no_unapproved_write_in_production:
  assumes "c_opa c = opa_authz" "c_tools c = TOOLS (watched Out) S" "app c e fi q oth req w = (x, w')"
    and "\<forall>r v. w_ext (snd (oth r v)) = w_ext v" "req_path req = ''/mcp''"
  shows "\<exists>cs. calls_of (w_ext w') = calls_of (w_ext w) @ cs \<and> length cs \<le> 3 \<and> list_all (\<lambda>c. \<not> production_write c) cs"
proof (cases "w_ext w' = w_ext w")
  case False
  obtain tool args env where ext: "w_ext w' = snd (execute_tool (TOOLS (watched Out) S) tool args (w_ext w))"
    and env: "infer_environment args = Inr env"
    and tool: "tool \<notin> set always_require_approval_tools" "tool \<notin> set destructive_tools \<or> env \<noteq> ''prod''"
    using direct_run_within_policy [OF assms(1,3,4,5) False] unfolding assms(2) by blast
  obtain f where f: "map_of (TOOLS (watched Out) S) tool = Some f"
    using False ext by (cases "map_of (TOOLS (watched Out) S) tool") (auto simp: execute_tool_def)
  have "snd (execute_tool (TOOLS (watched Out) S) tool args (w_ext w)) = snd (f args (w_ext w))"
    by (simp add: execute_tool_def f split: prod.split sum.split exn.split)
  with ext TOOLS_makes [OF f, of args "w_ext w"] unheld_call_not_production [OF _ env tool]
  show ?thesis unfolding list_all_iff by metis
qed simp

definition tool_config :: "(fake_redis, unit watched_state) config" where
  "tool_config =
     \<lparr>c_redis = FakeRedis, c_tools = demo_registry, c_opa = opa_authz, c_fr = whole_repr, c_fp = whole_read,
      c_jsonb = Some, c_secret = ''s'', c_slack_url = [], c_slack_post = (\<lambda>_. SlackOk),
      c_body = demo_body, c_validate = (\<lambda>_. Inl ''invalid'')\<rparr>"

definition tool_world :: "(fake_redis, unit watched_state) world" where
  "tool_world =
     \<lparr>w_redis = empty_fake, w_db = empty_db, w_hub = empty_hub, w_slack = [], w_metrics = [],
      w_log = [], w_ext = demo_tool_state\<rparr>"

definition tool_other :: "(fake_redis, unit watched_state) world handler" where
  "tool_other req w = (Inr (JSONResponse (JObj [(''detail'', JStr ''Not Found'')]) 404), w)"

theorem no_unapproved_write_in_production_witness:
  "\<exists>cs. calls_of (w_ext (snd (app tool_config demo_env (\<lambda>_. None) demo_query tool_other (demo_request ''x'') tool_world))) =
      calls_of (w_ext tool_world) @ cs \<and> length cs \<le> 3 \<and> list_all (\<lambda>c. \<not> production_write c) cs"
  by (rule no_unapproved_write_in_production [OF _ _ prod.collapse [symmetric]])
    (simp_all add: tool_config_def tool_other_def demo_request_def)

end
