(* ===== verification/Tool_Transparent.thy ===== *)
theory Tool_Transparent
  imports Tool_Calls
begin

text \<open>
  Watching changes nothing: in the watched world every executor gives the result it gives in the
  world itself and leaves the same state behind, so what \<open>Tool_Calls\<close> shows of the calls of a
  watched run is about the executors.  A rule per step of the executors, as for the calls.
\<close>

section \<open>Forgetting the calls\<close>

definition forget :: "'k watched_state \<Rightarrow> 'k tool_state" where
  "forget w =
     \<lparr>ts_config = ts_config w, ts_core = ts_core w, ts_apps = ts_apps w, ts_dynamic = ts_dynamic w,
      ts_out = fst (ts_out w)\<rparr>"

lemma forget_simps [simp]:
  "ts_config (forget w) = ts_config w" "ts_core (forget w) = ts_core w" "ts_apps (forget w) = ts_apps w"
  "ts_dynamic (forget w) = ts_dynamic w" "ts_out (forget w) = fst (ts_out w)"
  "forget (w\<lparr>ts_config := b\<rparr>) = (forget w)\<lparr>ts_config := b\<rparr>" "forget (w\<lparr>ts_core := b\<rparr>) = (forget w)\<lparr>ts_core := b\<rparr>"
  "forget (w\<lparr>ts_apps := b\<rparr>) = (forget w)\<lparr>ts_apps := b\<rparr>"
  "forget (w\<lparr>ts_dynamic := b\<rparr>) = (forget w)\<lparr>ts_dynamic := b\<rparr>"
  "forget (w\<lparr>ts_out := k\<rparr>) = (forget w)\<lparr>ts_out := fst k\<rparr>"
  by (simp_all add: forget_def)

lemma fst_observed [simp]:
  "fst (observed c op s) = fst (op (fst s))" "fst (snd (observed c op s)) = snd (op (fst s))"
  by (simp_all add: observed_def split_def Let_def)

section \<open>The same run\<close>

definition same_run :: "('k \<times> downstream_call list, 'a) tool_monad \<Rightarrow> ('k, 'a) tool_monad \<Rightarrow> bool" where
  "same_run p q \<longleftrightarrow> (\<forall>w. q (forget w) = (fst (p w), forget (snd (p w))))"

named_theorems same_run

lemma same_run_bind [same_run]:
  assumes "same_run p q" "\<And>a. same_run (f a) (g a)"
  shows "same_run (bind_st p f) (bind_st q g)"
  unfolding same_run_def
proof
  fix w
  show "bind_st q g (forget w) = (fst (bind_st p f w), forget (snd (bind_st p f w)))"
    using assms by (cases "p w") (simp add: same_run_def bind_st_def split: sum.split)
qed

lemma same_run_basic [same_run]:
  "same_run (ret a) (ret a)" "same_run (lift_res r) (lift_res r)" "same_run (require b e) (require b e)"
  "same_run (get_now (watched Out)) (get_now Out)" "same_run (load_config (watched Out)) (load_config Out)"
  by (simp_all add: same_run_def ret_def lift_res_def require_def get_now_def load_config_def watched_def
      split: load_reply.split)

lemma same_run_if [same_run]:
  "same_run p q \<Longrightarrow> same_run p' q' \<Longrightarrow> same_run (if b then p else p') (if b then q else q')"
  by simp

lemma same_run_json [same_run]:
  assumes "same_run a a'" "\<And>x. same_run (b x) (b' x)" "\<And>x. same_run (c x) (c' x)" "\<And>x. same_run (d x) (d' x)"
    "\<And>x. same_run (e x) (e' x)" "\<And>x. same_run (f x) (f' x)" "\<And>x. same_run (g x) (g' x)"
  shows "same_run (case_json a b c d e f g v) (case_json a' b' c' d' e' f' g' v)"
  using assms by (cases v) simp_all

lemma same_run_clients [same_run]:
  "same_run (core_v1_api (watched Out)) (core_v1_api Out)" "same_run (apps_v1_api (watched Out)) (apps_v1_api Out)"
  by (simp_all add: same_run_def core_v1_api_def apps_v1_api_def bind_st_def load_config_def watched_def
      split: load_reply.split)

lemma same_run_dynamic [same_run]: "same_run (dynamic_client (watched Out)) (dynamic_client Out)"
  by (simp add: same_run_def dynamic_client_def bind_st_def load_config_def watched_def split_def
      split: load_reply.split option.split)

lemma same_run_resource [same_run]:
  "same_run (resource_for (watched Out) S v kd) (resource_for Out S v kd)"
  unfolding resource_for_def
  by (rule same_run_bind [OF same_run_dynamic])
    (simp add: same_run_def watched_def Let_def split_def split: resource_reply.split)

lemma same_run_k8s:
  assumes "\<And>s. fst (fn (executor_timeout S) s) = fst (fn' (executor_timeout S) (fst s))"
    "\<And>s. fst (snd (fn (executor_timeout S) s)) = snd (fn' (executor_timeout S) (fst s))"
  shows "same_run (k8s_run S fn r) (k8s_run S fn' r)"
  using assms by (simp add: same_run_def k8s_run_def Let_def split_def split: k8s_reply.split)

lemma same_run_cluster [same_run]:
  "same_run (k8s_run S (out_pod_log (watched Out) kw) r) (k8s_run S (out_pod_log Out kw) r)"
  "same_run (k8s_run S (out_list_pods (watched Out) kw) r) (k8s_run S (out_list_pods Out kw) r)"
  "same_run (k8s_run S (out_read_deployment (watched Out) kw) r) (k8s_run S (out_read_deployment Out kw) r)"
  "same_run (k8s_run S (out_patch_deployment (watched Out) kw) r) (k8s_run S (out_patch_deployment Out kw) r)"
  "same_run (k8s_run S (out_patch_scale (watched Out) kw) r) (k8s_run S (out_patch_scale Out kw) r)"
  "same_run (k8s_run S (out_exec (watched Out) kw) r) (k8s_run S (out_exec Out kw) r)"
  "same_run (k8s_run S (out_apply (watched Out) v kd kw) r) (k8s_run S (out_apply Out v kd kw) r)"
  by (rule same_run_k8s; simp add: watched_def)+

lemma same_run_http [same_run]:
  "same_run (http_get (watched Out) S cl path params nf l) (http_get Out S cl path params nf l)"
  "same_run (http_post (watched Out) S cl path params hs nf l) (http_post Out S cl path params hs nf l)"
  "same_run (jenkins_crumb (watched Out) S) (jenkins_crumb Out S)"
  by (simp_all add: same_run_def http_get_def http_post_def send_request_def jenkins_crumb_def watched_def
      Let_def split_def split: http_reply.split)

section \<open>The executors\<close>

lemma same_run_cluster_tools:
  "same_run (list_pods (watched Out) S args) (list_pods Out S args)"
  "same_run (get_pod_logs (watched Out) S args) (get_pod_logs Out S args)"
  "same_run (get_deployment_status (watched Out) S args) (get_deployment_status Out S args)"
  "same_run (restart_deployment (watched Out) S args) (restart_deployment Out S args)"
  "same_run (scale_deployment (watched Out) S args) (scale_deployment Out S args)"
  "same_run (exec_into_pod (watched Out) S args) (exec_into_pod Out S args)"
  "same_run (apply_k8s_manifest (watched Out) S args) (apply_k8s_manifest Out S args)"
  unfolding list_pods_def get_pod_logs_def get_deployment_status_def restart_deployment_def
    scale_deployment_def exec_into_pod_def apply_k8s_manifest_def apply_in_def Let_def
  by (intro same_run)+

lemma same_run_terraform:
  "same_run (query_terraform_plan (watched Out) S args) (query_terraform_plan Out S args)"
proof -
  have "same_run (fetch_plan (watched Out) S i) (fetch_plan Out S i)" for i
    unfolding fetch_plan_def by (intro same_run)
  then have "same_run (latest_run (watched Out) S args ws runs) (latest_run Out S args ws runs)" for ws runs
    unfolding latest_run_def split_def by (intro same_run)
  then show ?thesis unfolding query_terraform_plan_def Let_def by (intro same_run)
qed

lemma same_run_http_tools:
  "same_run (trigger_jenkins_job (watched Out) S args) (trigger_jenkins_job Out S args)"
  "same_run (get_jenkins_job_status (watched Out) S args) (get_jenkins_job_status Out S args)"
  "same_run (read_prometheus_metrics (watched Out) S args) (read_prometheus_metrics Out S args)"
  "same_run (read_ticket (watched Out) S args) (read_ticket Out S args)"
  "same_run (open_ticket args) (open_ticket args)"
  unfolding trigger_jenkins_job_def get_jenkins_job_status_def read_prometheus_metrics_def read_ticket_def
    read_pagerduty_incident_def read_jira_issue_def open_ticket_def Let_def split_def
  by (intro same_run)+

lemma same_registry:
  "list_all2 (\<lambda>p q. fst p = fst q \<and> (\<forall>args. same_run (snd p args) (snd q args))) (TOOLS (watched Out) S) (TOOLS Out S)"
  by (simp add: TOOLS_def same_run_cluster_tools same_run_terraform same_run_http_tools)

lemma same_lookup:
  "list_all2 (\<lambda>p q. fst p = fst q \<and> (\<forall>args. same_run (snd p args) (snd q args))) ps qs \<Longrightarrow>
    rel_option (\<lambda>p q. \<forall>args. same_run (p args) (q args)) (map_of ps tool) (map_of qs tool)"
  by (induction rule: list_all2_induct) auto

text \<open>
  Watching is invisible.  A run of any tool of the registry in the watched world gives the same
  outcome as in the world itself and leaves the same state of the caches and of the outside.
\<close>

lemma watching_is_invisible:
  "execute_tool (TOOLS Out S) tool args (forget w) =
    (fst (execute_tool (TOOLS (watched Out) S) tool args w),
     forget (snd (execute_tool (TOOLS (watched Out) S) tool args w)))"
proof -
  have "rel_option (\<lambda>p q. \<forall>args. same_run (p args) (q args)) (map_of (TOOLS (watched Out) S) tool) (map_of (TOOLS Out S) tool)"
    by (rule same_lookup [OF same_registry])
  then show ?thesis
  proof (cases rule: option.rel_cases)
    case (Some p q)
    then have "q args (forget w) = (fst (p args w), forget (snd (p args w)))" by (simp add: same_run_def)
    with Some(1,2) show ?thesis
      by (cases "p args w") (auto simp: execute_tool_def split: sum.split exn.split)
  qed (simp add: execute_tool_def)
qed

end
