(* ===== verification/Policy_Gaps.thy ===== *)
theory Policy_Gaps
  imports Rego_Policy
begin

text \<open>
  Where the policy decides otherwise than \<open>docs/tool-spec.md\<close> says it does.  Each theorem takes a call
  the document blocks or holds for approval and shows that the policy lets it run at once.
\<close>

lemma context_decision:
  assumes "infer_environment (ctx_arguments ctx) = Inr env"
  shows "\<exists>doc. to_opa_input ctx = Inr doc \<and>
    authz_input_of doc = \<lparr>in_role = ctx_role ctx, in_tool = ctx_tool_name ctx,
      in_namespace = dict_get (ctx_arguments ctx) ''namespace'', in_environment = env\<rparr>"
proof -
  obtain doc where doc: "to_opa_input ctx = Inr doc"
    using assms by (auto simp: to_opa_input_def context_environment_def)
  from authz_input_of_context [OF this] assms doc show ?thesis by auto
qed

lemmas policy_tables = authz_defs data_roles_def destructive_tools_def always_require_approval_tools_def
  kube_system_blocked_tools_def

definition runs_at_once :: "ToolCallContext \<Rightarrow> bool" where
  "runs_at_once ctx \<longleftrightarrow>
     (case to_opa_input ctx of
        Inl _ \<Rightarrow> False
      | Inr doc \<Rightarrow> authz_allow (authz_input_of doc) \<and> \<not> authz_require_approval (authz_input_of doc))"

lemma runs_at_onceI:
  assumes "infer_environment (ctx_arguments ctx) = Inr env"
    and "\<And>i. i = \<lparr>in_role = ctx_role ctx, in_tool = ctx_tool_name ctx,
      in_namespace = dict_get (ctx_arguments ctx) ''namespace'', in_environment = env\<rparr> \<Longrightarrow>
      authz_allow i \<and> \<not> authz_require_approval i"
  shows "runs_at_once ctx"
  using context_decision [OF assms(1)] assms(2) by (auto simp: runs_at_once_def)

text \<open>\<open>scale_deployment\<close> is not blocked in \<open>kube-system\<close>, whatever the number of replicas.\<close>

theorem scale_in_kube_system_runs:
  assumes "ctx_role ctx = ''sre1''" "ctx_tool_name ctx = JStr ''scale_deployment''"
    and "dict_get (ctx_arguments ctx) ''namespace'' = JStr ''kube-system''"
  shows "runs_at_once ctx"
  by (rule runs_at_onceI [where env = "''unknown''"])
    (simp_all add: infer_environment_str assms startswith_def policy_tables)

text \<open>A Jenkins job is started in no namespace, so its environment is never \<open>prod\<close> and it is never held.\<close>

theorem jenkins_job_runs:
  assumes "ctx_role ctx = ''deploy-bot''" "ctx_tool_name ctx = JStr ''trigger_jenkins_job''"
    and "dict_get (ctx_arguments ctx) ''namespace'' = JNull"
  shows "runs_at_once ctx"
  by (rule runs_at_onceI [where env = "''unknown''"])
    (simp_all add: infer_environment_falsy assms policy_tables)

text \<open>A namespace named otherwise than by its environment's prefix is not recognised as production.\<close>

theorem unprefixed_restart_runs:
  assumes "ctx_role ctx = ''sre1''" "ctx_tool_name ctx = JStr ''restart_deployment''"
    and "dict_get (ctx_arguments ctx) ''namespace'' = JStr ''payments''"
  shows "runs_at_once ctx"
  by (rule runs_at_onceI [where env = "''unknown''"])
    (simp_all add: infer_environment_str assms startswith_def policy_tables)

end
