(* ===== verification/Audit_Props.thy ===== *)
theory Audit_Props
  imports Audit_Chain
begin

text \<open>The guarantees and the limits of the audit log, as properties of \<open>Audit_Log\<close>.\<close>

section \<open>A written log verifies\<close>

lemma run_writes_log_ok:
  assumes "log_ok fr fp db" "\<forall>w \<in> set ws. aw_outcome w \<noteq> RolledBack \<and> event_reads_back fr fp jsonb (aw_event w)"
    and "distinct (map aw_id ws)" "set (map aw_id ws) \<inter> au_id ` set (db_rows db) = {}"
    and "run_writes fr jsonb ws db ms = (xs, db', ms')"
  shows "log_ok fr fp db'"
  using assms
proof (induction ws arbitrary: db ms xs)
  case (Cons w ws)
  obtain x db1 ms1 where
    step: "record_tool_call fr jsonb (aw_id w) (aw_trace w) (aw_outcome w) (aw_event w) db ms = (x, db1, ms1)"
    by (metis prod_cases3)
  then obtain ys where rest: "run_writes fr jsonb ws db1 ms1 = (ys, db', ms')"
    using Cons.prems(5) by (auto split: prod.splits)
  have "log_ok fr fp db1 \<and> set (map aw_id ws) \<inter> au_id ` set (db_rows db1) = {}"
    using step
  proof (cases rule: record_tool_call_cases)
    case (appended row)
    have "log_ok fr fp db1"
      unfolding appended(5) using Cons.prems(1,2) appended(3) by (intro log_ok_append) auto
    moreover have "au_id ` set (db_rows db1) = insert (aw_id w) (au_id ` set (db_rows db))"
      using appended(5) new_row_fields(1) [OF appended(3)] by auto
    ultimately show ?thesis using Cons.prems(3,4) by auto
  next
    case (refused e)
    then show ?thesis using Cons.prems by simp
  next
    case (skipped e)
    then show ?thesis using Cons.prems(2,4) by auto
  qed
  with Cons.IH [OF _ _ _ _ rest] Cons.prems(2,3) show ?case by simp
qed simp

text \<open>
  C12: the log verifies.  Whatever events are recorded one after the other (some of them refused
  because the server was down or a column rejected the text), every page of rows of the resulting
  table passes the integrity check, provided \<open>jsonb\<close> gives values back and no insert was rolled
  back after it took a sequence number.
\<close>

theorem recorded_log_verifies:
  assumes "\<forall>w \<in> set ws. aw_outcome w \<noteq> RolledBack \<and> event_reads_back fr fp jsonb (aw_event w)"
    and "distinct (map aw_id ws)"
    and "run_writes fr jsonb ws empty_db ms = (xs, db, ms')" "set rows \<subseteq> set (db_rows db)"
  shows "verify_rows fr fp db rows = Inr (''pass'', None)"
proof -
  have "log_ok fr fp db"
    using run_writes_log_ok [OF log_ok_empty assms(1,2) _ assms(3)] by (simp add: empty_db_def)
  then show ?thesis using assms(4) by (auto simp: verify_rows_pass log_ok_def)
qed

definition demo_event :: "string \<Rightarrow> AuditEvent" where
  "demo_event decision =
     \<lparr>ae_agent_id = ''agent01'', ae_role = ''sre1'', ae_tool_name = ''list_pods'',
      ae_arguments = [(''namespace'', JStr ''dev'')], ae_decision = decision, ae_reason = None,
      ae_result = None, ae_approval_id = None, ae_duration_ms = Some 5, ae_timestamp = 0\<rparr>"

definition demo_writes :: "audit_write list" where
  "demo_writes =
     [\<lparr>aw_id = ''a'', aw_trace = None, aw_outcome = Commits, aw_event = demo_event ''allowed''\<rparr>,
      \<lparr>aw_id = ''b'', aw_trace = None, aw_outcome = Unreachable, aw_event = demo_event ''denied''\<rparr>,
      \<lparr>aw_id = ''c'', aw_trace = None, aw_outcome = Commits, aw_event = demo_event ''denied''\<rparr>]"

lemma demo_reads_back: "event_reads_back whole_repr whole_read Some (demo_event d)"
proof -
  have "json_loads whole_read (json_dumps whole_repr False (JObj [(''namespace'', JStr ''dev'')])) =
      Some (JObj [(''namespace'', JStr ''dev'')])"
    by (rule json_round_trip) simp
  then show ?thesis
    by (simp add: event_reads_back_def reads_back_def demo_event_def del: json_dumps.simps)
qed

theorem recorded_log_verifies_witness:
  "verify_rows whole_repr whole_read (fst (snd (run_writes whole_repr Some demo_writes empty_db [])))
     (db_rows (fst (snd (run_writes whole_repr Some demo_writes empty_db [])))) = Inr (''pass'', None)"
proof -
  obtain xs db ms' where run: "run_writes whole_repr Some demo_writes empty_db [] = (xs, db, ms')"
    by (metis prod_cases3)
  have "\<forall>w \<in> set demo_writes. aw_outcome w \<noteq> RolledBack \<and> event_reads_back whole_repr whole_read Some (aw_event w)"
    "distinct (map aw_id demo_writes)"
    by (auto simp: demo_writes_def demo_reads_back)
  from recorded_log_verifies [OF this run subset_refl] show ?thesis by (simp add: run)
qed

section \<open>Tamper evidence\<close>

lemma complete_head:
  "complete db \<Longrightarrow>
   chain_head GENESIS_HASH (chain_of fr fp db) = (case last_row_hash db of None \<Rightarrow> GENESIS_HASH | Some h \<Rightarrow> h)"
  by (cases "db_rows db" rule: rev_cases) (simp_all add: complete_last_hash chain_of_def)

text \<open>
  C14: the newest hash commits to the whole log.  Two complete tables that both pass the check over
  all their rows and end in the same \<open>row_hash\<close> have the same hashed content in every row
  (identifier, agent, tool, arguments, result and time), unless SHA-256 has failed: two of the very
  strings hashed for them collide, or one of them hashes to the genesis value.
\<close>

theorem newest_hash_commits:
  assumes "complete db" "complete db'"
    and "verify_rows fr fp db (db_rows db) = Inr (''pass'', None)"
    and "verify_rows fr fp db' (db_rows db') = Inr (''pass'', None)"
    and "last_row_hash db = last_row_hash db'"
  shows "map (row_bytes fr fp) (db_rows db) = map (row_bytes fr fp) (db_rows db') \<or>
    collision_between sha256_hexdigest (payloads GENESIS_HASH (chain_of fr fp db))
      (payloads GENESIS_HASH (chain_of fr fp db')) \<or>
    preimage_among sha256_hexdigest GENESIS_HASH
      (payloads GENESIS_HASH (chain_of fr fp db) @ payloads GENESIS_HASH (chain_of fr fp db'))"
proof -
  have ok: "decodes fr fp db" "chain_valid sha256_hexdigest GENESIS_HASH (chain_of fr fp db)"
    "decodes fr fp db'" "chain_valid sha256_hexdigest GENESIS_HASH (chain_of fr fp db')"
    using assms(3,4) by (simp_all add: verify_complete assms(1,2))
  have "map (row_bytes fr fp) (db_rows x) = map Inr (map fst (chain_of fr fp x))" if "decodes fr fp x" for x
    using that by (auto simp: decodes_def chain_of_def)
  moreover have "chain_head GENESIS_HASH (chain_of fr fp db) = chain_head GENESIS_HASH (chain_of fr fp db')"
    using assms(1,2,5) by (simp add: complete_head)
  ultimately show ?thesis using sha_chain.same_head [OF ok(2,4)] ok(1,3) by metis
qed

theorem newest_hash_commits_witness:
  "let db = fst (snd (run_writes whole_repr Some demo_writes empty_db [])) in
   map (row_bytes whole_repr whole_read) (db_rows db) = map (row_bytes whole_repr whole_read) (db_rows db) \<or>
    collision_between sha256_hexdigest (payloads GENESIS_HASH (chain_of whole_repr whole_read db))
      (payloads GENESIS_HASH (chain_of whole_repr whole_read db)) \<or>
    preimage_among sha256_hexdigest GENESIS_HASH
      (payloads GENESIS_HASH (chain_of whole_repr whole_read db) @ payloads GENESIS_HASH (chain_of whole_repr whole_read db))"
proof -
  obtain xs db ms' where run: "run_writes whole_repr Some demo_writes empty_db [] = (xs, db, ms')"
    by (metis prod_cases3)
  have "\<forall>w \<in> set demo_writes. aw_outcome w \<noteq> RolledBack \<and> event_reads_back whole_repr whole_read Some (aw_event w)"
    "distinct (map aw_id demo_writes)"
    by (auto simp: demo_writes_def demo_reads_back)
  then have "log_ok whole_repr whole_read db"
    using run_writes_log_ok [OF log_ok_empty _ _ _ run] by (simp add: empty_db_def)
  then have "complete db" "verify_rows whole_repr whole_read db (db_rows db) = Inr (''pass'', None)"
    by (simp_all add: log_ok_def verify_rows_pass)
  from newest_hash_commits [OF this(1,1,2,2) refl] show ?thesis unfolding run Let_def by simp
qed

section \<open>What a failed check says\<close>

lemma sorted_split_least:
  assumes "sorted (map f xs)" "xs = good @ r # rest" "x \<in> set xs" "x \<notin> set good"
  shows "f r \<le> f x"
  using assms by (auto simp: sorted_append)

text \<open>
  C27: the reported sequence number is the first broken row.  When every row's columns decode, the
  check of a page either passes, and then every row of the page matches its true predecessor, or
  reports the least sequence number among the rows that do not.
\<close>

theorem first_broken_is_least:
  assumes "verify_rows fr fp db rows = Inr (st, broken)"
  shows "(st = ''pass'' \<and> broken = None \<and> (\<forall>r \<in> set rows. check_row fr fp db r = Inr True)) \<or>
    (\<exists>r \<in> set rows. st = ''fail'' \<and> broken = Some (au_seq r) \<and> check_row fr fp db r = Inr False \<and>
       (\<forall>x \<in> set rows. check_row fr fp db x \<noteq> Inr True \<longrightarrow> au_seq r \<le> au_seq x))"
proof (cases broken)
  case None
  with assms have "(st, broken) = (''pass'', None)"
    using verify_sorted_cases [of fr fp db "sort_key au_seq rows"] by (auto simp: verify_rows_def)
  with assms show ?thesis using verify_rows_pass [of fr fp db rows] by simp
next
  case (Some s)
  with assms have st: "st = ''fail''"
    using verify_sorted_cases [of fr fp db "sort_key au_seq rows"] by (auto simp: verify_rows_def)
  obtain good r rest where r: "sort_key au_seq rows = good @ r # rest" "au_seq r = s"
    "check_row fr fp db r = Inr False" "\<forall>g \<in> set good. check_row fr fp db g = Inr True"
    using verify_sorted_fail assms Some unfolding verify_rows_def by blast
  have set: "set rows = set (good @ r # rest)" using r(1) by (metis set_sort)
  have "au_seq r \<le> au_seq x" if "x \<in> set rows" "check_row fr fp db x \<noteq> Inr True" for x
    using sorted_split_least [OF sorted_sort_key r(1), of x] r(4) that by auto
  with set st Some r show ?thesis by auto
qed

definition demo_orphan :: audit_row where
  "demo_orphan =
     \<lparr>au_seq = 2, au_id = ''x'', au_agent_id = [], au_role = [], au_tool_name = [], au_args = ''{}'',
      au_policy_decision = None, au_approval_id = None, au_result_status = [], au_result_summary = None,
      au_duration_ms = None, au_otel_trace_id = None, au_row_hash = [], au_created_at = 0\<rparr>"

theorem first_broken_is_least_witness:
  "\<exists>r \<in> set [demo_orphan]. au_seq r = 2 \<and> check_row whole_repr whole_read empty_db r = Inr False"
proof -
  have "verify_rows whole_repr whole_read empty_db [demo_orphan] = Inr (''fail'', Some 2)"
    by (simp add: verify_rows_def check_row_def row_hash_at_def empty_db_def demo_orphan_def)
  from first_broken_is_least [OF this] show ?thesis by auto
qed

section \<open>Limits of the scheme\<close>

text \<open>
  A rolled-back insert breaks the chain for good.  The sequence number it took is not given
  back, so the next row, written by the module itself and untouched, has no predecessor at
  \<open>seq - 1\<close>, and every check of a page with that row fails.
\<close>

theorem rolled_back_insert_false_alarm:
  assumes "log_ok fr fp db"
    and "record_tool_call fr jsonb i tr RolledBack ev db ms = (Inl e, db1, ms1)" "db1 \<noteq> db"
    and "record_tool_call fr jsonb j tr' Commits ev' db1 ms1 = (Inr (), db2, ms2)"
  shows "\<exists>row. db_rows db2 = db_rows db @ [row] \<and>
    verify_rows fr fp db2 [row] = Inr (''fail'', Some (au_seq row))"
proof -
  have db1: "db1 = db\<lparr>db_next_seq := db_next_seq db + 1\<rparr>"
    using assms(2) by (cases rule: record_tool_call_cases) (use assms(3) in auto)
  from assms(4) obtain row where row: "new_row fr jsonb j tr' ev' db1 = Some row"
    "db2 = db1\<lparr>db_next_seq := db_next_seq db1 + 1, db_rows := db_rows db1 @ [row]\<rparr>"
    by (cases rule: record_tool_call_cases) auto
  have seq: "au_seq row = int (length (db_rows db)) + 2"
    using new_row_fields(2) [OF row(1)] assms(1) by (simp add: db1 log_ok_def)
  have "au_seq r \<noteq> au_seq row - 1" if "r \<in> set (db_rows db @ [row])" for r
  proof (cases "r = row")
    case False
    with that obtain k where "r = db_rows db ! k" "k < length (db_rows db)" by (auto simp: in_set_conv_nth)
    then show ?thesis using complete_nth [of db k] assms(1) seq by (simp add: log_ok_def)
  qed simp
  then have "row_hash_at db2 (au_seq row - 1) = None"
    by (auto simp: row_hash_at_def row(2) db1 find_None_iff)
  then have "check_row fr fp db2 row = Inr False" using seq by (simp add: check_row_def Let_def)
  then show ?thesis by (simp add: row(2) db1 verify_rows_def)
qed

theorem rolled_back_insert_false_alarm_witness:
  "\<exists>db2 row. db_rows db2 = [row] \<and>
     verify_rows whole_repr whole_read db2 [row] = Inr (''fail'', Some (au_seq row))"
proof -
  let ?ev = "demo_event ''allowed''"
  let ?db1 = "empty_db\<lparr>db_next_seq := 2\<rparr>"
  have one: "record_tool_call whole_repr Some ''a'' None RolledBack ?ev empty_db [] =
      (Inl (db_error ''transaction failed''), ?db1, [])"
    by (simp add: record_tool_call_def insert_event_def new_row_def chained_row_def prev_hash_of_def demo_event_def Let_def empty_db_def)
  obtain db2 ms2 where two: "record_tool_call whole_repr Some ''b'' None Commits ?ev ?db1 [] = (Inr (), db2, ms2)"
    by (simp add: record_tool_call_def insert_event_def new_row_def chained_row_def prev_hash_of_def demo_event_def Let_def empty_db_def)
  have "?db1 \<noteq> empty_db" by (simp add: empty_db_def)
  from rolled_back_insert_false_alarm [where fp = whole_read, OF log_ok_empty one this two]
  have "\<exists>row. db_rows db2 = [row] \<and>
      verify_rows whole_repr whole_read db2 [row] = Inr (''fail'', Some (au_seq row))"
    by (simp add: empty_db_def)
  then show ?thesis by blast
qed

definition rewrite_unhashed ::
  "string \<Rightarrow> string option \<Rightarrow> string \<Rightarrow> string option \<Rightarrow> int option \<Rightarrow> string option \<Rightarrow> audit_row \<Rightarrow> audit_row" where
  "rewrite_unhashed role pd status appr dur tr row =
     row\<lparr>au_role := role, au_policy_decision := pd, au_result_status := status,
         au_approval_id := appr, au_duration_ms := dur, au_otel_trace_id := tr\<rparr>"

text \<open>
  Six columns are outside the hash.  Role, policy decision, result status, approval id,
  duration and trace id can be rewritten in every row and the check of every row gives the same
  answer: a denied call can be made to read as allowed.
\<close>

theorem unhashed_columns_unprotected:
  "check_row fr fp (db\<lparr>db_rows := map (rewrite_unhashed role pd status appr dur tr) (db_rows db)\<rparr>)
     (rewrite_unhashed role pd status appr dur tr row) = check_row fr fp db row"
proof -
  have "find (\<lambda>r. au_seq r = s) (map (rewrite_unhashed role pd status appr dur tr) rows) =
      map_option (rewrite_unhashed role pd status appr dur tr) (find (\<lambda>r. au_seq r = s) rows)" for s rows
    by (induction rows) (simp_all add: rewrite_unhashed_def)
  then have "row_hash_at (db\<lparr>db_rows := map (rewrite_unhashed role pd status appr dur tr) (db_rows db)\<rparr>) s = row_hash_at db s" for s
    by (simp add: row_hash_at_def option.map_comp comp_def rewrite_unhashed_def)
  moreover have "expected_hash fr fp p (rewrite_unhashed role pd status appr dur tr row) = expected_hash fr fp p row" for p
    by (simp add: expected_hash_def rewrite_unhashed_def)
  moreover have "au_seq (rewrite_unhashed role pd status appr dur tr row) = au_seq row"
    "au_row_hash (rewrite_unhashed role pd status appr dur tr row) = au_row_hash row"
    by (simp_all add: rewrite_unhashed_def)
  ultimately show ?thesis by (simp add: check_row_def split: option.split)
qed

text \<open>
  The fields run together.  The hash covers the agent id and the tool name only as one
  string, so moving characters across their border changes both and no hash.
\<close>

theorem field_border_unprotected:
  "row_hash fr prev i (agent @ x) tool args result stamp =
   row_hash fr prev i agent (x @ tool) args result stamp"
  by (simp add: row_hash_def row_content_def)

text \<open>
  A missing tail is not noticed.  Deleting the newest rows of a log leaves a table whose every
  row still passes: the check never asks whether the last row is the last one written.
\<close>

theorem truncated_log_still_verifies:
  assumes "log_ok fr fp db"
  shows "verify_rows fr fp (db\<lparr>db_rows := take n (db_rows db)\<rparr>) (take n (db_rows db)) = Inr (''pass'', None)"
proof -
  let ?db = "db\<lparr>db_rows := take n (db_rows db)\<rparr>"
  have compl: "complete db" using assms by (simp add: log_ok_def)
  have "map au_seq (take n (db_rows db)) = take n (map int [1..<Suc (length (db_rows db))])"
    using compl unfolding complete_def by (metis take_map)
  then have cut: "complete ?db"
    unfolding complete_def by (simp add: take_map take_upt min_def del: upt_Suc)
  have pass: "verify_rows fr fp db (db_rows db) = Inr (''pass'', None)"
    using assms by (simp add: verify_rows_pass log_ok_def)
  have "chain_of fr fp ?db = take n (chain_of fr fp db)"
    by (simp add: chain_of_def take_map)
  moreover have "chain_valid sha256_hexdigest GENESIS_HASH (take n (chain_of fr fp db) @ drop n (chain_of fr fp db))"
    using pass verify_complete [OF compl, of fr fp] by simp
  ultimately have "chain_valid sha256_hexdigest GENESIS_HASH (chain_of fr fp ?db)"
    unfolding chain_valid_append by simp
  moreover have "decodes fr fp ?db"
    using pass verify_complete [OF compl, of fr fp] by (auto simp: decodes_def dest: in_set_takeD)
  ultimately show ?thesis using verify_complete [OF cut, of fr fp] by simp
qed

theorem truncated_log_still_verifies_witness:
  "verify_rows whole_repr whole_read (empty_db\<lparr>db_rows := take 1 (db_rows empty_db)\<rparr>) (take 1 (db_rows empty_db))
     = Inr (''pass'', None)"
  by (rule truncated_log_still_verifies [OF log_ok_empty])

section \<open>Filters and pages\<close>

definition present :: "string option \<Rightarrow> bool" where
  "present x = (case x of None \<Rightarrow> False | Some s \<Rightarrow> s \<noteq> [])"

definition text_params :: "string option \<Rightarrow> sql_param list" where
  "text_params x = (if present x then [ParamText (the x)] else [])"

definition time_params :: "int option \<Rightarrow> sql_param list" where
  "time_params x = (case x of None \<Rightarrow> [] | Some t \<Rightarrow> [ParamTime t])"

lemma filter_conditions_eq:
  "filter_conditions a t from to s =
    (let n1 = length (text_params a); n2 = n1 + length (text_params t); n3 = n2 + length (text_params s);
         n4 = n3 + length (time_params from) in
     ((if present a then [ColumnEq ''agent_id'' 1] else [])
        @ (if present t then [ColumnEq ''tool_name'' (n1 + 1)] else [])
        @ (if present s then [ColumnEq ''result_status'' (n2 + 1)] else [])
        @ (if from = None then [] else [CreatedFrom (n3 + 1)])
        @ (if to = None then [] else [CreatedTo (n4 + 1)]),
      text_params a @ text_params t @ text_params s @ time_params from @ time_params to))"
  by (cases a; cases t; cases s; cases "from"; cases to)
    (simp_all add: filter_conditions_def add_text_filter_def add_time_filter_def present_def
      text_params_def time_params_def)

text \<open>The filters that are given, each with its comparison and its value.\<close>

definition given_filters ::
  "string option \<Rightarrow> string option \<Rightarrow> int option \<Rightarrow> int option \<Rightarrow> string option \<Rightarrow> (string \<times> sql_param) list" where
  "given_filters a t from to s =
     map (Pair ''agent_id = '') (text_params a) @ map (Pair ''tool_name = '') (text_params t) @
     map (Pair ''result_status = '') (text_params s) @ map (Pair ''created_at >= '') (time_params from) @
     map (Pair ''created_at <= '') (time_params to)"

lemma build_filters_given:
  "build_filters a t from to s =
    (if given_filters a t from to s = [] then []
     else ''WHERE '' @ join '' AND ''
       (map (\<lambda>(n, c, _). c @ ''$'' @ string_of_nat n) (enumerate 1 (given_filters a t from to s))),
     map snd (given_filters a t from to s))"
  by (cases "present a"; cases "present t"; cases "present s"; cases "from"; cases to)
    (simp_all add: build_filters_def filter_conditions_eq given_filters_def text_params_def time_params_def)

text \<open>
  C23: filters cannot inject SQL.  The clause sent to the server is the same for any two queries
  that set the same filters, whatever their values are.  It compares the column of each filter given
  with \<open>$1\<close>, \<open>$2\<close>, and so on, in this order, and the values travel as parameters in the same order:
  the parameter numbered \<open>n\<close> is the value of the filter whose condition says \<open>$n\<close>.
\<close>

theorem build_filters_no_injection:
  assumes "present a = present a'" "present t = present t'" "present s = present s'"
    and "(from = None) = (from' = None)" "(to = None) = (to' = None)"
  shows "fst (build_filters a t from to s) = fst (build_filters a' t' from' to' s') \<and>
    build_filters a t from to s =
      (if given_filters a t from to s = [] then []
       else ''WHERE '' @ join '' AND ''
         (map (\<lambda>(n, c, _). c @ ''$'' @ string_of_nat n) (enumerate 1 (given_filters a t from to s))),
       map snd (given_filters a t from to s))"
proof -
  have tx: "length (text_params x) = length (text_params y)" if "present x = present y" for x y
    using that by (simp add: text_params_def)
  have tm: "length (time_params x) = length (time_params y)" if "(x = None) = (y = None)" for x y
    using that by (cases x; cases y) (simp_all add: time_params_def)
  have "fst (filter_conditions a t from to s) = fst (filter_conditions a' t' from' to' s')"
    unfolding filter_conditions_eq Let_def fst_conv tx [OF assms(1)] tx [OF assms(2)] tx [OF assms(3)]
      tm [OF assms(4)] assms by (rule refl)
  then have "fst (build_filters a t from to s) = fst (build_filters a' t' from' to' s')"
    by (simp add: build_filters_def split_beta)
  with build_filters_given show ?thesis by blast
qed

theorem build_filters_no_injection_witness:
  "fst (build_filters (Some ''agent01'') None (Some 0) None None) =
   fst (build_filters (Some (''x'' @ [CHR 0x27] @ ''; DROP TABLE audit_log; --'')) None (Some 5) None None) \<and>
   build_filters (Some ''agent01'') None (Some 0) None None =
     (''WHERE agent_id = $1 AND created_at >= $2'', [ParamText ''agent01'', ParamTime 0])"
proof -
  have "string_of_nat (Suc 0) = ''1''" "string_of_nat (Suc (Suc 0)) = ''2''" by code_simp+
  then have "build_filters (Some ''agent01'') None (Some 0) None None =
     (''WHERE agent_id = $1 AND created_at >= $2'', [ParamText ''agent01'', ParamTime 0])"
    using build_filters_no_injection [of "Some ''agent01''" "Some ''agent01''" None None None None "Some 0" "Some 0" None None]
    by (simp add: present_def given_filters_def text_params_def time_params_def)
  moreover have "fst (build_filters (Some ''agent01'') None (Some 0) None None) =
      fst (build_filters (Some (''x'' @ [CHR 0x27] @ ''; DROP TABLE audit_log; --'')) None (Some 5) None None)"
    by (rule conjunct1 [OF build_filters_no_injection]) (simp_all add: present_def)
  ultimately show ?thesis by blast
qed

text \<open>The specification of a filtered query, row by row.\<close>

definition text_matches :: "string option \<Rightarrow> string \<Rightarrow> bool" where
  "text_matches x col = (present x \<longrightarrow> col = the x)"

definition row_matches ::
  "string option \<Rightarrow> string option \<Rightarrow> int option \<Rightarrow> int option \<Rightarrow> string option \<Rightarrow> audit_row \<Rightarrow> bool" where
  "row_matches a t from to s row \<longleftrightarrow>
     text_matches a (au_agent_id row) \<and> text_matches t (au_tool_name row) \<and>
     text_matches s (au_result_status row) \<and>
     (case from of None \<Rightarrow> True | Some x \<Rightarrow> x \<le> au_created_at row) \<and>
     (case to of None \<Rightarrow> True | Some x \<Rightarrow> au_created_at row \<le> x)"

text \<open>
  C22: the numbered clause selects what the query asked for.  Evaluating the conditions against
  their parameters picks, in order of \<open>seq\<close>, exactly the rows that match every filter given.
\<close>

theorem select_rows_exact:
  "select_rows a t from to s db = filter (row_matches a t from to s) (sort_key au_seq (db_rows db))"
proof -
  have "list_all (condition_holds (snd (filter_conditions a t from to s)) row) (fst (filter_conditions a t from to s))
      = row_matches a t from to s row" for row
    by (cases "present a"; cases "present t"; cases "present s"; cases "from"; cases to)
      (auto simp: filter_conditions_eq row_matches_def text_matches_def text_params_def time_params_def
        column_text_def nth_append Let_def)
  then show ?thesis by (simp add: select_rows_def split_beta)
qed

text \<open>
  C33: what a page is.  Whatever limit and offset the caller sends, a query returns at most 500
  rows, all of them rows of the table that match, newest first, with the number of all matches;
  the verdict is that of the check over this page, and a failed one is counted once.
\<close>

theorem query_page:
  assumes "query_audit_log fr fp a t from to s limit offset db ms = (Inr p, ms')"
  shows "length (page_rows p) \<le> 500 \<and> set (page_rows p) \<subseteq> set (db_rows db) \<and>
    list_all (row_matches a t from to s) (page_rows p) \<and>
    sorted (rev (map au_seq (page_rows p))) \<and>
    page_total p = length (filter (row_matches a t from to s) (db_rows db)) \<and>
    verify_rows fr fp db (page_rows p) = Inr (page_integrity p, page_first_broken p) \<and>
    ms' = ms @ (if page_integrity p = ''fail'' then [audit_chain_integrity_failures_total] else [])"
proof -
  let ?sel = "filter (row_matches a t from to s) (sort_key au_seq (db_rows db))"
  let ?page = "take (nat (max 1 (min limit MAX_QUERY_LIMIT))) (drop (nat (max 0 offset)) (rev ?sel))"
  have p: "page_rows p = ?page" "page_total p = length ?sel"
    "verify_rows fr fp db ?page = Inr (page_integrity p, page_first_broken p)"
    "ms' = ms @ (if page_integrity p = ''fail'' then [audit_chain_integrity_failures_total] else [])"
    using assms by (auto simp: query_audit_log_def Let_def select_rows_exact split: sum.splits if_splits)
  have "nat (max 1 (min limit MAX_QUERY_LIMIT)) \<le> 500" by (simp add: MAX_QUERY_LIMIT_def)
  then have "length ?page \<le> 500" by (simp add: min_le_iff_disj)
  moreover have sub: "set ?page \<subseteq> set ?sel" 
    using set_take_subset set_drop_subset by (metis (no_types, lifting) order_trans set_rev)
  moreover have "sorted (rev (map au_seq ?page))"
  proof -
    have "sorted (map au_seq ?sel)" by (simp add: sorted_filter)
    then have "sorted_wrt (\<ge>) (rev (map au_seq ?sel))" unfolding sorted_wrt_rev by simp
    then have "sorted_wrt (\<ge>) (take n (drop k (rev (map au_seq ?sel))))" for n k
      by (intro sorted_wrt_take sorted_wrt_drop)
    then have "sorted_wrt (\<ge>) (map au_seq ?page)" by (simp only: take_map drop_map rev_map)
    then show ?thesis by (simp add: sorted_wrt_rev)
  qed
  moreover have "length ?sel = length (filter (row_matches a t from to s) (db_rows db))"
    by (metis filter_sort length_sort)
  moreover have "set (page_rows p) \<subseteq> set (db_rows db)" "list_all (row_matches a t from to s) (page_rows p)"
    using sub unfolding p(1) list_all_iff by auto
  ultimately show ?thesis unfolding p(1,2,4) using p(3) by metis
qed

theorem query_page_witness:
  "\<exists>p. query_audit_log whole_repr whole_read None None None None None 1000 (-5) empty_db [] = (Inr p, []) \<and>
     length (page_rows p) \<le> 500 \<and> page_total p = 0"
proof -
  have run: "query_audit_log whole_repr whole_read None None None None None 1000 (-5) empty_db [] =
      (Inr \<lparr>page_total = 0, page_rows = [], page_integrity = ''pass'', page_first_broken = None\<rparr>, [])"
    by (simp add: query_audit_log_def select_rows_exact empty_db_def verify_rows_def Let_def)
  from query_page [OF this] run show ?thesis by simp
qed

end
