(* ===== verification/Audit_Writers.thy ===== *)
theory Audit_Writers
  imports Audit_Props
begin

text \<open>
  Overlapping calls of \<open>record_tool_call\<close>.  Every write runs in a transaction of its own: it waits
  for the advisory lock, reads the newest hash, inserts its row and commits or is rolled back; only
  committed rows are seen by the others, the lock is released when the transaction ends, and a
  sequence value once taken is never given back.  The steps of the writers interleave freely.
\<close>

section \<open>The writers\<close>

datatype phase =
    Waiting                      \<comment> \<open>before \<open>pg_advisory_xact_lock\<close>\<close>
  | Locked
  | Chaining string              \<comment> \<open>the previous hash, read under the lock\<close>
  | Inserted audit_row           \<comment> \<open>not committed yet\<close>
  | Finished "unit result"

record writers =
  ws_db :: audit_db
  ws_lock :: "nat option"
  ws_phase :: "nat \<Rightarrow> phase"

definition writers_start :: "audit_db \<Rightarrow> writers" where
  "writers_start db = \<lparr>ws_db = db, ws_lock = None, ws_phase = \<lambda>_. Waiting\<rparr>"

definition finish :: "nat \<Rightarrow> unit result \<Rightarrow> audit_db \<Rightarrow> writers \<Rightarrow> writers" where
  "finish i x db s = \<lparr>ws_db = db, ws_lock = None, ws_phase = (ws_phase s)(i := Finished x)\<rparr>"

definition move :: "nat \<Rightarrow> phase \<Rightarrow> writers \<Rightarrow> writers" where
  "move i p s = s\<lparr>ws_phase := (ws_phase s)(i := p)\<rparr>"

text \<open>
  The next step of writer \<open>i\<close>, or nothing while it has to wait for the lock or is finished.  A writer
  whose server is unreachable fails without a transaction, and one whose connection is lost under
  the lock fails before it has inserted anything.
\<close>

definition writer_turn ::
  "(rat \<Rightarrow> string) \<Rightarrow> (string \<Rightarrow> string option) \<Rightarrow> audit_write \<Rightarrow> nat \<Rightarrow> writers \<Rightarrow> writers option" where
  "writer_turn fr jsonb j i s =
     (let db = ws_db s in
      case ws_phase s i of
        Waiting \<Rightarrow>
          if aw_outcome j = Unreachable
          then Some (move i (Finished (Inl (db_error ''connection failed''))) s)
          else if ws_lock s = None then Some ((move i Locked s)\<lparr>ws_lock := Some i\<rparr>)
          else None
      | Locked \<Rightarrow>
          Some (if aw_outcome j = Interrupted then finish i (Inl (db_error ''connection failed'')) db s
                else move i (Chaining (prev_hash_of db)) s)
      | Chaining prev_hash \<Rightarrow>
          Some (case chained_row fr jsonb (aw_id j) (aw_trace j) (aw_event j) (db_next_seq db) prev_hash of
                  None \<Rightarrow> finish i (Inl (db_error ''invalid input syntax for type json'')) db s
                | Some row \<Rightarrow>
                    (let db1 = db\<lparr>db_next_seq := db_next_seq db + 1\<rparr> in
                     if aw_id j \<in> au_id ` set (db_rows db)
                     then finish i (Inl (db_error ''transaction failed'')) db1 s
                     else (move i (Inserted row) s)\<lparr>ws_db := db1\<rparr>))
      | Inserted row \<Rightarrow>
          Some (if aw_outcome j = Commits
                then finish i (Inr ()) (db\<lparr>db_rows := db_rows db @ [row]\<rparr>) s
                else finish i (Inl (db_error ''transaction failed'')) db s)
      | Finished x \<Rightarrow> None)"

inductive writer_step ::
  "(rat \<Rightarrow> string) \<Rightarrow> (string \<Rightarrow> string option) \<Rightarrow> audit_write list \<Rightarrow> writers \<Rightarrow> writers \<Rightarrow> bool"
  for fr jsonb jobs where
  turn: "i < length jobs \<Longrightarrow> writer_turn fr jsonb (jobs ! i) i s = Some s' \<Longrightarrow> writer_step fr jsonb jobs s s'"

inductive_cases writer_stepE: "writer_step fr jsonb jobs s s'"

lemma writer_turn_cases:
  assumes "writer_turn fr jsonb j i s = Some s'"
  obtains (unreachable) "ws_phase s i = Waiting" "aw_outcome j = Unreachable"
      "s' = move i (Finished (Inl (db_error ''connection failed''))) s"
  | (lock) "ws_phase s i = Waiting" "aw_outcome j \<noteq> Unreachable" "ws_lock s = None"
      "s' = (move i Locked s)\<lparr>ws_lock := Some i\<rparr>"
  | (lost) "ws_phase s i = Locked" "aw_outcome j = Interrupted"
      "s' = finish i (Inl (db_error ''connection failed'')) (ws_db s) s"
  | (read) "ws_phase s i = Locked" "aw_outcome j \<noteq> Interrupted" "s' = move i (Chaining (prev_hash_of (ws_db s))) s"
  | (reject) p where "ws_phase s i = Chaining p"
      "chained_row fr jsonb (aw_id j) (aw_trace j) (aw_event j) (db_next_seq (ws_db s)) p = None"
      "s' = finish i (Inl (db_error ''invalid input syntax for type json'')) (ws_db s) s"
  | (dup) p row where "ws_phase s i = Chaining p" "aw_id j \<in> au_id ` set (db_rows (ws_db s))"
      "chained_row fr jsonb (aw_id j) (aw_trace j) (aw_event j) (db_next_seq (ws_db s)) p = Some row"
      "s' = finish i (Inl (db_error ''transaction failed'')) ((ws_db s)\<lparr>db_next_seq := db_next_seq (ws_db s) + 1\<rparr>) s"
  | (insert) p row where "ws_phase s i = Chaining p" "aw_id j \<notin> au_id ` set (db_rows (ws_db s))"
      "chained_row fr jsonb (aw_id j) (aw_trace j) (aw_event j) (db_next_seq (ws_db s)) p = Some row"
      "s' = (move i (Inserted row) s)\<lparr>ws_db := (ws_db s)\<lparr>db_next_seq := db_next_seq (ws_db s) + 1\<rparr>\<rparr>"
  | (commit) row where "ws_phase s i = Inserted row" "aw_outcome j = Commits"
      "s' = finish i (Inr ()) ((ws_db s)\<lparr>db_rows := db_rows (ws_db s) @ [row]\<rparr>) s"
  | (rollback) row where "ws_phase s i = Inserted row" "aw_outcome j \<noteq> Commits"
      "s' = finish i (Inl (db_error ''transaction failed'')) (ws_db s) s"
  using assms
  by (auto simp: writer_turn_def Let_def split: phase.splits if_splits option.splits)

lemma phase_simps [simp]:
  "ws_phase (move i p s) k = (if k = i then p else ws_phase s k)" "ws_lock (move i p s) = ws_lock s"
  "ws_db (move i p s) = ws_db s" "ws_phase (finish i x db s) k = (if k = i then Finished x else ws_phase s k)"
  "ws_lock (finish i x db s) = None" "ws_db (finish i x db s) = db"
  by (simp_all add: move_def finish_def)

section \<open>Mutual exclusion\<close>

definition inside :: "phase \<Rightarrow> bool" where
  "inside p \<longleftrightarrow> (case p of Waiting \<Rightarrow> False | Finished _ \<Rightarrow> False | _ \<Rightarrow> True)"

lemma inside_simps [simp]: "\<not> inside Waiting" "inside Locked" "inside (Chaining p)" "inside (Inserted row)"
  "\<not> inside (Finished x)"
  by (simp_all add: inside_def)

text \<open>The lock is held exactly by the writer inside; what it read is still the newest hash.\<close>

definition exclusive :: "writers \<Rightarrow> bool" where
  "exclusive s \<longleftrightarrow> (\<forall>i. inside (ws_phase s i) \<longleftrightarrow> ws_lock s = Some i)"

lemma exclusive_holder: "exclusive s \<Longrightarrow> inside (ws_phase s i) \<Longrightarrow> ws_lock s = Some i"
  by (simp add: exclusive_def)

lemma exclusive_others: "exclusive s \<Longrightarrow> inside (ws_phase s i) \<Longrightarrow> k \<noteq> i \<Longrightarrow> \<not> inside (ws_phase s k)"
  by (simp add: exclusive_def)

lemma exclusive_free: "exclusive s \<Longrightarrow> ws_lock s = None \<Longrightarrow> \<not> inside (ws_phase s k)"
  by (simp add: exclusive_def)

lemma exclusive_finish:
  assumes "exclusive s" "inside (ws_phase s i)"
  shows "exclusive (finish i x db s)"
  using exclusive_others [OF assms] by (simp add: exclusive_def)

lemma exclusive_move:
  assumes "exclusive s" "inside (ws_phase s i)" "inside p"
  shows "exclusive (move i p s)" "exclusive ((move i p s)\<lparr>ws_db := db\<rparr>)"
  using exclusive_others [OF assms(1,2)] exclusive_holder [OF assms(1,2)] assms(3) by (simp_all add: exclusive_def)

lemma exclusive_turn:
  assumes "exclusive s" "writer_turn fr jsonb j i s = Some s'"
  shows "exclusive s'"
  using assms(2)
proof (cases rule: writer_turn_cases)
  case unreachable
  have "ws_lock s \<noteq> Some i" using assms(1) unreachable(1) unfolding exclusive_def by (metis inside_simps(1))
  with assms(1) unreachable show ?thesis by (auto simp: exclusive_def)
next
  case lock
  then show ?thesis using exclusive_free [OF assms(1)] by (simp add: exclusive_def)
qed (simp_all add: exclusive_finish exclusive_move assms(1))

section \<open>The writes in the order they end\<close>

lemma run_writes_snoc:
  assumes "run_writes fr jsonb ws db ms = (xs, db1, ms1)"
    and "record_tool_call fr jsonb (aw_id w) (aw_trace w) (aw_outcome w) (aw_event w) db1 ms1 = (x, db2, ms2)"
  shows "run_writes fr jsonb (ws @ [w]) db ms = (xs @ [x], db2, ms2)"
  using assms by (induction ws arbitrary: db ms xs) (auto split: prod.splits)

text \<open>The table without the sequence value of a row that is inserted and not committed.\<close>

definition settled :: "writers \<Rightarrow> audit_db" where
  "settled s =
     (case ws_lock s of
        Some i \<Rightarrow>
          (case ws_phase s i of
             Inserted row \<Rightarrow> (ws_db s)\<lparr>db_next_seq := db_next_seq (ws_db s) - 1\<rparr>
           | _ \<Rightarrow> ws_db s)
      | None \<Rightarrow> ws_db s)"

definition outcome_of :: "writers \<Rightarrow> nat \<Rightarrow> unit result" where
  "outcome_of s i = (case ws_phase s i of Finished x \<Rightarrow> x | _ \<Rightarrow> Inr ())"

definition ended :: "writers \<Rightarrow> nat set" where
  "ended s = {i. \<exists>x. ws_phase s i = Finished x}"

text \<open>What the writer inside has read and written fits the settled table.\<close>

definition fits ::
  "(rat \<Rightarrow> string) \<Rightarrow> (string \<Rightarrow> string option) \<Rightarrow> audit_write \<Rightarrow> writers \<Rightarrow> phase \<Rightarrow> bool" where
  "fits fr jsonb j s p \<longleftrightarrow>
     (case p of
        Locked \<Rightarrow> aw_outcome j \<noteq> Unreachable
      | Chaining h \<Rightarrow> aw_outcome j \<notin> {Unreachable, Interrupted} \<and> h = prev_hash_of (ws_db s)
      | Inserted row \<Rightarrow> aw_outcome j \<notin> {Unreachable, Interrupted} \<and> aw_id j \<notin> au_id ` set (db_rows (ws_db s)) \<and>
          new_row fr jsonb (aw_id j) (aw_trace j) (aw_event j) (settled s) = Some row
      | _ \<Rightarrow> True)"

definition faithful ::
  "(rat \<Rightarrow> string) \<Rightarrow> (string \<Rightarrow> string option) \<Rightarrow> audit_write list \<Rightarrow> writers \<Rightarrow> bool" where
  "faithful fr jsonb jobs s \<longleftrightarrow> (\<forall>i. fits fr jsonb (jobs ! i) s (ws_phase s i))"

lemma fits_outside: "\<not> inside p \<Longrightarrow> fits fr jsonb j s p"
  by (cases p) (simp_all add: fits_def)

lemma fits_same:
  "ws_db s' = ws_db s \<Longrightarrow> settled s' = settled s \<Longrightarrow> fits fr jsonb j s' p = fits fr jsonb j s p"
  by (cases p) (simp_all add: fits_def)

text \<open>Only the writer inside is bound.\<close>

lemma faithfulI:
  assumes "\<And>k. k \<noteq> i \<Longrightarrow> \<not> inside (ws_phase s k)" "fits fr jsonb (jobs ! i) s (ws_phase s i)"
  shows "faithful fr jsonb jobs s"
  unfolding faithful_def
proof
  fix k
  show "fits fr jsonb (jobs ! k) s (ws_phase s k)"
    using assms by (cases "k = i") (auto intro: fits_outside)
qed

definition serial ::
  "(rat \<Rightarrow> string) \<Rightarrow> (string \<Rightarrow> string option) \<Rightarrow> audit_write list \<Rightarrow> audit_db \<Rightarrow> nat list \<Rightarrow> writers \<Rightarrow> bool" where
  "serial fr jsonb jobs db order s \<longleftrightarrow>
     distinct order \<and> set order = ended s \<and> ended s \<subseteq> {..<length jobs} \<and>
     (\<exists>ms. run_writes fr jsonb (map ((!) jobs) order) db [] = (map (outcome_of s) order, settled s, ms))"

lemma prev_hash_of_seq [simp]: "prev_hash_of (db\<lparr>db_next_seq := n\<rparr>) = prev_hash_of db"
  by (simp add: prev_hash_of_def last_row_hash_def)

text \<open>A step that ends no writer keeps the order; one that does appends the writer to it.\<close>

lemma serial_same:
  assumes "serial fr jsonb jobs db order s" "settled s' = settled s" "ended s' = ended s"
    and "\<And>i. i \<in> ended s \<Longrightarrow> ws_phase s' i = ws_phase s i"
  shows "serial fr jsonb jobs db order s'"
proof -
  have "map (outcome_of s') order = map (outcome_of s) order"
    using assms(1,4) by (auto simp: serial_def outcome_of_def)
  with assms(1-3) show ?thesis unfolding serial_def by metis
qed

lemma serial_ends:
  assumes "serial fr jsonb jobs db order s" "i < length jobs" "i \<notin> ended s"
    and ins: "insert_event fr jsonb (aw_id (jobs ! i)) (aw_trace (jobs ! i)) (aw_outcome (jobs ! i))
      (aw_event (jobs ! i)) (settled s) = (x, settled s')"
    and "ws_phase s' i = Finished x" "\<And>k. k \<noteq> i \<Longrightarrow> ws_phase s' k = ws_phase s k"
  shows "serial fr jsonb jobs db (order @ [i]) s'"
proof -
  obtain ms where run: "run_writes fr jsonb (map ((!) jobs) order) db [] = (map (outcome_of s) order, settled s, ms)"
    and order: "distinct order" "set order = ended s" "ended s \<subseteq> {..<length jobs}"
    using assms(1) by (auto simp: serial_def)
  have "\<exists>ms'. record_tool_call fr jsonb (aw_id (jobs ! i)) (aw_trace (jobs ! i)) (aw_outcome (jobs ! i))
      (aw_event (jobs ! i)) (settled s) ms = (x, settled s', ms')"
    by (cases x) (auto simp: record_tool_call_def ins)
  then obtain ms' where "run_writes fr jsonb (map ((!) jobs) (order @ [i])) db [] =
      (map (outcome_of s) order @ [x], settled s', ms')"
    using run_writes_snoc [OF run] by fastforce
  moreover have "map (outcome_of s') order = map (outcome_of s) order"
  proof (rule map_cong [OF refl])
    fix k assume "k \<in> set order"
    then have "k \<noteq> i" using order(2) assms(3) by blast
    then show "outcome_of s' k = outcome_of s k" by (simp add: outcome_of_def assms(6))
  qed
  moreover have "outcome_of s' i = x" by (simp add: outcome_of_def assms(5))
  moreover have "ended s' = insert i (ended s)"
  proof (rule set_eqI)
    fix k show "k \<in> ended s' \<longleftrightarrow> k \<in> insert i (ended s)"
      using assms(5,6) by (cases "k = i") (simp_all add: ended_def)
  qed
  ultimately show ?thesis using order assms(2,3) by (auto simp: serial_def)
qed

lemma writer_turn_others:
  assumes "writer_turn fr jsonb j i s = Some s'" "k \<noteq> i"
  shows "ws_phase s' k = ws_phase s k"
  using assms(1) by (cases rule: writer_turn_cases) (use assms(2) in simp_all)

lemma settled_free: "ws_lock s = None \<Longrightarrow> settled s = ws_db s"
  by (simp add: settled_def)

lemma settled_inside:
  "exclusive s \<Longrightarrow> ws_phase s i = Locked \<Longrightarrow> settled s = ws_db s"
  "exclusive s \<Longrightarrow> ws_phase s i = Chaining p \<Longrightarrow> settled s = ws_db s"
  "exclusive s \<Longrightarrow> ws_phase s i = Inserted row \<Longrightarrow>
    settled s = (ws_db s)\<lparr>db_next_seq := db_next_seq (ws_db s) - 1\<rparr>"
  using exclusive_holder [of s i] by (simp_all add: settled_def)

lemma settled_finish [simp]: "settled (finish i x db s) = db"
  by (simp add: settled_def)

lemma ended_iff [simp]: "i \<in> ended s \<longleftrightarrow> (\<exists>x. ws_phase s i = Finished x)"
  by (simp add: ended_def)

lemma ended_move: "ws_phase s i \<notin> range Finished \<Longrightarrow> p \<notin> range Finished \<Longrightarrow> ended (move i p s) = ended s"
  by (auto simp: ended_def)

text \<open>The state every run keeps.\<close>

definition writers_inv ::
  "(rat \<Rightarrow> string) \<Rightarrow> (string \<Rightarrow> string option) \<Rightarrow> audit_write list \<Rightarrow> audit_db \<Rightarrow> writers \<Rightarrow> bool" where
  "writers_inv fr jsonb jobs db s \<longleftrightarrow>
     exclusive s \<and> (\<forall>i. length jobs \<le> i \<longrightarrow> ws_phase s i = Waiting) \<and> faithful fr jsonb jobs s \<and>
     (\<exists>order. serial fr jsonb jobs db order s)"

lemma writers_inv_start: "writers_inv fr jsonb jobs db (writers_start db)"
  by (simp add: writers_inv_def writers_start_def exclusive_def faithful_def fits_def serial_def ended_def settled_def)

lemma writers_inv_turn:
  assumes "writers_inv fr jsonb jobs db s" "i < length jobs" "writer_turn fr jsonb (jobs ! i) i s = Some s'"
  shows "writers_inv fr jsonb jobs db s'"
proof -
  obtain order where ex: "exclusive s" and fa: "faithful fr jsonb jobs s" and se: "serial fr jsonb jobs db order s"
    using assms(1) by (auto simp: writers_inv_def)
  have ex': "exclusive s'" by (rule exclusive_turn [OF ex assms(3)])
  have "\<And>k. length jobs \<le> k \<Longrightarrow> ws_phase s k = Waiting" using assms(1) by (simp add: writers_inv_def)
  then have idle: "\<And>k. length jobs \<le> k \<Longrightarrow> ws_phase s' k = Waiting"
    using assms(2) writer_turn_others [OF assms(3)] by simp
  have fit: "fits fr jsonb (jobs ! i) s (ws_phase s i)" using fa by (simp add: faithful_def)
  have others: "\<not> inside (ws_phase s k)" if "inside (ws_phase s i)" "k \<noteq> i" for k
    using exclusive_others [OF ex that] .
  have ends: "\<exists>order. serial fr jsonb jobs db order (finish i x db' s)"
    if "i \<notin> ended s" "insert_event fr jsonb (aw_id (jobs ! i)) (aw_trace (jobs ! i)) (aw_outcome (jobs ! i))
      (aw_event (jobs ! i)) (settled s) = (x, db')" for x db'
    using serial_ends [OF se assms(2) that(1), of x "finish i x db' s"] that(2) by auto
  have fin: "faithful fr jsonb jobs (finish i x db' s)" if "inside (ws_phase s i)" for x db'
    by (rule faithfulI [of i]) (use others [OF that] in \<open>simp_all add: fits_def\<close>)
  have "faithful fr jsonb jobs s' \<and> (\<exists>order. serial fr jsonb jobs db order s')"
    using assms(3)
  proof (cases rule: writer_turn_cases)
    case unreachable
    have "ws_lock s \<noteq> Some i" using ex unreachable(1) unfolding exclusive_def by (metis inside_simps(1))
    then have st: "settled s' = settled s" using unreachable
      by (auto simp: settled_def split: option.split phase.split)
    have "faithful fr jsonb jobs s'"
      unfolding faithful_def
    proof
      fix k
      have "fits fr jsonb (jobs ! k) s' (ws_phase s k)"
        using fa fits_same [OF _ st] unreachable(3) by (simp add: faithful_def)
      then show "fits fr jsonb (jobs ! k) s' (ws_phase s' k)"
        using unreachable(3) by (cases "k = i") (simp_all add: fits_outside)
    qed
    moreover have "serial fr jsonb jobs db (order @ [i]) s'"
      by (rule serial_ends [OF se assms(2)]) (use unreachable st in \<open>simp_all add: insert_event_def\<close>)
    ultimately show ?thesis by blast
  next
    case lock
    have "faithful fr jsonb jobs s'"
      by (rule faithfulI [of i]) (use lock exclusive_free [OF ex] in \<open>auto simp: fits_def\<close>)
    moreover have "serial fr jsonb jobs db order s'"
      by (rule serial_same [OF se]) (use lock in \<open>auto simp: settled_def ended_def\<close>)
    ultimately show ?thesis by blast
  next
    case lost
    then show ?thesis
      using fit fin ends [of "Inl (db_error ''connection failed'')" "ws_db s"] settled_inside(1) [OF ex]
      by (simp add: insert_event_def)
  next
    case read
    have "faithful fr jsonb jobs s'"
      by (rule faithfulI [of i]) (use read others fit in \<open>auto simp: fits_def\<close>)
    moreover have "serial fr jsonb jobs db order s'"
      by (rule serial_same [OF se])
        (use read settled_inside [OF ex] exclusive_holder [OF ex, of i] in \<open>auto simp: settled_def ended_def\<close>)
    ultimately show ?thesis by blast
  next
    case (reject p)
    have "new_row fr jsonb (aw_id (jobs ! i)) (aw_trace (jobs ! i)) (aw_event (jobs ! i)) (settled s) = None"
      using reject fit settled_inside(2) [OF ex] by (simp add: new_row_def fits_def)
    then show ?thesis
      using reject fit fin ends [of "Inl (db_error ''invalid input syntax for type json'')" "ws_db s"] settled_inside(2) [OF ex]
      by (simp add: insert_event_def fits_def)
  next
    case (dup p row)
    have "new_row fr jsonb (aw_id (jobs ! i)) (aw_trace (jobs ! i)) (aw_event (jobs ! i)) (settled s) = Some row"
      using dup fit settled_inside(2) [OF ex] by (simp add: new_row_def fits_def)
    then show ?thesis
      using dup fit fin ends settled_inside(2) [OF ex]
      by (simp add: insert_event_def fits_def Let_def)
  next
    case (insert p row)
    have st: "settled s' = ws_db s" using insert exclusive_holder [OF ex, of i] by (simp add: settled_def)
    have rows: "db_rows (ws_db s') = db_rows (ws_db s)" by (simp add: insert(4))
    have "fits fr jsonb (jobs ! i) s' (Inserted row)"
      using insert(1-3) fit by (simp add: fits_def st rows new_row_def)
    then have "faithful fr jsonb jobs s'"
      by (intro faithfulI [of i]) (use insert others in simp_all)
    moreover have "settled s' = settled s" using st settled_inside(2) [OF ex insert(1)] by simp
    then have "serial fr jsonb jobs db order s'"
      by (rule serial_same [OF se]) (use insert in \<open>auto simp: ended_def\<close>)
    ultimately show ?thesis by blast
  next
    case (commit row)
    then show ?thesis
      using fit fin ends settled_inside(3) [OF ex] by (simp add: insert_event_def fits_def Let_def)
  next
    case (rollback row)
    then have "aw_outcome (jobs ! i) = RolledBack" using fit by (cases "aw_outcome (jobs ! i)") (simp_all add: fits_def)
    then show ?thesis
      using rollback fit fin ends settled_inside(3) [OF ex] by (simp add: insert_event_def fits_def Let_def)
  qed
  with ex' idle show ?thesis by (simp add: writers_inv_def)
qed

lemma writers_inv_reachable:
  "(writer_step fr jsonb jobs)\<^sup>*\<^sup>* (writers_start db) s \<Longrightarrow> writers_inv fr jsonb jobs db s"
  by (induction rule: rtranclp_induct) (auto intro: writers_inv_start writers_inv_turn elim: writer_stepE)

text \<open>
  C10: overlapping writes are as if made one after the other.  Whatever the interleaving of the
  transactions, when all have ended there is an order of the writes in which the sequential model
  gives the same table and the same result to every caller.
\<close>

theorem overlapping_writes_serialise:
  assumes "(writer_step fr jsonb jobs)\<^sup>*\<^sup>* (writers_start db) s"
    and "{..<length jobs} \<subseteq> ended s"
  shows "\<exists>order ms. distinct order \<and> set order = {..<length jobs} \<and>
    run_writes fr jsonb (map ((!) jobs) order) db [] = (map (outcome_of s) order, ws_db s, ms)"
proof -
  have inv: "writers_inv fr jsonb jobs db s" by (rule writers_inv_reachable [OF assms(1)])
  then obtain order where ex: "exclusive s" and se: "serial fr jsonb jobs db order s"
    by (auto simp: writers_inv_def)
  have all: "ended s = {..<length jobs}" using se assms(2) by (simp add: serial_def subset_antisym)
  have "\<not> inside (ws_phase s i)" for i
  proof (cases "i < length jobs")
    case True
    then have "i \<in> ended s" using assms(2) by blast
    then show ?thesis by auto
  qed (use inv in \<open>simp add: writers_inv_def\<close>)
  then have "ws_lock s = None" using ex by (cases "ws_lock s") (auto simp: exclusive_def)
  then show ?thesis using se all by (auto simp: serial_def settled_free)
qed

text \<open>
  C11: overlapping writes never break the chain.  In every state that overlapping writes can reach,
  finished or not, the integrity check passes over any page of the committed rows, provided
  \<open>jsonb\<close> gives values back and no insert is rolled back after it took a sequence value.
\<close>

theorem overlapping_writes_verify:
  assumes "(writer_step fr jsonb jobs)\<^sup>*\<^sup>* (writers_start empty_db) s"
    and "\<forall>j \<in> set jobs. aw_outcome j \<noteq> RolledBack \<and> event_reads_back fr fp jsonb (aw_event j)"
    and "distinct (map aw_id jobs)" "set rows \<subseteq> set (db_rows (ws_db s))"
  shows "verify_rows fr fp (ws_db s) rows = Inr (''pass'', None)"
proof -
  obtain order ms where order: "distinct order" "set order \<subseteq> {..<length jobs}"
    and run: "run_writes fr jsonb (map ((!) jobs) order) empty_db [] = (map (outcome_of s) order, settled s, ms)"
    using writers_inv_reachable [OF assms(1)] by (auto simp: writers_inv_def serial_def)
  have "inj_on ((!) (map aw_id jobs)) (set order)"
    by (rule inj_on_nth [OF assms(3)]) (use order(2) in auto)
  then have "distinct (map ((!) (map aw_id jobs)) order)" using order(1) by (simp add: distinct_map)
  moreover have "map ((!) (map aw_id jobs)) order = map aw_id (map ((!) jobs) order)" using order(2) by auto
  ultimately have "distinct (map aw_id (map ((!) jobs) order))" by metis
  moreover have "\<forall>w \<in> set (map ((!) jobs) order). aw_outcome w \<noteq> RolledBack \<and> event_reads_back fr fp jsonb (aw_event w)"
    using assms(2) order(2) by auto
  ultimately have "log_ok fr fp (settled s)"
    using run_writes_log_ok [OF log_ok_empty _ _ _ run] by (simp add: empty_db_def)
  moreover have rows: "db_rows (settled s) = db_rows (ws_db s)"
    by (auto simp: settled_def split: option.split phase.split)
  moreover have "check_row fr fp (settled s) r = check_row fr fp (ws_db s) r" for r
    by (simp add: check_row_def row_hash_at_def rows)
  ultimately show ?thesis using assms(4) by (auto simp: verify_rows_pass log_ok_def)
qed

section \<open>Termination\<close>

fun steps_left :: "phase \<Rightarrow> nat" where
  "steps_left Waiting = 4"
| "steps_left Locked = 3"
| "steps_left (Chaining h) = 2"
| "steps_left (Inserted row) = 1"
| "steps_left (Finished x) = 0"

definition work :: "nat \<Rightarrow> writers \<Rightarrow> nat" where
  "work n s = (\<Sum>i<n. steps_left (ws_phase s i))"

lemma writer_turn_decreases:
  assumes "writer_turn fr jsonb j i s = Some s'"
  shows "steps_left (ws_phase s' i) < steps_left (ws_phase s i)"
  using assms by (cases rule: writer_turn_cases) simp_all

lemma writer_step_decreases:
  assumes "writer_step fr jsonb jobs s s'"
  shows "work (length jobs) s' < work (length jobs) s"
  using assms
proof (cases rule: writer_step.cases)
  case (turn i)
  show ?thesis
    unfolding work_def
  proof (rule sum_strict_mono_ex1)
    show "\<forall>k \<in> {..<length jobs}. steps_left (ws_phase s' k) \<le> steps_left (ws_phase s k)"
      using writer_turn_decreases [OF turn(2)] writer_turn_others [OF turn(2)] by (metis le_refl less_imp_le)
    show "\<exists>k \<in> {..<length jobs}. steps_left (ws_phase s' k) < steps_left (ws_phase s k)"
      using writer_turn_decreases [OF turn(2)] turn(1) by blast
  qed simp
qed

lemma writer_steps_bounded:
  "(writer_step fr jsonb jobs ^^ k) s s' \<Longrightarrow> k + work (length jobs) s' \<le> work (length jobs) s"
  by (induction k arbitrary: s') (auto dest: writer_step_decreases, fastforce dest: writer_step_decreases)

text \<open>Some writer can move while one is not finished: the one inside, or else any that waits.\<close>

lemma writer_progress:
  assumes "writers_inv fr jsonb jobs db s" "i < length jobs" "ws_phase s i \<notin> range Finished"
  shows "\<exists>s'. writer_step fr jsonb jobs s s'"
proof -
  obtain k where k: "k < length jobs" "ws_lock s = None \<and> ws_phase s k = Waiting \<or> inside (ws_phase s k)"
  proof (cases "ws_lock s")
    case None
    then have "ws_phase s i = Waiting"
      using exclusive_free [of s i] assms by (cases "ws_phase s i") (auto simp: writers_inv_def)
    with None assms(2) that show thesis by blast
  next
    case (Some k)
    then have "inside (ws_phase s k)" using assms(1) by (simp add: writers_inv_def exclusive_def)
    moreover have "k < length jobs"
      using assms(1) calculation unfolding writers_inv_def by (metis inside_simps(1) leI)
    ultimately show thesis using that by blast
  qed
  then have "writer_turn fr jsonb (jobs ! k) k s \<noteq> None"
    by (cases "ws_phase s k") (auto simp: writer_turn_def Let_def)
  with k(1) show ?thesis by (auto intro: writer_step.turn)
qed

text \<open>
  C25: every write comes to an end.  Any interleaving of the transactions has at most four steps per
  write, and as long as one of them has not ended some step is possible: the advisory lock never
  leaves them waiting for each other.
\<close>

theorem overlapping_writes_end:
  assumes "(writer_step fr jsonb jobs ^^ k) (writers_start db) s"
  shows "k \<le> 4 * length jobs \<and>
    ((\<exists>s'. writer_step fr jsonb jobs s s') \<or> {..<length jobs} \<subseteq> ended s)"
proof -
  have "work (length jobs) (writers_start db) = 4 * length jobs"
    by (simp add: work_def writers_start_def)
  then have "k \<le> 4 * length jobs" using writer_steps_bounded [OF assms] by simp
  moreover have "writers_inv fr jsonb jobs db s"
    using assms by (intro writers_inv_reachable relpowp_imp_rtranclp)
  ultimately show ?thesis using writer_progress [of fr jsonb jobs db s] by (fastforce simp: image_iff)
qed

section \<open>Two overlapping writes\<close>

text \<open>Both requests are under way at once; the second waits for the lock of the first.\<close>

definition demo_jobs :: "audit_write list" where
  "demo_jobs =
     [\<lparr>aw_id = ''a'', aw_trace = None, aw_outcome = Commits, aw_event = demo_event ''allowed''\<rparr>,
      \<lparr>aw_id = ''b'', aw_trace = None, aw_outcome = Unreachable, aw_event = demo_event ''denied''\<rparr>]"

definition turns :: "nat list \<Rightarrow> writers \<Rightarrow> writers" where
  "turns sched s = fold (\<lambda>i s. case writer_turn whole_repr Some (demo_jobs ! i) i s of None \<Rightarrow> s | Some s' \<Rightarrow> s') sched s"

lemma turns_reachable:
  "set sched \<subseteq> {..<length demo_jobs} \<Longrightarrow> (writer_step whole_repr Some demo_jobs)\<^sup>*\<^sup>* s (turns sched s)"
proof (induction sched arbitrary: s)
  case (Cons i sched)
  have "(writer_step whole_repr Some demo_jobs)\<^sup>*\<^sup>* s (turns [i] s)"
    using Cons.prems by (auto simp: turns_def split: option.split intro!: r_into_rtranclp writer_step.turn)
  moreover have "turns (i # sched) s = turns sched (turns [i] s)" by (simp add: turns_def)
  ultimately show ?case using Cons.IH [of "turns [i] s"] Cons.prems by (metis rtranclp_trans insert_subset list.simps(15))
qed (simp add: turns_def)

definition demo_final :: writers where
  "demo_final = turns [0, 1, 0, 1, 0, 0] (writers_start empty_db)"

lemma demo_final_reachable: "(writer_step whole_repr Some demo_jobs)\<^sup>*\<^sup>* (writers_start empty_db) demo_final"
  unfolding demo_final_def by (rule turns_reachable) (auto simp: demo_jobs_def)

lemma demo_final_ended: "ws_phase demo_final 0 \<in> range Finished \<and> ws_phase demo_final (Suc 0) \<in> range Finished"
  by (simp add: demo_final_def turns_def writers_start_def writer_turn_def demo_jobs_def chained_row_def
      demo_event_def Let_def empty_db_def)

theorem overlapping_writes_serialise_witness:
  "\<exists>order ms. distinct order \<and> set order = {..<length demo_jobs} \<and>
    run_writes whole_repr Some (map ((!) demo_jobs) order) empty_db [] =
      (map (outcome_of demo_final) order, ws_db demo_final, ms)"
  by (rule overlapping_writes_serialise [OF demo_final_reachable])
    (use demo_final_ended in \<open>auto simp: demo_jobs_def less_Suc_eq\<close>)

theorem overlapping_writes_verify_witness:
  "verify_rows whole_repr whole_read (ws_db demo_final) (db_rows (ws_db demo_final)) = Inr (''pass'', None)"
  by (rule overlapping_writes_verify [OF demo_final_reachable])
    (auto simp: demo_jobs_def demo_reads_back)

theorem overlapping_writes_end_witness:
  "\<exists>k. (writer_step whole_repr Some demo_jobs ^^ k) (writers_start empty_db) demo_final \<and>
    k \<le> 4 * length demo_jobs \<and>
    ((\<exists>s'. writer_step whole_repr Some demo_jobs demo_final s') \<or> {..<length demo_jobs} \<subseteq> ended demo_final)"
proof -
  obtain k where "(writer_step whole_repr Some demo_jobs ^^ k) (writers_start empty_db) demo_final"
    using rtranclp_imp_relpowp [OF demo_final_reachable] by blast
  with overlapping_writes_end [OF this] show ?thesis by blast
qed

end
