(* ===== verification/Audit_Export.thy ===== *)
theory Audit_Export
  imports Audit_Props
begin

text \<open>
  \<open>scripts/export_audit_to_s3.py\<close>: the daily job that collects the previous UTC day of the audit
  log as NDJSON and uploads it.  The environment variable, the clock, the table and the bucket's
  answer are arguments; the uploaded objects are the state.
\<close>

section \<open>The job\<close>

definition prior_utc_day :: "int \<Rightarrow> int \<times> int" where
  "prior_utc_day now = (let today_midnight = midnight now in (today_midnight - DAY_MICROS, today_midnight))"

definition newline :: string where
  "newline = [CHR 0x0A]"

definition collect_ndjson ::
  "(rat \<Rightarrow> string) \<Rightarrow> (string \<Rightarrow> rat) \<Rightarrow> audit_db \<Rightarrow> int \<Rightarrow> int \<Rightarrow> string result" where
  "collect_ndjson fr fp db from to =
     (case export_audit_log fp from to db of
        (_, Some e) \<Rightarrow> Inl e
      | (rows, None) \<Rightarrow>
          (let lines = map (json_dumps fr False) rows
           in Inr (join newline lines @ (if lines = [] then [] else newline))))"

record s3_object =
  s3_bucket :: string
  s3_key :: string
  s3_body :: string

definition export_main ::
  "(rat \<Rightarrow> string) \<Rightarrow> (string \<Rightarrow> rat) \<Rightarrow> string option \<Rightarrow> int \<Rightarrow> audit_db \<Rightarrow> (s3_object \<Rightarrow> string option)
     \<Rightarrow> s3_object list \<Rightarrow> unit result \<times> s3_object list" where
  "export_main fr fp bucket now db put objs =
     (case bucket of
        None \<Rightarrow> (Inl (PyError KeyError (quoted ''S3_BUCKET'')), objs)
      | Some b \<Rightarrow>
          (let (from, to) = prior_utc_day now in
           case collect_ndjson fr fp db from to of
             Inl e \<Rightarrow> (Inl e, objs)
           | Inr body \<Rightarrow>
               if body = [] then (Inr (), objs)
               else (let obj = \<lparr>s3_bucket = b, s3_key = ''audit-log/'' @ isodate from @ ''.ndjson'',
                                s3_body = utf8 body\<rparr> in
                     (case put obj of
                        Some m \<Rightarrow> (Inl (PyError OtherError m), objs)
                      | None \<Rightarrow> (Inr (), objs @ [obj])))))"

section \<open>The text of an export\<close>

lemma yield_rows_ok:
  "yield_rows fp rows = (vs, None) \<Longrightarrow> map (row_to_json fp) rows = map Inr vs"
proof (induction rows arbitrary: vs)
  case (Cons row rows)
  then show ?case
    by (cases "row_to_json fp row"; cases "yield_rows fp rows") (auto simp: apfst_def map_prod_def)
qed simp

lemma split_join_newline:
  "xs \<noteq> [] \<Longrightarrow> \<forall>x \<in> set xs. CHR 0x0A \<notin> set x \<Longrightarrow> split_on CHR 0x0A (join newline xs @ newline) = xs @ [[]]"
proof (induction xs)
  case (Cons x xs)
  have line: "split_on c (y @ c # rest) = y # split_on c rest" if "c \<notin> set y" for c :: char and y rest
    using that by (induction y) auto
  show ?case
  proof (cases "xs = []")
    case True
    with Cons.prems line [of "CHR 0x0A" x "[]"] show ?thesis by (simp add: newline_def)
  next
    case False
    with Cons line [of "CHR 0x0A" x] show ?thesis by (simp add: join_Cons newline_def)
  qed
qed simp

text \<open>
  C34: one line per row.  An export that succeeds holds exactly the rows whose time lies in the
  range, in order of \<open>seq\<close>, each printed as JSON on a line of its own: cutting the text at its
  line breaks gives the rows back, so the number of line breaks is the number of rows.
\<close>

theorem export_one_line_per_row:
  assumes "collect_ndjson fr fp db from to = Inr body" "\<And>r. printable (fr r)"
  shows "\<exists>vs. map (row_to_json fp) (export_rows from to db) = map Inr vs \<and>
    (body = [] \<longleftrightarrow> export_rows from to db = []) \<and>
    split_on CHR 0x0A body = map (json_dumps fr False) vs @ [[]]"
proof -
  obtain vs where vs: "yield_rows fp (export_rows from to db) = (vs, None)"
    "body = join newline (map (json_dumps fr False) vs) @ (if vs = [] then [] else newline)"
  proof -
    obtain vs e where y: "yield_rows fp (export_rows from to db) = (vs, e)" by fastforce
    with assms(1) have "e = None" by (cases e) (simp_all add: collect_ndjson_def export_audit_log_def)
    with y assms(1) show thesis
      by (intro that [of vs]) (simp_all add: collect_ndjson_def export_audit_log_def Let_def split: if_splits)
  qed
  have rows: "map (row_to_json fp) (export_rows from to db) = map Inr vs"
    by (rule yield_rows_ok [OF vs(1)])
  then have len: "length (export_rows from to db) = length vs" by (metis length_map)
  have no_nl: "CHR 0x0A \<notin> set (json_dumps fr False v)" for v
    by (rule printable_no_newline [OF printable_json_dumps [OF assms(2)]])
  have "(body = [] \<longleftrightarrow> vs = []) \<and> split_on CHR 0x0A body = map (json_dumps fr False) vs @ [[]]"
  proof (cases "vs = []")
    case True
    then show ?thesis by (simp add: vs(2))
  next
    case False
    then have "body \<noteq> []" by (simp add: vs(2) newline_def)
    moreover have "split_on CHR 0x0A (join newline (map (json_dumps fr False) vs) @ newline) =
        map (json_dumps fr False) vs @ [[]]"
      by (rule split_join_newline) (use False no_nl in auto)
    ultimately show ?thesis using False by (simp add: vs(2))
  qed
  moreover have "vs = [] \<longleftrightarrow> export_rows from to db = []" using len by auto
  ultimately show ?thesis using rows by blast
qed

text \<open>
  Consecutive exports overlap.  The day is meant as \<open>[start, end)\<close>, but the query takes its
  upper end too: a row written exactly at midnight is in the export of the day that ends then and
  in the export of the day that starts then.
\<close>

theorem midnight_row_exported_twice:
  assumes "row \<in> set (db_rows db)" "au_created_at row = midnight now"
  shows "row \<in> set (case prior_utc_day now of (a, b) \<Rightarrow> export_rows a b db) \<and>
    row \<in> set (case prior_utc_day (now + DAY_MICROS) of (a, b) \<Rightarrow> export_rows a b db)"
  using assms by (simp add: prior_utc_day_def export_rows_def midnight_def DAY_MICROS_def Let_def)

text \<open>
  C24: no row is missed.  A row written at any time is in the export of the following day's run,
  whenever on that day the job runs.
\<close>

theorem every_row_exported:
  assumes "row \<in> set (db_rows db)" "midnight (au_created_at row) + DAY_MICROS \<le> now"
    and "now < midnight (au_created_at row) + 2 * DAY_MICROS"
  shows "row \<in> set (case prior_utc_day now of (a, b) \<Rightarrow> export_rows a b db)"
proof -
  let ?t = "au_created_at row"
  have "midnight now = midnight ?t + DAY_MICROS"
  proof -
    have "midnight now = (?t div DAY_MICROS + 1) * DAY_MICROS"
      using assms(2,3) by (intro midnight_unique) (simp_all add: midnight_eq algebra_simps)
    then show ?thesis by (simp add: midnight_eq algebra_simps)
  qed
  then show ?thesis
    using assms(1) midnight_bounds [of ?t] by (simp add: prior_utc_day_def export_rows_def Let_def)
qed

text \<open>A table with one row, written at midnight of 1970-01-02.\<close>

definition demo_table :: audit_db where
  "demo_table =
     \<lparr>db_rows = [demo_orphan\<lparr>au_seq := 1, au_created_at := DAY_MICROS\<rparr>], db_next_seq = 2\<rparr>"

lemma demo_table_row:
  "demo_orphan\<lparr>au_seq := 1, au_created_at := DAY_MICROS\<rparr> \<in> set (db_rows demo_table)"
  by (simp add: demo_table_def)

theorem export_one_line_per_row_witness:
  "\<exists>body vs. collect_ndjson (\<lambda>_. ''1.0'') whole_read demo_table 0 DAY_MICROS = Inr body \<and>
    length vs = 1 \<and> split_on CHR 0x0A body = map (json_dumps (\<lambda>_. ''1.0'') False) vs @ [[]]"
proof -
  have loads: "json_loads whole_read ''{}'' = Some (JObj [])" by code_simp
  have rows: "export_rows 0 DAY_MICROS demo_table = [demo_orphan\<lparr>au_seq := 1, au_created_at := DAY_MICROS\<rparr>]"
    by (simp add: export_rows_def demo_table_def DAY_MICROS_def)
  obtain v where "row_to_json whole_read (demo_orphan\<lparr>au_seq := 1, au_created_at := DAY_MICROS\<rparr>) = Inr v"
    by (simp add: row_to_json_def decode_jsonb_def demo_orphan_def loads)
  then obtain body where body: "collect_ndjson (\<lambda>_. ''1.0'') whole_read demo_table 0 DAY_MICROS = Inr body"
    by (simp add: collect_ndjson_def export_audit_log_def rows)
  have "printable ((\<lambda>_. ''1.0'') r)" for r :: rat by simp
  from export_one_line_per_row [OF body this] body show ?thesis
    unfolding rows by (metis length_map list.size(3,4) One_nat_def add.right_neutral add_Suc_right)
qed

theorem midnight_row_exported_twice_witness:
  "demo_orphan\<lparr>au_seq := 1, au_created_at := DAY_MICROS\<rparr> \<in>
     set (case prior_utc_day (DAY_MICROS + 7) of (a, b) \<Rightarrow> export_rows a b demo_table) \<and>
   demo_orphan\<lparr>au_seq := 1, au_created_at := DAY_MICROS\<rparr> \<in>
     set (case prior_utc_day (DAY_MICROS + 7 + DAY_MICROS) of (a, b) \<Rightarrow> export_rows a b demo_table)"
  by (rule midnight_row_exported_twice [OF demo_table_row]) (simp add: midnight_def DAY_MICROS_def)

theorem every_row_exported_witness:
  "demo_orphan\<lparr>au_seq := 1, au_created_at := DAY_MICROS\<rparr> \<in>
     set (case prior_utc_day (2 * DAY_MICROS + 7) of (a, b) \<Rightarrow> export_rows a b demo_table)"
  by (rule every_row_exported [OF demo_table_row]) (simp_all add: midnight_def DAY_MICROS_def)

end
