(* ===== verification/Spec2Isabelle.thy ===== *)
theory Spec2Isabelle
  imports Gateway_Run Overlap_Props Migration_Run Tool_Props Tool_Transparent Policy_Gaps Limiter_Overlap Audit_Writers Audit_Export
begin

text \<open>
  A verification development for the MCP control plane gateway (the Python of \<open>src/app\<close>, the
  Rego policy of \<open>src/policies\<close>, the migration and the export script).

  The program.  An agent sends a JSON-RPC request to \<open>/mcp\<close>.  The middleware stack logs it
  (\<open>middleware/logging.py\<close>), finds the agent of its API key (\<open>middleware/auth.py\<close>) and counts it
  against the agent's quota in Redis (\<open>middleware/rate_limit.py\<close>).  The handler (\<open>main.py\<close>)
  normalises the call (\<open>interceptor.py\<close>), asks OPA (\<open>authz/opa.py\<close>, \<open>policies/authz.rego\<close>),
  and then denies it, runs an executor (\<open>tools/\<close>) or holds it as a pending approval in Redis
  (\<open>approvals.py\<close>) and notifies Slack (\<open>slack.py\<close>).  A signed Slack callback decides a held call,
  and an approved one is run then; the agent hears of it over an event stream (\<open>sse_hub.py\<close>).
  Every outcome is appended to a hash-chained table (\<open>audit.py\<close>), which a daily job exports.

  Theories, by what they model.
  \<^item> \<open>Prelude\<close>, \<open>PyStr\<close>, \<open>PyValues\<close>, \<open>Json_Text\<close>, \<open>Timestamps\<close>, \<open>Sha256\<close>: Python strings, values,
    exceptions as values, JSON text, UTC times, SHA-256 and HMAC, as far as the source uses them.
  \<^item> \<open>Redis_Store\<close>: the Redis client as a record of operations, the contracts \<open>redis_zset\<close> and
    \<open>redis_kv\<close> that state what its commands are documented to do, and \<open>tests/fakes.py\<close> as a model of
    both; \<open>Redis_Shared\<close> joins the contracts for one client used by two components.
  \<^item> \<open>Auth\<close>, \<open>Interceptor\<close>, \<open>Opa\<close>, \<open>Rego_Policy\<close>: who calls, what is called, what the policy says.
    \<open>policy_engine\<close> is the contract of a policy, and the repository's policy meets it;
    \<open>Policy_Gaps\<close> shows calls on which it decides otherwise than the tool specification.
  \<^item> \<open>Rate_Limit\<close>: \<open>SlidingWindowRateLimiter.check\<close> over the contract, for runs of checks one after
    the other; \<open>Limiter_Overlap\<close>: the same check in the turns between its awaits.
  \<^item> \<open>Approvals\<close>: creation, look-up and decision, for sequential runs over any client that meets the
    contract and for interleaved reads and writes of overlapping callbacks.
  \<^item> \<open>Slack\<close>, \<open>Sse_Hub\<close>: the callback signature, the notification, the hub and the stream loop.
  \<^item> \<open>Audit_Log\<close>, \<open>Hash_Chain\<close>, \<open>Audit_Chain\<close>, \<open>Audit_Props\<close>: the table, its append, verification,
    filters and pages, and what the chain does and does not protect (locale \<open>hash_chain\<close>, of which
    SHA-256 is an instance); \<open>Audit_Writers\<close>: overlapping transactions under the advisory lock;
    \<open>Schema\<close>: the migration; \<open>Audit_Export\<close>: the daily job.
  \<^item> \<open>K8s_Client\<close>, \<open>K8s_Tools\<close>, \<open>Http_Tools\<close>, \<open>Tool_Registry\<close>: \<open>tools/\<close>, one definition per executor,
    and the registry, shown to meet the contract \<open>tool_registry\<close> of the gateway.  \<open>Tool_Calls\<close> gives
    the calls each tool may make, \<open>Tool_Props\<close> shows that it makes no others, alone and behind the
    gateway, and \<open>Tool_Transparent\<close> that observing the calls does not change the run.
  \<^item> \<open>Gateway\<close>, \<open>Endpoints\<close>: the handlers, the middlewares and the application \<open>app\<close> as one function
    of configuration, environment, request and world; \<open>Gateway_Cases\<close> takes it apart by branch,
    \<open>Gateway_Props\<close> and \<open>Gateway_Run\<close> hold what one request and a run of requests guarantee, and
    \<open>Gateway_Demo\<close> a concrete gateway for the closed instances.
  \<^item> \<open>Gateway_Turns\<close>, \<open>Gateway_Overlap\<close>, \<open>Overlap_Props\<close>: the same handlers cut at their awaits, shown
    to be \<open>app\<close> when nothing interrupts them; any number of requests served in any interleaving of
    their turns, as a step relation with its invariant; and what that guarantees.
  \<^item> \<open>Startup\<close>, \<open>Migration_Run\<close>: the settings, the clients start-up opens and shutdown closes
    (\<open>db.py\<close>, \<open>redis_client.py\<close>), the exporters and instruments of \<open>otel.py\<close>, and the online run of
    \<open>migrations/env.py\<close>.

  State.  \<open>world\<close> is what the handlers change: Redis, the table, the hub, the messages handed to
  Slack, the measurements, the log lines and the systems behind the tools.  \<open>config\<close> is fixed at
  start-up; \<open>env\<close> holds what one request reads from its surroundings (clocks, fresh identifiers,
  the fate of its transaction).  An exception is \<open>Inl\<close>; an operation that can raise and changes
  state returns the state it leaves behind in both cases.

  Parameters, with what is assumed of them: the Redis client (the two contracts); OPA, which may
  answer anything, except where the repository's policy is named; the \<open>jsonb\<close> columns (a stored
  value reads back up to key order and spacing, a hypothesis where it is needed); the text of a
  float and its reading, the decoding of a request body and of query parameters, the validation of
  the callback's body, the webhook, the cluster and the HTTP services (nothing is assumed).

  Time and concurrency.  Requests run one after the other in \<open>Gateway_Run\<close> and in the runs of the
  components.  Overlap is modelled at two levels.  Component by component: decisions of one approval
  (\<open>Approvals\<close>), limiter checks (\<open>Limiter_Overlap\<close>) and audit transactions (\<open>Audit_Writers\<close>); the
  first two show what overlap can do wrong, the third that the lock keeps the chain, that the writes
  are as if serial, and that they all end.  And for the whole gateway (\<open>Gateway_Overlap\<close>): a step
  is one turn of one request, from one await to the next, at a time not before the last step's, or
  its taking of the advisory lock, for which the turn that writes an audit row has to wait.  The
  transaction under the lock is one turn, which \<open>Audit_Writers\<close> justifies; an executor is one turn,
  since the code calls it without an await.  Every effect is still accounted for, a callback that
  starts after a decision runs nothing, and there is no deadlock; two callbacks that read before
  either writes run the call twice.

  Bounds and fuel.  A request makes at most nine steps, eight turns and the lock.  The JSON scanner carries fuel, the length of the text, and the round trip shows
  that it is enough for every printed value.  Integers are unbounded, as in Python.  Characters are
  code points 0 to 255; an escape beyond them is rejected.  Floats are exact rationals with the
  two infinities and NaN; sums of times are not rounded.  A Jenkins time beyond the range of
  \<open>datetime\<close> raises, with the text of the common case of that exception.

  Not modelled, and why.
  \<^item> The attributes of spans and the automatic instrumentation of \<open>otel.py\<close>: library configuration
    nothing in the code reads back; the measurements the code records are modelled (\<open>metric\<close>).
  \<^item> The diagnostic log lines other than the request log's (\<open>main.py\<close>, \<open>audit.py\<close>, \<open>slack.py\<close>,
    \<open>opa.py\<close>, \<open>rate_limit.py\<close>): nothing in the code reads them back.
  \<^item> FastAPI and Starlette beyond what the handlers use (routing, \<open>JSONResponse\<close>, middleware order);
    an exception that leaves a handler is its result, and the 500 made of it is the framework's.
  \<^item> The offline mode of \<open>migrations/env.py\<close>, which prints SQL and changes no state; Alembic's choice
    of pending revisions and its configuration are arguments, the latter with its documented
    treatment of percent signs as a hypothesis.
  \<^item> Waiting for one of the ten connections of the pool: who holds the advisory lock has one.
  \<^item> The request classes of \<open>main.py\<close> that no handler uses, and the development server at its end.
  \<^item> The Helm charts, Terraform, dashboards, load tests and the test suites.
\<close>

end
